(* ===== verification/Mesh_Prelude.thy ===== *)
theory Mesh_Prelude
  imports Complex_Main "HOL-Library.Word" "HOL-Library.AList" "HOL-Library.Multiset"
begin

text \<open>
  The shared base of the development: the machine types of the Go source, Go maps as association
  lists, Go's \<^verbatim>\<open>time.Time\<close> and \<^verbatim>\<open>time.Duration\<close>, the loop that deletes from a map while
  ranging over it, and the two locales through which every stateful component lifts a one-step
  fact to whole runs. Nothing here mentions a component.
\<close>

section \<open>Collections of facts\<close>

named_theorems go_map_simps \<open>lookup and well-formedness of Go maps after each operation\<close>
named_theorems wf_intros \<open>every operation keeps its component's well-formedness\<close>

section \<open>Machine types\<close>

type_synonym u8 = "8 word"
type_synonym u32 = "32 word"
type_synonym u64 = "64 word"
type_synonym bytes = "u8 list"

text \<open>
  An \<^verbatim>\<open>int64\<close> is the \<open>int\<close> it denotes; \<open>wrap_i64\<close> is applied where the source's
  arithmetic can leave the 64-bit range and wrap.
\<close>

definition wrap_i64 :: "int \<Rightarrow> int" where
  "wrap_i64 x = (x + 2 ^ 63) mod 2 ^ 64 - 2 ^ 63"

definition is_i64 :: "int \<Rightarrow> bool" where
  "is_i64 x \<longleftrightarrow> - (2 ^ 63) \<le> x \<and> x < 2 ^ 63"

lemma wrap_i64_range [simp]: "is_i64 (wrap_i64 x)"
  by (simp add: wrap_i64_def is_i64_def) 

lemma wrap_i64_id [simp]: "is_i64 x \<Longrightarrow> wrap_i64 x = x"
  by (simp add: wrap_i64_def is_i64_def)

lemma wrap_i64_idem [simp]: "wrap_i64 (wrap_i64 x) = wrap_i64 x"
  by simp

lemma wrap_i64_mono_on:
  "is_i64 x \<Longrightarrow> is_i64 y \<Longrightarrow> x \<le> y \<Longrightarrow> wrap_i64 x \<le> wrap_i64 y"
  by simp

text \<open>\<^verbatim>\<open>int(x)\<close> of a float truncates towards zero (for a value in the range of the integer).\<close>

definition trunc_real :: "real \<Rightarrow> int" where
  "trunc_real x = (if x \<ge> 0 then \<lfloor>x\<rfloor> else \<lceil>x\<rceil>)"

text \<open>Counting up a word that is not at its maximum.\<close>

lemma unat_inc: "unat (w :: 'a::len word) + 1 < 2 ^ LENGTH('a) \<Longrightarrow> unat (w + 1) = unat w + 1"
  by (simp add: unat_word_ariths)

lemma unat_inc_below:
  assumes "(w :: 'a::len word) < v"
  shows "unat (w + 1) = unat w + 1"
proof (rule unat_inc)
  have "unat w < unat v" using assms by (simp add: word_less_nat_alt)
  moreover have "unat v < 2 ^ LENGTH('a)" by (rule unsigned_less)
  ultimately show "unat w + 1 < 2 ^ LENGTH('a)" by linarith
qed

lemma word_inc_greater: "unat (w :: 'a::len word) + 1 < 2 ^ LENGTH('a) \<Longrightarrow> g \<le> w \<Longrightarrow> g < w + 1"
  by (simp add: word_le_nat_alt word_less_nat_alt unat_inc)

lemma count_list_remove1:
  "count_list (remove1 x xs) y = (if x = y then count_list xs y - 1 else count_list xs y)"
  by (induction xs) (auto simp: count_list_0_iff)

section \<open>Time\<close>

text \<open>
  A \<^verbatim>\<open>time.Time\<close> is its offset from the Unix epoch in nanoseconds; Go's zero time is the
  first instant of year 1. \<^verbatim>\<open>Sub\<close> saturates at the ends of the \<^verbatim>\<open>int64\<close> range.
\<close>

type_synonym time = int
type_synonym duration = int

definition second :: duration where "second = 1000000000"
definition zero_time :: time where "zero_time = - 62135596800 * 1000000000"

definition IsZero :: "time \<Rightarrow> bool" where "IsZero t \<longleftrightarrow> t = zero_time"
definition UnixNano :: "time \<Rightarrow> int" where "UnixNano t = wrap_i64 t"
definition Unix :: "time \<Rightarrow> int" where "Unix t = t div second"

definition time_Sub :: "time \<Rightarrow> time \<Rightarrow> duration" where
  "time_Sub t u = max (- (2 ^ 63)) (min (2 ^ 63 - 1) (t - u))"

lemma time_Sub_gt_iff:
  "is_i64 d \<Longrightarrow> d < 2 ^ 63 - 1 \<Longrightarrow> d < time_Sub t u \<longleftrightarrow> d < t - u"
  by (auto simp: time_Sub_def is_i64_def)

section \<open>Go maps\<close>

text \<open>
  A Go map is the association list of its entries in the order in which a \<^verbatim>\<open>range\<close> loop visits
  them. Go leaves that order open, so the theorems about a loop speak of every order: two lists
  are the same Go map when \<open>map_of\<close> agrees. \<open>go_wf\<close> says that no key occurs twice.
\<close>

type_synonym ('k, 'v) gomap = "('k \<times> 'v) list"

abbreviation go_wf :: "('k, 'v) gomap \<Rightarrow> bool" where
  "go_wf m \<equiv> distinct (map fst m)"

abbreviation go_set :: "('k, 'v) gomap \<Rightarrow> 'k \<Rightarrow> 'v \<Rightarrow> ('k, 'v) gomap" where
  "go_set m k v \<equiv> AList.update k v m"

abbreviation go_delete :: "('k, 'v) gomap \<Rightarrow> 'k \<Rightarrow> ('k, 'v) gomap" where
  "go_delete m k \<equiv> AList.delete k m"

text \<open>Reading a missing key yields the zero value of the element type.\<close>

definition go_get :: "'v \<Rightarrow> ('k, 'v) gomap \<Rightarrow> 'k \<Rightarrow> 'v" where
  "go_get zero m k = (case map_of m k of None \<Rightarrow> zero | Some v \<Rightarrow> v)"

lemma map_of_go_set [simp, go_map_simps]: "map_of (go_set m k v) = (map_of m)(k \<mapsto> v)"
  by (rule update_conv')

lemma map_of_go_delete [simp, go_map_simps]: "map_of (go_delete m k) = (map_of m)(k := None)"
  by (rule delete_conv')

lemma go_wf_set [simp, intro, go_map_simps]: "go_wf m \<Longrightarrow> go_wf (go_set m k v)"
  by (rule distinct_update)

lemma go_wf_delete [simp, intro, go_map_simps]: "go_wf m \<Longrightarrow> go_wf (go_delete m k)"
  by (rule distinct_delete)

lemma go_wf_filter [simp, intro]: "go_wf m \<Longrightarrow> go_wf (filter P m)"
  by (induction m) auto

lemma map_of_filter_wf:
  "go_wf m \<Longrightarrow>
   map_of (filter P m) k =
     (case map_of m k of None \<Rightarrow> None | Some v \<Rightarrow> if P (k, v) then Some v else None)"
proof (induction m)
  case (Cons x m)
  obtain k' v' where x: "x = (k', v')" by (cases x)
  from Cons.prems x have "k' \<notin> set (map fst m)" by simp
  then have "map_of m k' = None" by (simp add: map_of_eq_None_iff)
  then have "map_of (filter P m) k' = None"
    using \<open>k' \<notin> set (map fst m)\<close> by (auto simp: map_of_eq_None_iff)
  with Cons x show ?case by (auto simp: x split: option.splits)
qed simp

lemma go_wf_mem_iff: "go_wf m \<Longrightarrow> (k, v) \<in> set m \<longleftrightarrow> map_of m k = Some v"
  by (metis map_of_SomeD map_of_is_SomeI)

lemma go_wf_same_map_mset:
  assumes "go_wf m" and "go_wf m'" and "map_of m = map_of m'"
  shows "mset m = mset m'"
proof -
  have "distinct m" "distinct m'" using assms(1,2) distinct_map by blast+
  moreover have "x \<in> set m \<longleftrightarrow> x \<in> set m'" for x
    using go_wf_mem_iff [OF assms(1), of "fst x" "snd x"]
      go_wf_mem_iff [OF assms(2), of "fst x" "snd x"] assms(3) by simp
  ultimately show ?thesis by (simp add: set_eq_iff set_eq_iff_mset_eq_distinct [symmetric])
qed

lemma go_wf_append_snoc:
  "go_wf (xs @ [(k, v)]) \<longleftrightarrow> go_wf xs \<and> map_of xs k = None"
  by (auto simp: map_of_eq_None_iff)

subsection \<open>Copying a map\<close>

text \<open>The loop \<^verbatim>\<open>for k, v := range m { cp[k] = v }\<close> into a fresh map.\<close>

definition go_copy :: "('k, 'v) gomap \<Rightarrow> ('k, 'v) gomap" where
  "go_copy m = foldl (\<lambda>cp (k, v). go_set cp k v) [] m"

lemma foldl_go_set:
  "go_wf (acc @ es) \<Longrightarrow> foldl (\<lambda>cp (k, v). go_set cp k v) acc es = acc @ es"
proof (induction es arbitrary: acc)
  case (Cons e es)
  obtain k v where e: "e = (k, v)" by (cases e)
  with Cons.prems have "k \<notin> fst ` set acc" by auto
  then have "go_set acc k v = acc @ [(k, v)]" by (induction acc) auto
  with Cons e show ?case by simp
qed simp

lemma go_copy_id [simp]: "go_wf m \<Longrightarrow> go_copy m = m"
  using foldl_go_set [of "[]" m] by (simp add: go_copy_def)

subsection \<open>Deleting while ranging\<close>

text \<open>
  The loop \<^verbatim>\<open>for k, v := range m { if cond { delete(m, k) } }\<close>: Go allows the deletion of the
  entry being visited, and visits every other entry exactly once.
\<close>

definition range_delete :: "('k \<Rightarrow> 'v \<Rightarrow> bool) \<Rightarrow> ('k, 'v) gomap \<Rightarrow> ('k, 'v) gomap" where
  "range_delete cond m = fold (\<lambda>(k, v) acc. if cond k v then go_delete acc k else acc) m m"

lemma fold_delete_filter:
  "fold (\<lambda>(k, v) acc. if cond k v then go_delete acc k else acc) xs acc =
   filter (\<lambda>(k, v). \<not> (\<exists>v'. (k, v') \<in> set xs \<and> cond k v')) acc"
proof (induction xs arbitrary: acc)
  case (Cons x xs)
  then show ?case
    by (cases x) (auto simp: AList.delete_eq intro!: filter_cong)
qed simp

lemma range_delete_filter:
  assumes "go_wf m"
  shows "range_delete cond m = filter (\<lambda>(k, v). \<not> cond k v) m"
proof -
  have "(\<exists>v'. (k, v') \<in> set m \<and> cond k v') \<longleftrightarrow> cond k v" if "(k, v) \<in> set m" for k v
    using that assms by (metis eq_key_imp_eq_value)
  then show ?thesis
    unfolding range_delete_def fold_delete_filter by (intro filter_cong) auto
qed

lemma map_of_range_delete [go_map_simps]:
  "go_wf m \<Longrightarrow>
   map_of (range_delete cond m) k =
     (case map_of m k of None \<Rightarrow> None | Some v \<Rightarrow> if cond k v then None else Some v)"
  by (simp add: range_delete_filter map_of_filter_wf split: option.splits)

lemma go_wf_range_delete [simp, intro, go_map_simps]: "go_wf m \<Longrightarrow> go_wf (range_delete cond m)"
  by (simp add: range_delete_filter)

lemma length_range_delete: "go_wf m \<Longrightarrow> length (range_delete cond m) \<le> length m"
  by (simp add: range_delete_filter)

section \<open>Runs of a component\<close>

text \<open>
  The contract of a component whose operations each keep an invariant, as long as the environment
  keeps its side (\<open>ok\<close>); its client is every sequence of such operations.
\<close>

locale invariant_system =
  fixes step :: "'s \<Rightarrow> 'e \<Rightarrow> 's"
    and ok :: "'e \<Rightarrow> bool"
    and inv :: "'s \<Rightarrow> bool"
  assumes step_inv: "inv s \<Longrightarrow> ok e \<Longrightarrow> inv (step s e)"
begin

lemma run_inv: "inv s \<Longrightarrow> list_all ok es \<Longrightarrow> inv (foldl step s es)"
  by (induction es arbitrary: s) (auto intro: step_inv)

end

text \<open>
  The contract of a component that only moves upwards in a preorder as long as its invariant
  holds.
\<close>

locale monotone_system = invariant_system step ok inv
  for step :: "'s \<Rightarrow> 'e \<Rightarrow> 's" and ok :: "'e \<Rightarrow> bool" and inv :: "'s \<Rightarrow> bool" +
  fixes le :: "'s \<Rightarrow> 's \<Rightarrow> bool"
  assumes le_refl: "le s s"
    and le_trans: "le s t \<Longrightarrow> le t u \<Longrightarrow> le s u"
    and step_le: "inv s \<Longrightarrow> ok e \<Longrightarrow> le s (step s e)"
begin

lemma run_le: "inv s \<Longrightarrow> list_all ok es \<Longrightarrow> le s (foldl step s es)"
proof (induction es arbitrary: s)
  case Nil
  then show ?case by (simp add: le_refl)
next
  case (Cons e es)
  then have "le (step s e) (foldl step (step s e) es)" by (simp add: step_inv)
  with Cons.prems show ?case by (auto intro: le_trans step_le)
qed

end

text \<open>The environment of a component that accepts every event.\<close>

abbreviation any :: "'e \<Rightarrow> bool" where
  "any \<equiv> \<lambda>_. True"

lemma list_all_any [simp]: "list_all any es"
  by (simp add: list_all_iff)

end
