(* ===== verification/Circuit_Breaker.thy ===== *)
theory Circuit_Breaker
  imports Mesh_Prelude
begin

text \<open>
  \<^verbatim>\<open>pkg/circuitbreaker\<close>: the three-state breaker. Every method holds the mutex for its whole body,
  so a concurrent execution is an interleaving of whole method calls; \<^verbatim>\<open>Call\<close> releases the mutex
  while the protected function runs, so it contributes two steps, \<^verbatim>\<open>beforeRequest\<close> and
  \<^verbatim>\<open>afterRequest\<close>, and in between a request is in flight with the generation it was admitted
  under. Calls of the \<^verbatim>\<open>OnStateChange\<close> callback are recorded in the ghost field
  \<open>cb_events\<close>. Counters are 32-bit and the generation 64-bit words, as in the source.
\<close>

section \<open>Data\<close>

datatype State = StateClosed | StateOpen | StateHalfOpen

definition State_String :: "State \<Rightarrow> string" where
  "State_String s =
     (case s of StateClosed \<Rightarrow> ''closed'' | StateOpen \<Rightarrow> ''open'' | StateHalfOpen \<Rightarrow> ''half-open'')"

datatype cb_error = ErrCircuitOpen | ErrTooManyRequests

record Counts =
  Requests :: u32
  TotalRequests :: u32
  TotalSuccesses :: u32
  TotalFailures :: u32
  ConsecSucc :: u32
  ConsecFail :: u32

definition zero_Counts :: Counts where
  "zero_Counts = \<lparr>Requests = 0, TotalRequests = 0, TotalSuccesses = 0, TotalFailures = 0,
     ConsecSucc = 0, ConsecFail = 0\<rparr>"

record cb_Config =
  MaxRequests :: u32
  Interval :: duration
  Timeout :: duration
  ReadyToTrip :: "(Counts \<Rightarrow> bool) option"
  OnStateChange :: bool

text \<open>
  The default rule. The source divides in \<^verbatim>\<open>float64\<close>; for 32-bit counts the rounded quotient is
  above the rounded 0.20 exactly when the real quotient is above 1/5.
\<close>

definition default_ReadyToTrip :: "Counts \<Rightarrow> bool" where
  "default_ReadyToTrip counts =
     (if TotalRequests counts < 50 then False
      else let failureRate = real (unat (TotalFailures counts)) / real (unat (TotalRequests counts))
           in failureRate > 20 / 100)"

definition DefaultConfig :: cb_Config where
  "DefaultConfig = \<lparr>MaxRequests = 5, Interval = 10 * second, Timeout = 30 * second,
     ReadyToTrip = Some default_ReadyToTrip, OnStateChange = False\<rparr>"

definition counts_onRequest :: "Counts \<Rightarrow> Counts" where
  "counts_onRequest c = c\<lparr>Requests := Requests c + 1, TotalRequests := TotalRequests c + 1\<rparr>"

definition counts_onSuccess :: "Counts \<Rightarrow> Counts" where
  "counts_onSuccess c =
     c\<lparr>TotalSuccesses := TotalSuccesses c + 1, ConsecSucc := ConsecSucc c + 1, ConsecFail := 0\<rparr>"

definition counts_onFailure :: "Counts \<Rightarrow> Counts" where
  "counts_onFailure c =
     c\<lparr>TotalFailures := TotalFailures c + 1, ConsecFail := ConsecFail c + 1, ConsecSucc := 0\<rparr>"

definition counts_clear :: "Counts \<Rightarrow> Counts" where
  "counts_clear c = c\<lparr>Requests := 0\<rparr>"

record CircuitBreaker =
  cb_name :: string
  cb_config :: cb_Config
  cb_state :: State
  cb_generation :: u64
  cb_counts :: Counts
  cb_expiry :: time
  cb_events :: "(string \<times> State \<times> State) list"

section \<open>Operations\<close>

definition NewBreaker :: "time \<Rightarrow> string \<Rightarrow> cb_Config \<Rightarrow> CircuitBreaker" where
  "NewBreaker now name config =
     \<lparr>cb_name = name,
      cb_config = (if ReadyToTrip config = None
                   then config\<lparr>ReadyToTrip := ReadyToTrip DefaultConfig\<rparr> else config),
      cb_state = StateClosed, cb_generation = 0, cb_counts = zero_Counts,
      cb_expiry = now + Interval config, cb_events = []\<rparr>"

definition setState :: "CircuitBreaker \<Rightarrow> State \<Rightarrow> time \<Rightarrow> CircuitBreaker" where
  "setState cb state now =
     (if cb_state cb = state then cb
      else let prev = cb_state cb;
               cb1 = cb\<lparr>cb_state := state, cb_generation := cb_generation cb + 1,
                        cb_counts := zero_Counts\<rparr>;
               cb2 = cb1\<lparr>cb_expiry :=
                       (case state of
                          StateClosed \<Rightarrow> now + Interval (cb_config cb1)
                        | StateOpen \<Rightarrow> now + Timeout (cb_config cb1)
                        | StateHalfOpen \<Rightarrow> zero_time)\<rparr>
           in if OnStateChange (cb_config cb2)
              then cb2\<lparr>cb_events := cb_events cb2 @ [(cb_name cb2, prev, state)]\<rparr> else cb2)"

definition currentState :: "CircuitBreaker \<Rightarrow> time \<Rightarrow> CircuitBreaker \<times> State \<times> u64" where
  "currentState cb now =
     (let cb' = (case cb_state cb of
            StateClosed \<Rightarrow>
              if \<not> IsZero (cb_expiry cb) \<and> cb_expiry cb < now
              then cb\<lparr>cb_counts := counts_clear (cb_counts cb),
                      cb_expiry := now + Interval (cb_config cb)\<rparr>
              else cb
          | StateOpen \<Rightarrow> if cb_expiry cb < now then setState cb StateHalfOpen now else cb
          | StateHalfOpen \<Rightarrow> cb)
      in (cb', cb_state cb', cb_generation cb'))"

definition State_now :: "CircuitBreaker \<Rightarrow> time \<Rightarrow> CircuitBreaker \<times> State" where
  "State_now cb now = (case currentState cb now of (cb', state, _) \<Rightarrow> (cb', state))"

definition Counts_now :: "CircuitBreaker \<Rightarrow> Counts" where
  "Counts_now cb = cb_counts cb"

definition beforeRequest :: "CircuitBreaker \<Rightarrow> time \<Rightarrow> CircuitBreaker \<times> u64 \<times> cb_error option" where
  "beforeRequest cb now =
     (case currentState cb now of (cb', state, generation) \<Rightarrow>
        if state = StateOpen then (cb', generation, Some ErrCircuitOpen)
        else if state = StateHalfOpen \<and> Requests (cb_counts cb') \<ge> MaxRequests (cb_config cb')
        then (cb', generation, Some ErrTooManyRequests)
        else (cb'\<lparr>cb_counts := counts_onRequest (cb_counts cb')\<rparr>, generation, None))"

definition cb_onSuccess :: "CircuitBreaker \<Rightarrow> State \<Rightarrow> time \<Rightarrow> CircuitBreaker" where
  "cb_onSuccess cb state now =
     (let cb' = cb\<lparr>cb_counts := counts_onSuccess (cb_counts cb)\<rparr>
      in if state = StateHalfOpen \<and> ConsecSucc (cb_counts cb') \<ge> MaxRequests (cb_config cb')
         then setState cb' StateClosed now else cb')"

text \<open>\<^verbatim>\<open>New\<close> replaces a missing rule, so a breaker always has one.\<close>

definition trips :: "CircuitBreaker \<Rightarrow> bool" where
  "trips cb = (case ReadyToTrip (cb_config cb) of None \<Rightarrow> False | Some f \<Rightarrow> f (cb_counts cb))"

definition cb_onFailure :: "CircuitBreaker \<Rightarrow> State \<Rightarrow> time \<Rightarrow> CircuitBreaker" where
  "cb_onFailure cb state now =
     (let cb' = cb\<lparr>cb_counts := counts_onFailure (cb_counts cb)\<rparr>
      in case state of
           StateClosed \<Rightarrow> if trips cb' then setState cb' StateOpen now else cb'
         | StateHalfOpen \<Rightarrow> setState cb' StateOpen now
         | StateOpen \<Rightarrow> cb')"

definition afterRequest :: "CircuitBreaker \<Rightarrow> u64 \<Rightarrow> bool \<Rightarrow> time \<Rightarrow> CircuitBreaker" where
  "afterRequest cb before success now =
     (case currentState cb now of (cb', state, generation) \<Rightarrow>
        if generation \<noteq> before then cb'
        else if success then cb_onSuccess cb' state now else cb_onFailure cb' state now)"

text \<open>
  A \<^verbatim>\<open>Call\<close> that nothing interleaves with: it starts at \<open>now\<close> and the function ends at \<open>later\<close>.
  The function returns no error, an error, or panics; a panic is counted as a failure and raised
  again.
\<close>

datatype fn_outcome = FnOk | FnErr string | FnPanic string
datatype call_result = Rejected cb_error | Returned "string option" | Panicked string

definition Call :: "CircuitBreaker \<Rightarrow> time \<Rightarrow> time \<Rightarrow> fn_outcome \<Rightarrow> CircuitBreaker \<times> call_result" where
  "Call cb now later fn =
     (case beforeRequest cb now of (cb', generation, err) \<Rightarrow>
        case err of Some e \<Rightarrow> (cb', Rejected e)
        | None \<Rightarrow>
            (case fn of
               FnPanic e \<Rightarrow> (afterRequest cb' generation False later, Panicked e)
             | FnErr e \<Rightarrow> (afterRequest cb' generation False later, Returned (Some e))
             | FnOk \<Rightarrow> (afterRequest cb' generation True later, Returned None)))"

section \<open>Interleavings\<close>

text \<open>A breaker together with the generations of the requests in flight.\<close>

type_synonym world = "CircuitBreaker \<times> u64 list"

inductive cb_step :: "world \<Rightarrow> world \<Rightarrow> bool" where
  cb_admit: "beforeRequest cb now = (cb', g, None) \<Longrightarrow> cb_step (cb, fl) (cb', g # fl)"
| cb_reject: "beforeRequest cb now = (cb', g, Some e) \<Longrightarrow> cb_step (cb, fl) (cb', fl)"
| cb_finish: "g \<in> set fl \<Longrightarrow> cb_step (cb, fl) (afterRequest cb g ok now, remove1 g fl)"
| cb_observe: "cb_step (cb, fl) (fst (State_now cb now), fl)"

inductive_cases cb_stepE: "cb_step (cb, fl) w"

text \<open>\<open>cb_reach config n w\<close>: the world \<open>w\<close> is reached from a new breaker in \<open>n\<close> steps.\<close>

inductive cb_reach :: "cb_Config \<Rightarrow> nat \<Rightarrow> world \<Rightarrow> bool" for config where
  cb_init: "cb_reach config 0 (NewBreaker now name config, [])"
| cb_next: "cb_reach config n w \<Longrightarrow> cb_step w w' \<Longrightarrow> cb_reach config (Suc n) w'"

section \<open>The state machine\<close>

text \<open>The three shapes of \<^verbatim>\<open>currentState\<close>: nothing, the interval's reset, the end of the timeout.\<close>

lemma currentState_cases:
  obtains (same) "fst (currentState cb now) = cb" "cb_state cb = StateOpen \<longrightarrow> now \<le> cb_expiry cb"
  | (tick) "cb_state cb = StateClosed"
      "fst (currentState cb now) = cb\<lparr>cb_counts := counts_clear (cb_counts cb),
         cb_expiry := now + Interval (cb_config cb)\<rparr>"
  | (retry) "cb_state cb = StateOpen" "cb_expiry cb < now"
      "fst (currentState cb now) = setState cb StateHalfOpen now"
proof (cases "cb_state cb")
  case StateClosed
  then show ?thesis
    using same tick by (cases "\<not> IsZero (cb_expiry cb) \<and> cb_expiry cb < now")
      (auto simp: currentState_def)
next
  case StateOpen
  then show ?thesis
    using same retry by (cases "cb_expiry cb < now") (auto simp: currentState_def Let_def)
next
  case StateHalfOpen
  then show ?thesis using same by (simp add: currentState_def)
qed

lemma currentState_eq:
  "currentState cb now =
   (let cb' = fst (currentState cb now) in (cb', cb_state cb', cb_generation cb'))"
  by (simp add: currentState_def Let_def)

lemma setState_fields [simp]:
  "cb_config (setState cb st now) = cb_config cb"
  "cb_name (setState cb st now) = cb_name cb"
  "cb_state (setState cb st now) = st"
  by (simp_all add: setState_def Let_def)

lemma setState_changed:
  assumes "cb_state cb \<noteq> st"
  shows "cb_generation (setState cb st now) = cb_generation cb + 1"
    and "cb_counts (setState cb st now) = zero_Counts"
    and "cb_events (setState cb st now) = cb_events cb @
      (if OnStateChange (cb_config cb) then [(cb_name cb, cb_state cb, st)] else [])"
    and "cb_expiry (setState cb st now) =
      (case st of StateClosed \<Rightarrow> now + Interval (cb_config cb)
       | StateOpen \<Rightarrow> now + Timeout (cb_config cb) | StateHalfOpen \<Rightarrow> zero_time)"
  using assms by (simp_all add: setState_def Let_def split: State.split)

section \<open>The invariant of the interleavings\<close>

definition norm_config :: "cb_Config \<Rightarrow> cb_Config" where
  "norm_config config = cb_config (NewBreaker 0 [] config)"

text \<open>Generations have not wrapped, and no request in flight is from the future.\<close>

definition gen_ok :: "cb_Config \<Rightarrow> nat \<Rightarrow> world \<Rightarrow> bool" where
  "gen_ok config n = (\<lambda>(cb, fl).
     cb_config cb = norm_config config \<and> unat (cb_generation cb) \<le> n \<and>
     list_all (\<lambda>g. g \<le> cb_generation cb) fl)"

text \<open>
  The accounting of each state: an open breaker has nothing of its generation in flight; a
  half-open one has admitted exactly its successes and what is in flight, at most \<^verbatim>\<open>MaxRequests\<close>.
\<close>

definition accounts :: "world \<Rightarrow> bool" where
  "accounts = (\<lambda>(cb, fl).
     (cb_state cb = StateOpen \<longrightarrow> cb_generation cb \<notin> set fl) \<and>
     (cb_state cb = StateHalfOpen \<longrightarrow>
        unat (Requests (cb_counts cb)) =
          unat (ConsecSucc (cb_counts cb)) + count_list fl (cb_generation cb) \<and>
        Requests (cb_counts cb) \<le> MaxRequests (cb_config cb) \<and>
        (ConsecSucc (cb_counts cb) < MaxRequests (cb_config cb) \<or> ConsecSucc (cb_counts cb) = 0)))"

lemma setState_inv:
  assumes "gen_ok config n (cb, fl)" and "Suc n < 2 ^ 64" and "cb_state cb \<noteq> st"
  shows "gen_ok config (Suc n) (setState cb st now, fl)" and "accounts (setState cb st now, fl)"
    and "cb_generation (setState cb st now) \<notin> set fl"
proof -
  have "unat (cb_generation cb) + 1 < 2 ^ LENGTH(64)"
    using assms(1,2) by (simp add: gen_ok_def)
  then have inc: "unat (cb_generation cb + 1) = unat (cb_generation cb) + 1"
    and above: "g \<le> cb_generation cb \<Longrightarrow> g < cb_generation cb + 1" for g
    by (rule unat_inc, rule word_inc_greater)
  show fresh: "cb_generation (setState cb st now) \<notin> set fl"
    using above assms(1) by (force simp: gen_ok_def setState_changed [OF assms(3)] list_all_iff)
  show "gen_ok config (Suc n) (setState cb st now, fl)"
    using assms(1) above
    by (fastforce simp: gen_ok_def setState_changed [OF assms(3)] inc list_all_iff)
  show "accounts (setState cb st now, fl)"
    using fresh assms(3)
    by (auto simp: accounts_def setState_changed zero_Counts_def count_list_0_iff)
qed

lemma currentState_inv:
  assumes "gen_ok config n (cb, fl)" and "accounts (cb, fl)" and "Suc n < 2 ^ 64"
  shows "gen_ok config (Suc n) (fst (currentState cb now), fl)"
    and "accounts (fst (currentState cb now), fl)"
proof -
  have "gen_ok config (Suc n) (fst (currentState cb now), fl) \<and> accounts (fst (currentState cb now), fl)"
  proof (cases rule: currentState_cases [of cb now])
    case same
    with assms show ?thesis by (simp add: gen_ok_def)
  next
    case tick
    with assms show ?thesis by (simp add: gen_ok_def accounts_def)
  next
    case retry
    with assms show ?thesis by (simp add: setState_inv)
  qed
  then show "gen_ok config (Suc n) (fst (currentState cb now), fl)"
    and "accounts (fst (currentState cb now), fl)" by simp_all
qed

text \<open>A result of the current generation was admitted in the state it is reported to.\<close>

lemma currentState_token:
  assumes "gen_ok config n (cb, fl)" and "accounts (cb, fl)" and "Suc n < 2 ^ 64"
    and "g \<in> set fl" and "cb_generation (fst (currentState cb now)) = g"
  shows "gen_ok config n (fst (currentState cb now), fl) \<and> cb_state (fst (currentState cb now)) \<noteq> StateOpen"
  using assms setState_inv(3) [OF assms(1,3), of StateHalfOpen now]
  by (cases rule: currentState_cases [of cb now]) (auto simp: gen_ok_def accounts_def)

definition cb_inv :: "cb_Config \<Rightarrow> nat \<Rightarrow> world \<Rightarrow> bool" where
  "cb_inv config n w \<longleftrightarrow> gen_ok config n w \<and> accounts w"

lemma beforeRequest_cases:
  assumes "beforeRequest cb now = (cb', g, err)"
  obtains (open_state) "err = Some ErrCircuitOpen" "cb' = fst (currentState cb now)"
      "cb_state cb' = StateOpen"
  | (full) "err = Some ErrTooManyRequests" "cb' = fst (currentState cb now)"
      "cb_state cb' = StateHalfOpen" "Requests (cb_counts cb') \<ge> MaxRequests (cb_config cb')"
  | (admitted) "err = None"
      "cb' = (fst (currentState cb now))\<lparr>cb_counts := counts_onRequest (cb_counts (fst (currentState cb now)))\<rparr>"
      "cb_state cb' \<noteq> StateOpen" "g = cb_generation cb'"
      "cb_state cb' = StateHalfOpen \<longrightarrow>
         Requests (cb_counts (fst (currentState cb now))) < MaxRequests (cb_config cb')"
proof -
  let ?c = "fst (currentState cb now)"
  have eq: "(cb', g, err) =
    (if cb_state ?c = StateOpen then (?c, cb_generation ?c, Some ErrCircuitOpen)
     else if cb_state ?c = StateHalfOpen \<and> Requests (cb_counts ?c) \<ge> MaxRequests (cb_config ?c)
     then (?c, cb_generation ?c, Some ErrTooManyRequests)
     else (?c\<lparr>cb_counts := counts_onRequest (cb_counts ?c)\<rparr>, cb_generation ?c, None))"
    unfolding assms [symmetric] beforeRequest_def by (subst currentState_eq) (simp add: Let_def)
  consider "cb_state ?c = StateOpen"
    | "cb_state ?c = StateHalfOpen" "Requests (cb_counts ?c) \<ge> MaxRequests (cb_config ?c)"
    | "cb_state ?c \<noteq> StateOpen"
      "cb_state ?c = StateHalfOpen \<longrightarrow> Requests (cb_counts ?c) < MaxRequests (cb_config ?c)"
    by (meson not_le)
  then show ?thesis
  proof cases
    case 1
    with eq show ?thesis by (intro open_state) auto
  next
    case 2
    with eq show ?thesis by (intro full) auto
  next
    case 3
    then have "\<not> (cb_state ?c = StateHalfOpen \<and> Requests (cb_counts ?c) \<ge> MaxRequests (cb_config ?c))"
      by auto
    with 3 eq show ?thesis by (intro admitted) simp_all
  qed
qed

lemma before_inv:
  assumes "cb_inv config n (cb, fl)" and "Suc n < 2 ^ 64"
    and before: "beforeRequest cb now = (cb', g, err)"
  shows "cb_inv config (Suc n) (cb', if err = None then g # fl else fl)"
proof -
  let ?c = "fst (currentState cb now)"
  have inv: "gen_ok config (Suc n) (?c, fl)" "accounts (?c, fl)"
    using assms(1,2) currentState_inv by (auto simp: cb_inv_def)
  show ?thesis
    using before
  proof (cases rule: beforeRequest_cases)
    case admitted
    with inv show ?thesis
      using unat_inc_below [of "Requests (cb_counts ?c)" "MaxRequests (cb_config ?c)"]
      by (auto simp: cb_inv_def gen_ok_def accounts_def counts_onRequest_def word_le_nat_alt
          word_less_nat_alt)
  qed (use inv in \<open>simp_all add: cb_inv_def\<close>)
qed

lemma gen_ok_remove: "gen_ok config n (cb, fl) \<Longrightarrow> gen_ok config n (cb, remove1 g fl)"
  by (auto simp: gen_ok_def list_all_iff dest: notin_set_remove1 set_remove1_subset [THEN subsetD])

lemma accounts_remove:
  "accounts (cb, fl) \<Longrightarrow> cb_state cb \<noteq> StateHalfOpen \<or> cb_generation cb \<noteq> g \<Longrightarrow>
   accounts (cb, remove1 g fl)"
  using set_remove1_subset [of g fl] by (auto simp: accounts_def count_list_remove1)

lemma setState_finish:
  assumes "gen_ok config n (cb, fl)" and "Suc n < 2 ^ 64" and "cb_state cb \<noteq> st"
    and "st \<noteq> StateHalfOpen"
  shows "cb_inv config (Suc n) (setState cb st now, remove1 g fl)"
  using assms by (simp add: cb_inv_def gen_ok_remove accounts_remove setState_inv)

lemma gen_ok_counts:
  "gen_ok config n (cb, fl) \<Longrightarrow> gen_ok config (Suc n) (cb\<lparr>cb_counts := c\<rparr>, remove1 g fl)"
  using gen_ok_remove [of config n cb fl g] by (simp add: gen_ok_def)

lemma success_inv:
  assumes ok: "gen_ok config n (cb, fl)" "accounts (cb, fl)" "Suc n < 2 ^ 64"
    and g: "cb_generation cb \<in> set fl"
  shows "cb_inv config (Suc n) (cb_onSuccess cb (cb_state cb) now, remove1 (cb_generation cb) fl)"
proof -
  let ?c = "cb\<lparr>cb_counts := counts_onSuccess (cb_counts cb)\<rparr>"
  let ?close = "cb_state cb = StateHalfOpen \<and> ConsecSucc (cb_counts ?c) \<ge> MaxRequests (cb_config ?c)"
  show ?thesis
  proof (cases ?close)
    case True
    then have "cb_onSuccess cb (cb_state cb) now = setState ?c StateClosed now"
      by (simp add: cb_onSuccess_def)
    moreover have "gen_ok config n (?c, fl)" using ok(1) by (simp add: gen_ok_def)
    ultimately show ?thesis using True ok(3) by (simp add: setState_finish)
  next
    case False
    then have eq: "cb_onSuccess cb (cb_state cb) now = ?c"
      unfolding cb_onSuccess_def Let_def by (rule if_not_P)
    have "0 < count_list fl (cb_generation cb)"
      using g by (simp add: count_list_0_iff gr0_conv_Suc [symmetric] zero_less_iff_neq_zero)
    then have "accounts (?c, remove1 (cb_generation cb) fl)"
      using False ok(2) unat_inc_below [of "ConsecSucc (cb_counts cb)" "Requests (cb_counts cb)"]
        set_remove1_subset [of "cb_generation cb" fl]
      by (auto simp: accounts_def counts_onSuccess_def count_list_remove1 word_less_nat_alt not_le)
    with ok(1) show ?thesis by (simp add: eq cb_inv_def gen_ok_counts)
  qed
qed

lemma failure_inv:
  assumes ok: "gen_ok config n (cb, fl)" "accounts (cb, fl)" "Suc n < 2 ^ 64"
    and "cb_state cb \<noteq> StateOpen"
  shows "cb_inv config (Suc n) (cb_onFailure cb (cb_state cb) now, remove1 g fl)"
proof -
  let ?c = "cb\<lparr>cb_counts := counts_onFailure (cb_counts cb)\<rparr>"
  have "gen_ok config n (?c, fl)" using ok(1) by (simp add: gen_ok_def)
  then have trip: "cb_inv config (Suc n) (setState ?c StateOpen now, remove1 g fl)"
    using assms(4) ok(3) by (simp add: setState_finish)
  have "cb_inv config (Suc n) (?c, remove1 g fl)" if "cb_state cb = StateClosed"
    using that ok(1) by (simp add: cb_inv_def accounts_def gen_ok_counts)
  with trip show ?thesis by (cases "cb_state cb") (use assms(4) in \<open>simp_all add: cb_onFailure_def Let_def\<close>)
qed

lemma finish_inv:
  assumes "cb_inv config n (cb, fl)" and "Suc n < 2 ^ 64" and "g \<in> set fl"
  shows "cb_inv config (Suc n) (afterRequest cb g ok now, remove1 g fl)"
proof -
  let ?c = "fst (currentState cb now)"
  have inv: "gen_ok config (Suc n) (?c, fl)" "accounts (?c, fl)"
    using assms(1,2) currentState_inv by (auto simp: cb_inv_def)
  show ?thesis
  proof (cases "cb_generation ?c = g")
    case True
    then have "gen_ok config n (?c, fl) \<and> cb_state ?c \<noteq> StateOpen"
      using assms currentState_token unfolding cb_inv_def by blast
    then show ?thesis
      using True inv assms(2,3) success_inv [of config n ?c fl now] failure_inv [of config n ?c fl now g]
      unfolding afterRequest_def by (subst currentState_eq) (simp add: Let_def)
  next
    case False
    then have "afterRequest cb g ok now = ?c"
      unfolding afterRequest_def by (subst currentState_eq) (simp add: Let_def)
    with inv False show ?thesis by (simp add: cb_inv_def gen_ok_remove accounts_remove)
  qed
qed

lemma cb_inv_step:
  assumes "cb_step w w'" and "cb_inv config n w" and "Suc n < 2 ^ 64"
  shows "cb_inv config (Suc n) w'"
  using assms(1)
proof cases
  case (cb_admit cb now cb' g fl)
  with before_inv [of config n cb fl now cb' g None] assms(2,3) show ?thesis by simp
next
  case (cb_reject cb now cb' g e fl)
  with before_inv [of config n cb fl now cb' g "Some e"] assms(2,3) show ?thesis by simp
next
  case (cb_finish g fl cb ok now)
  with finish_inv assms(2,3) show ?thesis by simp
next
  case (cb_observe cb fl now)
  with currentState_inv assms(2,3) show ?thesis
    by (auto simp: cb_inv_def State_now_def case_prod_unfold)
qed

lemma cb_reach_inv: "cb_reach config n w \<Longrightarrow> n < 2 ^ 64 \<Longrightarrow> cb_inv config n w"
proof (induction rule: cb_reach.induct)
  case (cb_init now name)
  then show ?case
    by (simp add: cb_inv_def gen_ok_def accounts_def norm_config_def NewBreaker_def)
next
  case (cb_next n w w')
  then show ?case by (simp add: cb_inv_step)
qed

lemma norm_config_max [simp]: "MaxRequests (norm_config config) = MaxRequests config"
  by (simp add: norm_config_def NewBreaker_def)

text \<open>What the invariant says of a reachable half-open breaker.\<close>

lemma reach_half_open:
  assumes "cb_reach config n (cb, fl)" and "n < 2 ^ 64" and "cb_state cb = StateHalfOpen"
  shows "MaxRequests (cb_config cb) = MaxRequests config"
    and "unat (Requests (cb_counts cb)) =
      unat (ConsecSucc (cb_counts cb)) + count_list fl (cb_generation cb)"
    and "Requests (cb_counts cb) \<le> MaxRequests config"
    and "ConsecSucc (cb_counts cb) < MaxRequests config \<or> ConsecSucc (cb_counts cb) = 0"
proof -
  have "cb_inv config n (cb, fl)" using assms(1,2) by (rule cb_reach_inv)
  with assms(3) show "MaxRequests (cb_config cb) = MaxRequests config"
    and "unat (Requests (cb_counts cb)) =
      unat (ConsecSucc (cb_counts cb)) + count_list fl (cb_generation cb)"
    and "Requests (cb_counts cb) \<le> MaxRequests config"
    and "ConsecSucc (cb_counts cb) < MaxRequests config \<or> ConsecSucc (cb_counts cb) = 0"
    by (auto simp: cb_inv_def gen_ok_def accounts_def)
qed

lemma reach_half_open_idle:
  assumes "cb_reach config n (cb, fl)" and "n < 2 ^ 64" and "cb_state cb = StateHalfOpen"
    and "0 < MaxRequests config" and "cb_generation cb \<notin> set fl"
  shows "Requests (cb_counts cb) = ConsecSucc (cb_counts cb)"
    and "Requests (cb_counts cb) < MaxRequests config"
proof -
  have "count_list fl (cb_generation cb) = 0" using assms(5) by (simp add: count_list_0_iff)
  with reach_half_open(2) [OF assms(1-3)]
  show eq: "Requests (cb_counts cb) = ConsecSucc (cb_counts cb)" by (simp add: word_unat_eq_iff)
  show "Requests (cb_counts cb) < MaxRequests config"
    using reach_half_open(4) [OF assms(1-3)] assms(4) eq by auto
qed

section \<open>Transitions\<close>

fun allowed :: "State \<Rightarrow> State \<Rightarrow> bool" where
  "allowed StateClosed t = (t = StateOpen)"
| "allowed StateOpen t = (t = StateHalfOpen)"
| "allowed StateHalfOpen t = (t \<noteq> StateHalfOpen)"

text \<open>The reported events lead from one state to another along allowed transitions.\<close>

fun event_path :: "State \<Rightarrow> (string \<times> State \<times> State) list \<Rightarrow> State \<Rightarrow> bool" where
  "event_path s [] t = (s = t)"
| "event_path s ((_, from, to) # es) t = (from = s \<and> allowed from to \<and> event_path to es t)"

lemma event_path_snoc:
  "event_path s (es @ [(name, t, u)]) v \<longleftrightarrow> event_path s es t \<and> allowed t u \<and> u = v"
  by (induction s es t rule: event_path.induct) auto

definition reported :: "CircuitBreaker \<Rightarrow> bool" where
  "reported cb \<longleftrightarrow>
     (OnStateChange (cb_config cb) \<longrightarrow> event_path StateClosed (cb_events cb) (cb_state cb))"

lemma allowed_irrefl: "\<not> allowed s s"
  by (cases s) simp_all

lemma reported_setState: "reported cb \<Longrightarrow> allowed (cb_state cb) st \<Longrightarrow> reported (setState cb st now)"
  by (cases "cb_state cb = st") (auto simp: reported_def setState_changed allowed_irrefl event_path_snoc)

lemma reported_counts [simp]: "reported (cb\<lparr>cb_counts := c\<rparr>) = reported cb"
  by (simp add: reported_def)

lemma reported_currentState: "reported cb \<Longrightarrow> reported (fst (currentState cb now))"
  by (cases rule: currentState_cases [of cb now]) (auto simp: reported_setState, auto simp: reported_def)

lemma reported_onSuccess: "reported cb \<Longrightarrow> reported (cb_onSuccess cb (cb_state cb) now)"
  by (simp add: cb_onSuccess_def Let_def reported_setState)

lemma reported_onFailure: "reported cb \<Longrightarrow> reported (cb_onFailure cb (cb_state cb) now)"
  by (cases "cb_state cb") (simp_all add: cb_onFailure_def Let_def reported_setState)

lemma reported_afterRequest: "reported cb \<Longrightarrow> reported (afterRequest cb g ok now)"
  unfolding afterRequest_def
  by (subst currentState_eq)
    (simp add: Let_def reported_onSuccess reported_onFailure reported_currentState)

lemma reported_beforeRequest:
  assumes "reported cb" and "beforeRequest cb now = (cb', g, err)"
  shows "reported cb'"
  using assms(2) by (cases rule: beforeRequest_cases) (simp_all add: assms(1) reported_currentState)

lemma reported_step: "cb_step w w' \<Longrightarrow> reported (fst w) \<Longrightarrow> reported (fst w')"
  by (cases rule: cb_step.cases)
    (auto intro: reported_beforeRequest reported_afterRequest
      simp: State_now_def case_prod_unfold reported_currentState)

lemma reported_reach: "cb_reach config n w \<Longrightarrow> reported (fst w)"
proof (induction rule: cb_reach.induct)
  case (cb_init now name)
  then show ?case by (simp add: reported_def NewBreaker_def)
next
  case (cb_next n w w')
  then show ?case using reported_step by blast
qed

section \<open>Sequential calls\<close>

lemma currentState_half_open [simp]:
  "cb_state cb = StateHalfOpen \<Longrightarrow> currentState cb now = (cb, StateHalfOpen, cb_generation cb)"
  by (simp add: currentState_def)

lemma Call_probe:
  assumes "cb_state cb = StateHalfOpen" and "Requests (cb_counts cb) = ConsecSucc (cb_counts cb)"
    and "ConsecSucc (cb_counts cb) < MaxRequests (cb_config cb)"
  shows "let cb' = fst (Call cb now later FnOk) in
    snd (Call cb now later FnOk) = Returned None \<and> cb_config cb' = cb_config cb \<and>
    (if ConsecSucc (cb_counts cb) + 1 \<ge> MaxRequests (cb_config cb) then cb_state cb' = StateClosed
     else cb_state cb' = StateHalfOpen \<and> Requests (cb_counts cb') = ConsecSucc (cb_counts cb) + 1 \<and>
          ConsecSucc (cb_counts cb') = ConsecSucc (cb_counts cb) + 1)"
proof -
  let ?a = "cb\<lparr>cb_counts := counts_onRequest (cb_counts cb)\<rparr>"
  have "beforeRequest cb now = (?a, cb_generation cb, None)"
    using assms by (simp add: beforeRequest_def not_le)
  then have "Call cb now later FnOk = (cb_onSuccess ?a StateHalfOpen later, Returned None)"
    using assms(1) by (simp add: Call_def afterRequest_def)
  then show ?thesis
    using assms by (simp add: Let_def cb_onSuccess_def counts_onSuccess_def counts_onRequest_def)
qed

definition probes :: "CircuitBreaker \<Rightarrow> (time \<times> time) list \<Rightarrow> CircuitBreaker" where
  "probes cb ts = foldl (\<lambda>cb (now, later). fst (Call cb now later FnOk)) cb ts"

lemma probes_close:
  assumes "cb_state cb = StateHalfOpen" and "Requests (cb_counts cb) = ConsecSucc (cb_counts cb)"
    and "unat (ConsecSucc (cb_counts cb)) + length ts = unat (MaxRequests (cb_config cb))" and "ts \<noteq> []"
  shows "cb_state (probes cb ts) = StateClosed"
  using assms
proof (induction ts arbitrary: cb)
  case (Cons t ts)
  obtain now later where t: "t = (now, later)" by (cases t)
  let ?c = "fst (Call cb now later FnOk)"
  have less: "ConsecSucc (cb_counts cb) < MaxRequests (cb_config cb)"
    using Cons.prems(3) by (simp add: word_less_nat_alt)
  note probe = Call_probe [OF Cons.prems(1,2) less, of now later, unfolded Let_def]
    and inc = unat_inc_below [OF less]
  show ?case
  proof (cases "ts = []")
    case True
    with probe inc Cons.prems(3) t show ?thesis by (simp add: probes_def word_le_nat_alt)
  next
    case False
    then have "\<not> MaxRequests (cb_config cb) \<le> ConsecSucc (cb_counts cb) + 1"
      using inc Cons.prems(3) by (cases ts) (simp_all add: word_le_nat_alt)
    with probe inc Cons.prems(3) False have "cb_state (probes ?c ts) = StateClosed"
      by (intro Cons.IH) simp_all
    with t show ?thesis by (simp add: probes_def)
  qed
qed simp

text \<open>The interval's reset keeps the state, the generation and the totals.\<close>

definition closed_like :: "CircuitBreaker \<Rightarrow> CircuitBreaker \<Rightarrow> bool" where
  "closed_like cb cb' \<longleftrightarrow> cb_state cb' = cb_state cb \<and> cb_config cb' = cb_config cb \<and>
     cb_generation cb' = cb_generation cb \<and>
     TotalRequests (cb_counts cb') = TotalRequests (cb_counts cb) \<and>
     TotalFailures (cb_counts cb') = TotalFailures (cb_counts cb)"

lemma closed_tick: "cb_state cb = StateClosed \<Longrightarrow> closed_like cb (fst (currentState cb now))"
  by (cases rule: currentState_cases [of cb now]) (simp_all add: closed_like_def counts_clear_def)

lemma default_trips_iff:
  "default_ReadyToTrip c \<longleftrightarrow>
     50 \<le> unat (TotalRequests c) \<and> unat (TotalRequests c) < 5 * unat (TotalFailures c)"
proof -
  have fifth: "real f / real r > 20 / 100 \<longleftrightarrow> r < 5 * f" if "50 \<le> r" for f r :: nat
  proof -
    have "real f / real r > 20 / 100 \<longleftrightarrow> real r < real (5 * f)" using that by (simp add: field_simps)
    then show ?thesis by (simp only: of_nat_less_iff)
  qed
  have "unat (50 :: u32) = 50" by simp
  then have "TotalRequests c < 50 \<longleftrightarrow> \<not> 50 \<le> unat (TotalRequests c)"
    unfolding word_less_nat_alt by linarith
  then show ?thesis using fifth unfolding default_ReadyToTrip_def Let_def by metis
qed

section \<open>A breaker without probes\<close>

definition stuck :: "world \<Rightarrow> bool" where
  "stuck = (\<lambda>(cb, fl). cb_state cb = StateHalfOpen \<and> MaxRequests (cb_config cb) = 0 \<and>
     cb_generation cb \<notin> set fl)"

lemma stuck_rejects: "stuck (cb, fl) \<Longrightarrow> beforeRequest cb now = (cb, cb_generation cb, Some ErrTooManyRequests)"
  by (simp add: stuck_def beforeRequest_def)

lemma stuck_step:
  assumes "cb_step w w'" and "stuck w"
  shows "stuck w'"
  using assms(1)
proof cases
  case (cb_finish g fl cb ok now)
  with assms(2) have "afterRequest cb g ok now = cb" by (auto simp: stuck_def afterRequest_def)
  with cb_finish assms(2) set_remove1_subset [of g fl] show ?thesis by (auto simp: stuck_def)
qed (use assms(2) in \<open>auto simp: stuck_rejects, auto simp: stuck_def State_now_def\<close>)

lemma stuck_steps: "cb_step\<^sup>*\<^sup>* w w' \<Longrightarrow> stuck w \<Longrightarrow> stuck w'"
  by (induction rule: rtranclp_induct) (auto intro: stuck_step)

section \<open>A concrete run\<close>

text \<open>
  A breaker that trips on the first failure: one request fails at instant 2, the next one is the
  first probe at 40, and it succeeds at 41.
\<close>

definition demo_cb :: "u32 \<Rightarrow> cb_Config" where
  "demo_cb k = \<lparr>MaxRequests = k, Interval = 10, Timeout = 30, ReadyToTrip = Some (\<lambda>_. True),
     OnStateChange = True\<rparr>"

definition demo_tripped :: "u32 \<Rightarrow> CircuitBreaker" where
  "demo_tripped k = afterRequest (fst (beforeRequest (NewBreaker 0 ''b1'' (demo_cb k)) 1)) 0 False 2"

lemma demo_tripped_eq:
  "demo_tripped k = \<lparr>cb_name = ''b1'', cb_config = demo_cb k, cb_state = StateOpen, cb_generation = 1,
     cb_counts = zero_Counts, cb_expiry = 32, cb_events = [(''b1'', StateClosed, StateOpen)]\<rparr>"
  by (simp add: demo_tripped_def beforeRequest_def currentState_def NewBreaker_def demo_cb_def
      afterRequest_def cb_onFailure_def trips_def setState_def Let_def)

lemma demo_tripped_reach: "cb_reach (demo_cb k) 2 (demo_tripped k, [])"
proof -
  have "beforeRequest (NewBreaker 0 ''b1'' (demo_cb k)) 1 =
      (fst (beforeRequest (NewBreaker 0 ''b1'' (demo_cb k)) 1), 0, None)"
    by (simp add: beforeRequest_def currentState_def NewBreaker_def Let_def)
  then have "cb_reach (demo_cb k) 1 (fst (beforeRequest (NewBreaker 0 ''b1'' (demo_cb k)) 1), [0])"
    using cb_next [OF cb_init cb_admit] by fastforce
  from cb_next [OF this cb_finish [of 0 "[0]" _ False 2]] show ?thesis
    by (simp add: demo_tripped_def numeral_2_eq_2)
qed

definition demo_half :: "u32 \<Rightarrow> CircuitBreaker" where
  "demo_half k = fst (State_now (demo_tripped k) 40)"

lemma demo_half_eq:
  "demo_half k = \<lparr>cb_name = ''b1'', cb_config = demo_cb k, cb_state = StateHalfOpen, cb_generation = 2,
     cb_counts = zero_Counts, cb_expiry = zero_time,
     cb_events = [(''b1'', StateClosed, StateOpen), (''b1'', StateOpen, StateHalfOpen)]\<rparr>"
  by (simp add: demo_half_def demo_tripped_eq State_now_def currentState_def setState_def Let_def)
    (simp add: demo_cb_def)

lemma demo_half_reach: "cb_reach (demo_cb k) 3 (demo_half k, [])"
  using cb_next [OF demo_tripped_reach cb_observe [of _ _ 40]] by (simp add: demo_half_def numeral_3_eq_3)

section \<open>Properties\<close>

text \<open>
  C10. A half-open breaker lets only probes through. In every interleaving of fewer than \<open>2 ^ 64\<close>
  steps, while the breaker is half open, the requests it has admitted since are exactly its
  consecutive successes and the ones still in flight, and there are never more than
  \<^verbatim>\<open>MaxRequests\<close> of them.
\<close>

theorem cb_half_open_bound:
  assumes "cb_reach config n (cb, fl)" and "n < 2 ^ 64" and "cb_state cb = StateHalfOpen"
  shows "unat (ConsecSucc (cb_counts cb)) + count_list fl (cb_generation cb) =
           unat (Requests (cb_counts cb))
    \<and> unat (Requests (cb_counts cb)) \<le> unat (MaxRequests config)"
  using reach_half_open [OF assms] by (simp add: word_le_nat_alt)

theorem cb_half_open_bound_witness:
  "unat (Requests (cb_counts (demo_half 2))) \<le> 2"
  using cb_half_open_bound [OF demo_half_reach [of 2]] by (simp add: demo_half_eq demo_cb_def)

text \<open>
  A half-open breaker is never wedged: if at least one probe is configured and none of this
  generation is in flight, the next request is admitted, whatever interleaving led here.
\<close>

theorem cb_not_wedged:
  assumes "cb_reach config n (cb, fl)" and "n < 2 ^ 64" and "cb_state cb = StateHalfOpen"
    and "0 < MaxRequests config" and "cb_generation cb \<notin> set fl"
  shows "snd (beforeRequest cb now) = (cb_generation cb, None)"
  using reach_half_open_idle(2) [OF assms] reach_half_open(1) [OF assms(1-3)] assms(3)
  by (simp add: beforeRequest_def not_le)

theorem cb_not_wedged_witness: "snd (beforeRequest (demo_half 2) 99) = (2, None)"
  using cb_not_wedged [OF demo_half_reach [of 2], of 99] by (simp add: demo_half_eq demo_cb_def)

text \<open>
  C25. A half-open breaker recovers: from any reachable half-open state with no probe in flight,
  as many successful calls as are missing to \<^verbatim>\<open>MaxRequests\<close> close the circuit, whenever they
  are made and however long each takes.
\<close>

theorem cb_recovers:
  assumes "cb_reach config n (cb, fl)" and "n < 2 ^ 64" and "cb_state cb = StateHalfOpen"
    and "0 < MaxRequests config" and "cb_generation cb \<notin> set fl"
    and "length ts = unat (MaxRequests config) - unat (ConsecSucc (cb_counts cb))"
  shows "cb_state (probes cb ts) = StateClosed"
  using probes_close [of cb ts] reach_half_open_idle [OF assms(1-5)] reach_half_open(1) [OF assms(1-3)]
    assms(3,6) by (cases "ts = []") (auto simp: word_less_nat_alt)

theorem cb_recovers_witness: "cb_state (probes (demo_half 2) [(50, 55), (60, 61)]) = StateClosed"
  by (rule cb_recovers [OF demo_half_reach]) (simp_all add: demo_half_eq demo_cb_def zero_Counts_def)

text \<open>
  With \<^verbatim>\<open>MaxRequests\<close> zero a breaker that has once tripped never serves again: no
  interleaving leads out of the half-open state, and every request is refused.
\<close>

theorem cb_zero_probes_stuck:
  assumes "cb_reach config n (cb, fl)" and "n < 2 ^ 64" and "cb_state cb = StateHalfOpen"
    and "MaxRequests config = 0" and "cb_step\<^sup>*\<^sup>* (cb, fl) (cb', fl')"
  shows "cb_state cb' = StateHalfOpen
    \<and> beforeRequest cb' now = (cb', cb_generation cb', Some ErrTooManyRequests)"
proof -
  have "stuck (cb, fl)"
    using reach_half_open [OF assms(1-3)] assms(3,4) by (auto simp: stuck_def count_list_0_iff)
  with assms(5) have "stuck (cb', fl')" by (rule stuck_steps)
  then show ?thesis by (simp add: stuck_rejects) (simp add: stuck_def)
qed

theorem cb_zero_probes_stuck_witness:
  "beforeRequest (demo_half 0) 99 = (demo_half 0, 2, Some ErrTooManyRequests)"
  using cb_zero_probes_stuck [OF demo_half_reach [of 0], of "demo_half 0" "[]" 99]
  by (simp add: demo_half_eq demo_cb_def)

text \<open>
  A tripped breaker fails fast and then probes. After a trip at \<open>t\<close>, a call up to
  \<open>t + Timeout\<close> is refused with \<^verbatim>\<open>ErrCircuitOpen\<close> without running the function and without any
  change; the first call after that finds the circuit half open and, if a probe is configured,
  runs.
\<close>

theorem cb_open_then_probe:
  assumes "cb_state cb \<noteq> StateOpen"
  shows "(now \<le> t + Timeout (cb_config cb) \<longrightarrow>
            Call (setState cb StateOpen t) now later fn =
              (setState cb StateOpen t, Rejected ErrCircuitOpen))
    \<and> (now > t + Timeout (cb_config cb) \<and> 0 < MaxRequests (cb_config cb) \<longrightarrow>
         (\<exists>cb' g. beforeRequest (setState cb StateOpen t) now = (cb', g, None) \<and>
                  cb_state cb' = StateHalfOpen \<and> Requests (cb_counts cb') = 1))"
proof (intro conjI impI)
  let ?o = "setState cb StateOpen t"
  have o: "cb_state ?o = StateOpen" "cb_expiry ?o = t + Timeout (cb_config cb)"
    using assms by (simp_all add: setState_changed)
  show "now \<le> t + Timeout (cb_config cb) \<Longrightarrow> Call ?o now later fn = (?o, Rejected ErrCircuitOpen)"
    using o by (simp add: Call_def beforeRequest_def currentState_def Let_def)
  assume late: "now > t + Timeout (cb_config cb) \<and> 0 < MaxRequests (cb_config cb)"
  let ?h = "setState ?o StateHalfOpen now"
  have "cb_counts ?h = zero_Counts" using o(1) by (simp add: setState_changed)
  then show "\<exists>cb' g. beforeRequest ?o now = (cb', g, None) \<and> cb_state cb' = StateHalfOpen \<and>
      Requests (cb_counts cb') = 1"
    using late o by (auto simp: beforeRequest_def currentState_def Let_def zero_Counts_def
        counts_onRequest_def)
qed

theorem cb_open_then_probe_witness:
  "Call (setState (NewBreaker 0 ''b1'' (demo_cb 2)) StateOpen 5) 20 25 FnOk =
     (setState (NewBreaker 0 ''b1'' (demo_cb 2)) StateOpen 5, Rejected ErrCircuitOpen)"
  using cb_open_then_probe [of "NewBreaker 0 ''b1'' (demo_cb 2)" 20 5 25 FnOk]
  by (simp add: NewBreaker_def demo_cb_def)

text \<open>
  The default rule looks at the totals since the last state change, not at the interval. A
  closed breaker with the default rule, asked after any number of intervals, opens on a failing
  call exactly when the totals including this call reach 50 requests and more than a fifth of
  them failed.
\<close>

theorem cb_default_trip:
  assumes "cb_state cb = StateClosed" and "ReadyToTrip (cb_config cb) = Some default_ReadyToTrip"
    and "unat (TotalRequests (cb_counts cb)) + 1 < 2 ^ 32"
    and "unat (TotalFailures (cb_counts cb)) + 1 < 2 ^ 32"
  shows "cb_state (fst (Call cb now later (FnErr e))) = StateOpen \<longleftrightarrow>
    50 \<le> unat (TotalRequests (cb_counts cb)) + 1 \<and>
    unat (TotalRequests (cb_counts cb)) + 1 < 5 * (unat (TotalFailures (cb_counts cb)) + 1)"
proof -
  let ?c = "fst (currentState cb now)"
  let ?d = "?c\<lparr>cb_counts := counts_onRequest (cb_counts ?c)\<rparr>"
  let ?f = "fst (currentState ?d later)"
  let ?k = "counts_onFailure (cb_counts ?f)"
  have c: "closed_like cb ?c" using assms(1) by (rule closed_tick)
  have d: "closed_like ?d ?f"
    using c assms(1) by (intro closed_tick) (simp add: closed_like_def)
  have "beforeRequest cb now = (?d, cb_generation ?d, None)"
    using c assms(1) unfolding beforeRequest_def
    by (subst currentState_eq) (simp add: closed_like_def Let_def)
  moreover have "afterRequest ?d (cb_generation ?d) False later = cb_onFailure ?f StateClosed later"
    using c d assms(1) unfolding afterRequest_def
    by (subst currentState_eq) (simp add: closed_like_def Let_def)
  ultimately have "cb_state (fst (Call cb now later (FnErr e))) = StateOpen \<longleftrightarrow> default_ReadyToTrip ?k"
    using c d assms(1,2) by (simp add: Call_def cb_onFailure_def trips_def closed_like_def Let_def)
  moreover have "TotalRequests ?k = TotalRequests (cb_counts cb) + 1"
    "TotalFailures ?k = TotalFailures (cb_counts cb) + 1"
    using c d by (simp_all add: closed_like_def counts_onFailure_def counts_onRequest_def)
  ultimately show ?thesis
    using assms(3,4) unat_inc [of "TotalRequests (cb_counts cb)"] unat_inc [of "TotalFailures (cb_counts cb)"]
    by (simp add: default_trips_iff)
qed

theorem cb_default_trip_witness:
  "cb_state (fst (Call \<lparr>cb_name = ''b1'', cb_config = DefaultConfig, cb_state = StateClosed,
      cb_generation = 0, cb_counts = zero_Counts\<lparr>TotalRequests := 49, TotalFailures := 10\<rparr>,
      cb_expiry = 5, cb_events = []\<rparr> (10 ^ 15) (10 ^ 16) (FnErr ''e''))) = StateOpen"
  by (subst cb_default_trip) (simp_all add: DefaultConfig_def)

text \<open>
  What the callback is told is the history of the breaker: in every interleaving the reported
  transitions form a path from closed to the current state, along closed to open, open to
  half-open, and half-open to closed or back to open.
\<close>

theorem cb_events_path:
  assumes "cb_reach config n (cb, fl)" and "OnStateChange (cb_config cb)"
  shows "event_path StateClosed (cb_events cb) (cb_state cb)"
  using reported_reach [OF assms(1)] assms(2) by (simp add: reported_def)

theorem cb_events_path_witness:
  "event_path StateClosed (cb_events (demo_half 2)) StateHalfOpen"
  using cb_events_path [OF demo_half_reach [of 2]] by (simp add: demo_half_eq demo_cb_def)

end
