(* ===== verification/Go_Strings.thy ===== *)
theory Go_Strings
  imports Mesh_Prelude "HOL-Library.Sublist" "HOL-Library.List_Lexorder" "HOL-Library.Char_ord"
begin

text \<open>
  The parts of Go's \<^verbatim>\<open>strings\<close>, \<^verbatim>\<open>strconv\<close> and \<^verbatim>\<open>sort\<close> packages that the source uses, on strings
  as lists of bytes. Letter case and white space are those of ASCII: a string outside ASCII keeps
  its bytes. \<^verbatim>\<open>sort.Strings\<close> is \<open>sort\<close> in the bytewise lexicographic order of the library.
\<close>

section \<open>The strings package\<close>

definition lower_char :: "char \<Rightarrow> char" where
  "lower_char c = (let n = of_char c :: nat in if 65 \<le> n \<and> n \<le> 90 then char_of (n + 32) else c)"

definition ToLower :: "string \<Rightarrow> string" where
  "ToLower s = map lower_char s"

definition EqualFold :: "string \<Rightarrow> string \<Rightarrow> bool" where
  "EqualFold s t \<longleftrightarrow> ToLower s = ToLower t"

definition HasPrefix :: "string \<Rightarrow> string \<Rightarrow> bool" where
  "HasPrefix s p \<longleftrightarrow> prefix p s"

definition HasSuffix :: "string \<Rightarrow> string \<Rightarrow> bool" where
  "HasSuffix s p \<longleftrightarrow> suffix p s"

definition Contains :: "string \<Rightarrow> string \<Rightarrow> bool" where
  "Contains s p \<longleftrightarrow> sublist p s"

definition TrimSuffix :: "string \<Rightarrow> string \<Rightarrow> string" where
  "TrimSuffix s p = (if HasSuffix s p then take (length s - length p) s else s)"

definition is_space :: "char \<Rightarrow> bool" where
  "is_space c \<longleftrightarrow> (let n = of_char c :: nat in (9 \<le> n \<and> n \<le> 13) \<or> n = 32)"

definition TrimSpace :: "string \<Rightarrow> string" where
  "TrimSpace s = rev (dropWhile is_space (rev (dropWhile is_space s)))"

text \<open>\<^verbatim>\<open>strings.Trim(s, cutset)\<close>: leading and trailing characters of the set go.\<close>

definition Trim :: "string \<Rightarrow> string \<Rightarrow> string" where
  "Trim s cs = rev (dropWhile (\<lambda>c. c \<in> set cs) (rev (dropWhile (\<lambda>c. c \<in> set cs) s)))"

text \<open>\<^verbatim>\<open>strings.Split(s, sep)\<close> for a separator of one byte: never the empty list.\<close>

fun Split :: "string \<Rightarrow> char \<Rightarrow> string list" where
  "Split [] sep = [[]]"
| "Split (c # s) sep =
     (if c = sep then [] # Split s sep
      else (case Split s sep of [] \<Rightarrow> [[c]] | w # ws \<Rightarrow> (c # w) # ws))"

fun Join :: "string list \<Rightarrow> char \<Rightarrow> string" where
  "Join [] sep = []"
| "Join [w] sep = w"
| "Join (w # v # ws) sep = w @ sep # Join (v # ws) sep"

text \<open>\<^verbatim>\<open>strings.LastIndex(s, c)\<close> for one byte; \<open>None\<close> for -1.\<close>

fun LastIndex :: "string \<Rightarrow> char \<Rightarrow> nat option" where
  "LastIndex [] c = None"
| "LastIndex (x # xs) c =
     (case LastIndex xs c of Some i \<Rightarrow> Some (Suc i) | None \<Rightarrow> if x = c then Some 0 else None)"

lemma HasSuffix_TrimSuffix: "HasSuffix s p \<Longrightarrow> TrimSuffix s p @ p = s"
  by (auto simp: HasSuffix_def TrimSuffix_def suffix_def)

lemma TrimSuffix_append [simp]: "TrimSuffix (s @ p) p = s"
  by (auto simp: HasSuffix_def TrimSuffix_def suffix_def)

lemma Split_nonempty [simp]: "Split s sep \<noteq> []"
  by (cases s) (auto split: list.splits)

lemma Split_no_sep [simp]: "sep \<notin> set s \<Longrightarrow> Split s sep = [s]"
  by (induction s) auto

lemma Split_append_sep: "sep \<notin> set w \<Longrightarrow> Split (w @ sep # s) sep = w # Split s sep"
  by (induction w) auto

lemma Join_Cons: "ws \<noteq> [] \<Longrightarrow> Join (w # ws) sep = w @ sep # Join ws sep"
  by (cases ws) auto

lemma Join_Split: "Join (Split s sep) sep = s"
proof (induction s)
  case (Cons c s)
  then show ?case
    by (cases "Split s sep"; cases "tl (Split s sep)") (auto simp: Join_Cons)
qed simp

lemma Split_parts_no_sep: "w \<in> set (Split s sep) \<Longrightarrow> sep \<notin> set w"
proof (induction s arbitrary: w)
  case (Cons c s)
  then show ?case by (cases "Split s sep") (auto split: if_splits)
qed simp

lemma Split_Join:
  "ws \<noteq> [] \<Longrightarrow> (\<And>w. w \<in> set ws \<Longrightarrow> sep \<notin> set w) \<Longrightarrow> Split (Join ws sep) sep = ws"
  by (induction ws sep rule: Join.induct) (auto simp: Split_append_sep)

lemma ToLower_append [simp]: "ToLower (s @ t) = ToLower s @ ToLower t"
  by (simp add: ToLower_def)

lemma lower_char_idem [simp]: "lower_char (lower_char c) = lower_char c"
proof -
  have "of_char c < (256 :: nat)" by simp
  then show ?thesis by (auto simp: lower_char_def Let_def)
qed

lemma ToLower_idem [simp]: "ToLower (ToLower s) = ToLower s"
  by (simp add: ToLower_def)

section \<open>Decimal numbers\<close>

text \<open>\<^verbatim>\<open>strconv.FormatUint(n, 10)\<close> and \<^verbatim>\<open>strconv.Itoa\<close> on numbers that are not negative.\<close>

definition digit :: "nat \<Rightarrow> char" where
  "digit d = char_of (48 + d)"

fun dec :: "nat \<Rightarrow> string" where
  "dec n = (if n < 10 then [digit n] else dec (n div 10) @ [digit (n mod 10)])"

declare dec.simps [simp del]

definition digit_val :: "char \<Rightarrow> nat option" where
  "digit_val c = (let n = of_char c :: nat in if 48 \<le> n \<and> n \<le> 57 then Some (n - 48) else None)"

fun undec :: "nat \<Rightarrow> string \<Rightarrow> nat option" where
  "undec acc [] = Some acc"
| "undec acc (c # s) = (case digit_val c of None \<Rightarrow> None | Some d \<Rightarrow> undec (10 * acc + d) s)"

lemma digit_val_digit [simp]: "d < 10 \<Longrightarrow> digit_val (digit d) = Some d"
  by (simp add: digit_val_def digit_def Let_def)

lemma undec_append:
  "undec acc (s @ t) = (case undec acc s of None \<Rightarrow> None | Some a \<Rightarrow> undec a t)"
  by (induction s arbitrary: acc) (auto split: option.splits)

lemma undec_dec [simp]: "undec 0 (dec n) = Some n"
proof (induction n rule: dec.induct)
  case (1 n)
  then show ?case
    by (cases "n < 10") (simp_all add: dec.simps [of n] undec_append)
qed

lemma dec_inject [simp]: "dec m = dec n \<longleftrightarrow> m = n"
  by (metis option.inject undec_dec)

lemma dec_nonempty [simp]: "dec n \<noteq> []"
  by (subst dec.simps) simp

lemma dec_digits: "c \<in> set (dec n) \<Longrightarrow> \<exists>d < 10. c = digit d"
proof (induction n rule: dec.induct)
  case (1 n)
  show ?case
  proof (cases "n < 10 \<or> c \<notin> set (dec (n div 10))")
    case True
    with "1.prems" have "c = digit (n mod 10)" by (auto simp: dec.simps [of n] split: if_splits)
    then show ?thesis by (intro exI [of _ "n mod 10"]) simp
  next
    case False
    with "1.IH" show ?thesis by simp
  qed
qed

lemma digit_neq: "d < 10 \<Longrightarrow> digit_val c = None \<Longrightarrow> digit d \<noteq> c"
  by auto

lemma dec_not_mem: "digit_val c = None \<Longrightarrow> c \<notin> set (dec n)"
  using dec_digits digit_neq by metis

text \<open>
  \<^verbatim>\<open>strconv.ParseInt(s, 10, 64)\<close>: an optional sign, at least one digit, nothing else; a value
  outside the \<^verbatim>\<open>int64\<close> range is an error.
\<close>

datatype num_error = ErrSyntax | ErrRange

definition ParseUintDigits :: "string \<Rightarrow> nat option" where
  "ParseUintDigits s = (if s = [] then None else undec 0 s)"

definition ParseInt :: "string \<Rightarrow> num_error + int" where
  "ParseInt s =
     (let (neg, ds) = (case s of [] \<Rightarrow> (False, s)
                       | c # t \<Rightarrow> if c = CHR ''+'' then (False, t)
                                  else if c = CHR ''-'' then (True, t) else (False, s))
      in case ParseUintDigits ds of
           None \<Rightarrow> Inl ErrSyntax
         | Some n \<Rightarrow> (let v = (if neg then - int n else int n)
                     in if is_i64 v then Inr v else Inl ErrRange))"

lemma ParseInt_range: "ParseInt s = Inr v \<Longrightarrow> is_i64 v"
  by (auto simp: ParseInt_def Let_def split: prod.splits option.splits if_splits)

lemma dec_head_not_sign: "dec n = c # t \<Longrightarrow> c \<noteq> CHR ''+'' \<and> c \<noteq> CHR ''-''"
  using dec_not_mem [of "CHR ''+''" n] dec_not_mem [of "CHR ''-''" n]
  by (auto simp: digit_val_def)

lemma ParseInt_dec:
  assumes "is_i64 (int n)"
  shows "ParseInt (dec n) = Inr (int n)"
proof -
  obtain c t where ct: "dec n = c # t" by (cases "dec n") auto
  then have "ParseUintDigits (c # t) = Some n"
    using undec_dec [of n] by (simp add: ParseUintDigits_def)
  with ct dec_head_not_sign [OF ct] assms show ?thesis by (simp add: ParseInt_def)
qed

end
