(* ===== verification/Health_Prober.thy ===== *)
theory Health_Prober
  imports Go_Strings
begin

text \<open>
  \<^verbatim>\<open>pkg/health/health.go\<close>: the prober that checks one backend again and again. Sending an HTTP
  request (an error, or the status code) and opening a TCP connection (an error, or nothing) are
  arguments. A run of the background loop is the list of its checks: the instant of each and what
  the network did. Starting and stopping is modelled with the loops that run and the contexts that were
  cancelled. \<^verbatim>\<open>uint\<close> has 64 bits.
\<close>

section \<open>State and operations\<close>

record ProbeConfig =
  hc_Type :: string
  hc_Path :: string
  hc_Interval :: duration
  hc_Timeout :: duration
  hc_Failures :: u64

record Status =
  hs_Healthy :: bool
  hs_LastCheck :: time
  hs_ConsecFailures :: u64
  hs_LastError :: string
  hs_TotalChecks :: u64
  hs_TotalFailures :: u64

record Prober =
  hp_cfg :: ProbeConfig
  hp_target :: string
  hp_status :: Status

record net_env =
  ne_Get :: "string \<Rightarrow> string + int"
  ne_Dial :: "string \<Rightarrow> string option"

definition NewProber :: "ProbeConfig \<Rightarrow> string \<Rightarrow> Prober" where
  "NewProber cfg target =
     \<lparr>hp_cfg = cfg, hp_target = target,
      hp_status = \<lparr>hs_Healthy = True, hs_LastCheck = zero_time, hs_ConsecFailures = 0, hs_LastError = [],
                   hs_TotalChecks = 0, hs_TotalFailures = 0\<rparr>\<rparr>"

definition GetStatus :: "Prober \<Rightarrow> Status" where
  "GetStatus p = hp_status p"

definition decimal :: "int \<Rightarrow> string" where
  "decimal n = (if n < 0 then CHR ''-'' # dec (nat (- n)) else dec (nat n))"

text \<open>\<open>None\<close> is the nil error.\<close>

definition checkHTTP :: "net_env \<Rightarrow> Prober \<Rightarrow> string option" where
  "checkHTTP env p =
     (let url = hp_target p;
          url = (if hc_Path (hp_cfg p) \<noteq> [] then url @ hc_Path (hp_cfg p) else url)
      in case ne_Get env url of
           Inl err \<Rightarrow> Some err
         | Inr code \<Rightarrow> if code < 200 \<or> code \<ge> 300 then Some (''HTTP '' @ decimal code) else None)"

definition checkTCP :: "net_env \<Rightarrow> Prober \<Rightarrow> string option" where
  "checkTCP env p = ne_Dial env (hp_target p)"

definition probe_error :: "net_env \<Rightarrow> Prober \<Rightarrow> string option" where
  "probe_error env p =
     (if hc_Type (hp_cfg p) = ''http'' then checkHTTP env p
      else if hc_Type (hp_cfg p) = ''tcp'' then checkTCP env p
      else Some (''unknown probe type: '' @ hc_Type (hp_cfg p)))"

definition check :: "net_env \<Rightarrow> time \<Rightarrow> Prober \<Rightarrow> Prober" where
  "check env now p =
     (let err = probe_error env p;
          st = (hp_status p)\<lparr>hs_LastCheck := now, hs_TotalChecks := hs_TotalChecks (hp_status p) + 1\<rparr>;
          st = (case err of
                  Some e \<Rightarrow>
                    (let st = st\<lparr>hs_ConsecFailures := hs_ConsecFailures st + 1,
                                 hs_TotalFailures := hs_TotalFailures st + 1, hs_LastError := e\<rparr>
                     in if hs_ConsecFailures st \<ge> hc_Failures (hp_cfg p) then st\<lparr>hs_Healthy := False\<rparr> else st)
                | None \<Rightarrow> st\<lparr>hs_ConsecFailures := 0, hs_LastError := [], hs_Healthy := True\<rparr>)
      in p\<lparr>hp_status := st\<rparr>)"

text \<open>The loop: one check at once, and one per tick.\<close>

fun probe_loop :: "(time \<times> net_env) list \<Rightarrow> Prober \<Rightarrow> Prober" where
  "probe_loop [] p = p"
| "probe_loop ((now, env) # ticks) p = probe_loop ticks (check env now p)"

text \<open>
  Starting and stopping. A loop is known by the number of its context; \<open>pl_cancel\<close> cancels the context of the
  latest start, \<open>pl_live\<close> are the loops the wait group counts.
\<close>

record prober_loops =
  pl_next :: nat
  pl_cancel :: "nat option"
  pl_cancelled :: "nat list"
  pl_live :: "nat list"

definition no_loops :: prober_loops where
  "no_loops = \<lparr>pl_next = 0, pl_cancel = None, pl_cancelled = [], pl_live = []\<rparr>"

text \<open>A ticker with an interval that is not positive panics, in the new goroutine: \<open>None\<close>.\<close>

definition prober_Start :: "Prober \<Rightarrow> prober_loops \<Rightarrow> prober_loops option" where
  "prober_Start p s =
     (if hc_Interval (hp_cfg p) \<le> 0 then None
      else Some (s\<lparr>pl_next := pl_next s + 1, pl_cancel := Some (pl_next s), pl_live := pl_live s @ [pl_next s]\<rparr>))"

text \<open>
  \<open>ended\<close>: the context the caller gave to \<^verbatim>\<open>Start\<close> is over, which ends every loop. \<open>None\<close>: waiting for the loops never
  returns, since one of them has a context that nobody cancels.
\<close>

definition prober_Stop :: "bool \<Rightarrow> prober_loops \<Rightarrow> prober_loops option" where
  "prober_Stop ended s =
     (let s = (case pl_cancel s of None \<Rightarrow> s | Some c \<Rightarrow> s\<lparr>pl_cancelled := c # pl_cancelled s\<rparr>)
      in if ended \<or> set (pl_live s) \<subseteq> set (pl_cancelled s) then Some (s\<lparr>pl_live := []\<rparr>) else None)"

section \<open>The history\<close>

text \<open>
  The specification of a prober is its history, the outcomes of its checks with the latest first;
  the status is read off the history.
\<close>

type_synonym history = "(time \<times> string option) list"

definition failing :: "history \<Rightarrow> nat" where
  "failing h = length (takeWhile (\<lambda>(t, err). err \<noteq> None) h)"

definition status_of :: "u64 \<Rightarrow> history \<Rightarrow> Status" where
  "status_of limit h =
     \<lparr>hs_Healthy = (failing h = 0 \<or> failing h < unat limit),
      hs_LastCheck = (case h of [] \<Rightarrow> zero_time | (t, _) # _ \<Rightarrow> t),
      hs_ConsecFailures = of_nat (failing h),
      hs_LastError = (case h of (_, Some e) # _ \<Rightarrow> e | _ \<Rightarrow> []),
      hs_TotalChecks = of_nat (length h),
      hs_TotalFailures = of_nat (length (filter (\<lambda>(t, err). err \<noteq> None) h))\<rparr>"

definition outcomes :: "Prober \<Rightarrow> (time \<times> net_env) list \<Rightarrow> history" where
  "outcomes p ticks = rev (map (\<lambda>(now, env). (now, probe_error env p)) ticks)"

lemma failing_le: "failing h \<le> length h"
  by (simp add: failing_def length_takeWhile_le)

lemma failing_Cons: "failing ((t, err) # h) = (if err = None then 0 else failing h + 1)"
  by (simp add: failing_def)

lemma check_keeps [simp]: "hp_cfg (check env now p) = hp_cfg p" "hp_target (check env now p) = hp_target p"
  by (simp_all add: check_def Let_def split: option.split)

lemma probe_error_cong: "hp_cfg p = hp_cfg q \<Longrightarrow> hp_target p = hp_target q \<Longrightarrow> probe_error env p = probe_error env q"
  by (simp add: probe_error_def checkHTTP_def checkTCP_def Let_def)

text \<open>One check moves the history by one outcome.\<close>

lemma check_refines:
  assumes "hp_status p = status_of (hc_Failures (hp_cfg p)) h" and "length h + 1 < 2 ^ 64"
  shows "hp_status (check env now p) = status_of (hc_Failures (hp_cfg p)) ((now, probe_error env p) # h)"
proof (cases "probe_error env p")
  case None
  then show ?thesis by (simp add: check_def status_of_def failing_Cons assms(1))
next
  case (Some e)
  have "(of_nat (failing h) + 1 :: u64) = of_nat (failing h + 1)" by simp
  moreover have "unat (of_nat (failing h + 1) :: u64) = failing h + 1"
    using failing_le [of h] assms(2) by (simp only: unat_of_nat) simp
  ultimately have "hc_Failures (hp_cfg p) \<le> of_nat (failing h) + 1 \<longleftrightarrow> unat (hc_Failures (hp_cfg p)) \<le> failing h + 1"
    by (simp add: word_le_nat_alt add.commute)
  then show ?thesis
    using Some by (auto simp: check_def status_of_def failing_Cons assms(1) Let_def)
qed

lemma probe_loop_refines:
  assumes "hp_status p = status_of (hc_Failures (hp_cfg p)) h" and "length h + length ticks < 2 ^ 64"
  shows "hp_status (probe_loop ticks p) = status_of (hc_Failures (hp_cfg p)) (outcomes p ticks @ h)"
  using assms
proof (induction ticks arbitrary: p h)
  case (Cons x ticks)
  obtain now env where x: "x = (now, env)" by (cases x)
  have "(\<lambda>e. probe_error e (check env now p)) = (\<lambda>e. probe_error e p)"
    by (intro ext probe_error_cong) simp_all
  then have "outcomes (check env now p) ticks = outcomes p ticks" by (simp add: outcomes_def fun_eq_iff)
  then have "outcomes p (x # ticks) @ h = outcomes (check env now p) ticks @ (now, probe_error env p) # h"
    by (simp add: outcomes_def x)
  with Cons.IH [of "check env now p" "(now, probe_error env p) # h"] check_refines [OF Cons.prems(1)] Cons.prems(2)
  show ?case by (simp add: x)
qed (simp add: outcomes_def)

section \<open>Properties\<close>

text \<open>
  C33. The status of a prober is its history. After any run of fewer than \<open>2^64\<close> checks the counters
  are the numbers of checks and of failures, the consecutive failures are those since the last
  success, the last error and check are those of the last outcome, and the backend counts as healthy
  exactly when the last check passed or the failures since then are fewer than the configured number.
\<close>

theorem prober_status_is_history:
  assumes "length ticks < 2 ^ 64"
  shows "GetStatus (probe_loop ticks (NewProber cfg target)) =
    status_of (hc_Failures cfg) (outcomes (NewProber cfg target) ticks)"
  using probe_loop_refines [of "NewProber cfg target" "[]" ticks] assms
  by (simp add: GetStatus_def) (simp add: NewProber_def status_of_def failing_def)

definition demo_http :: ProbeConfig where
  "demo_http = \<lparr>hc_Type = ''http'', hc_Path = ''/health'', hc_Interval = second, hc_Timeout = second, hc_Failures = 2\<rparr>"

definition demo_net :: "int \<Rightarrow> net_env" where
  "demo_net code = \<lparr>ne_Get = (\<lambda>_. Inr code), ne_Dial = (\<lambda>_. None)\<rparr>"

theorem prober_status_is_history_witness:
  "hs_Healthy (GetStatus (probe_loop [(1, demo_net 200), (2, demo_net 503)] (NewProber demo_http ''h'')))
   \<and> \<not> hs_Healthy (GetStatus (probe_loop [(1, demo_net 200), (2, demo_net 503), (3, demo_net 404)] (NewProber demo_http ''h'')))"
  by (subst (1 2) prober_status_is_history)
    (simp_all add: status_of_def outcomes_def failing_def NewProber_def demo_http_def demo_net_def
      probe_error_def checkHTTP_def)

text \<open>
  A prober of an unknown type never reaches the network: it fails every check, and the backend counts
  as unhealthy from the configured number of failures on (and from the first when that is 0).
\<close>

theorem prober_unknown_type:
  assumes "hc_Type cfg \<noteq> ''http''" and "hc_Type cfg \<noteq> ''tcp''" and "length ticks < 2 ^ 64"
  shows "hs_Healthy (GetStatus (probe_loop ticks (NewProber cfg target))) \<longleftrightarrow>
    ticks = [] \<or> length ticks < unat (hc_Failures cfg)"
proof -
  have "failing (outcomes (NewProber cfg target) ticks) = length ticks"
    using assms(1,2) by (simp add: failing_def outcomes_def probe_error_def NewProber_def case_prod_unfold takeWhile_eq_all_conv [THEN iffD2])
  then show ?thesis
    using probe_loop_refines [of "NewProber cfg target" "[]" ticks] assms(3)
    by (simp add: GetStatus_def) (simp add: NewProber_def status_of_def failing_def)
qed

text \<open>
  A prober is stopped once for each start, in turn: then stopping always returns and leaves no loop. Started
  again while a loop runs, it loses the means to cancel that loop, and stopping it waits forever as long
  as the caller's context lives.
\<close>

fun start_stop :: "Prober \<Rightarrow> nat \<Rightarrow> prober_loops \<Rightarrow> prober_loops option" where
  "start_stop p 0 s = Some s"
| "start_stop p (Suc n) s =
     Option.bind (prober_Start p s) (\<lambda>s. Option.bind (prober_Stop False s) (start_stop p n))"

lemma start_stop_runs:
  assumes "hc_Interval (hp_cfg p) > 0" and "pl_live s = []"
  shows "\<exists>s'. start_stop p n s = Some s' \<and> pl_live s' = []"
  using assms(2)
proof (induction n arbitrary: s)
  case (Suc n)
  have "\<exists>s1. Option.bind (prober_Start p s) (prober_Stop False) = Some s1 \<and> pl_live s1 = []"
    using assms(1) Suc.prems by (simp add: prober_Start_def prober_Stop_def)
  then show ?case using Suc.IH by (auto simp: bind_eq_Some_conv)
qed simp

theorem prober_second_start_blocks:
  assumes "hc_Interval (hp_cfg p) > 0"
  shows "(\<exists>s. start_stop p n no_loops = Some s \<and> pl_live s = [] \<and> prober_Stop False s \<noteq> None)
    \<and> (\<exists>s. Option.bind (prober_Start p no_loops) (prober_Start p) = Some s
        \<and> prober_Stop False s = None \<and> prober_Stop True s \<noteq> None)"
proof -
  obtain s where "start_stop p n no_loops = Some s" "pl_live s = []"
    using start_stop_runs [OF assms, of no_loops] by (auto simp: no_loops_def)
  moreover from this have "prober_Stop False s \<noteq> None" by (simp add: prober_Stop_def Let_def split: option.split)
  moreover have "\<exists>s. Option.bind (prober_Start p no_loops) (prober_Start p) = Some s
        \<and> prober_Stop False s = None \<and> prober_Stop True s \<noteq> None"
    using assms by (simp add: prober_Start_def prober_Stop_def no_loops_def)
  ultimately show ?thesis by blast
qed

theorem prober_second_start_blocks_witness:
  "\<exists>s. Option.bind (prober_Start (NewProber demo_http ''h'') no_loops) (prober_Start (NewProber demo_http ''h'')) = Some s
     \<and> prober_Stop False s = None"
  using prober_second_start_blocks [of "NewProber demo_http ''h''" 1] by (auto simp: NewProber_def demo_http_def second_def)

end
