(* ===== verification/Net_IP.thy ===== *)
theory Net_IP
  imports Go_Strings
begin

text \<open>
  Go's \<^verbatim>\<open>net.IP\<close> as the source uses it: a slice of 4 or 16 bytes (any other length is an invalid
  address, the empty slice is \<^verbatim>\<open>nil\<close>), with \<^verbatim>\<open>To4\<close>, \<^verbatim>\<open>To16\<close>, \<^verbatim>\<open>String\<close>, \<^verbatim>\<open>ParseIP\<close>,
  \<^verbatim>\<open>CIDRMask\<close>, \<^verbatim>\<open>IPv4\<close> and the big-endian conversions.
\<close>

unbundle bit_operations_syntax

section \<open>The two representations\<close>

type_synonym IP = bytes

definition v4InV6Prefix :: bytes where
  "v4InV6Prefix = replicate 10 0 @ [255, 255]"

definition To4 :: "IP \<Rightarrow> IP option" where
  "To4 ip =
     (if length ip = 4 then Some ip
      else if length ip = 16 \<and> take 12 ip = v4InV6Prefix then Some (drop 12 ip)
      else None)"

definition IPv4 :: "u8 \<Rightarrow> u8 \<Rightarrow> u8 \<Rightarrow> u8 \<Rightarrow> IP" where
  "IPv4 a b c d = v4InV6Prefix @ [a, b, c, d]"

definition To16 :: "IP \<Rightarrow> IP option" where
  "To16 ip =
     (if length ip = 4 then Some (IPv4 (ip ! 0) (ip ! 1) (ip ! 2) (ip ! 3))
      else if length ip = 16 then Some ip
      else None)"

lemma length_v4InV6Prefix [simp]: "length v4InV6Prefix = 12"
  by (simp add: v4InV6Prefix_def)

lemma To4_length: "To4 ip = Some v \<Longrightarrow> length v = 4"
  by (auto simp: To4_def split: if_splits)

lemma To16_length: "To16 ip = Some v \<Longrightarrow> length v = 16"
  by (auto simp: To16_def IPv4_def split: if_splits)

lemma To4_IPv4 [simp]: "To4 (IPv4 a b c d) = Some [a, b, c, d]"
  by (simp add: To4_def IPv4_def)

lemma length4: "length xs = 4 \<Longrightarrow> xs = [xs ! 0, xs ! 1, xs ! 2, xs ! 3]"
  by (auto simp: list_eq_iff_nth_eq less_Suc_eq numeral_eq_Suc)

text \<open>An IPv4 address and its mapped form denote the same address.\<close>

lemma To4_To16: "To4 ip = Some v \<Longrightarrow> To16 ip = Some (v4InV6Prefix @ v)"
proof (cases "length ip = 4")
  case True
  then show "To4 ip = Some v \<Longrightarrow> ?thesis"
    using length4 [of ip] by (auto simp: To4_def To16_def IPv4_def)
next
  case False
  then show "To4 ip = Some v \<Longrightarrow> ?thesis"
    by (auto simp: To4_def To16_def split: if_splits) (metis append_take_drop_id)
qed

section \<open>Big-endian words\<close>

definition be_Uint32 :: "bytes \<Rightarrow> u32" where
  "be_Uint32 b = ucast (b ! 3) OR push_bit 8 (ucast (b ! 2)) OR push_bit 16 (ucast (b ! 1)) OR
     push_bit 24 (ucast (b ! 0))"

definition be_PutUint32 :: "u32 \<Rightarrow> bytes" where
  "be_PutUint32 v = [ucast (drop_bit 24 v), ucast (drop_bit 16 v), ucast (drop_bit 8 v), ucast v]"

lemma be_round_trip: "be_Uint32 (be_PutUint32 v) = v"
proof (rule bit_word_eqI)
  fix n
  assume "n < LENGTH(32)"
  then consider "n < 8" | "8 \<le> n" "n < 16" | "16 \<le> n" "n < 24" | "24 \<le> n" "n < 32" by fastforce
  then show "bit (be_Uint32 (be_PutUint32 v)) n \<longleftrightarrow> bit v n"
    by cases (auto simp: be_Uint32_def be_PutUint32_def bit_simps)
qed

lemma be_Put_Uint32: "length b = 4 \<Longrightarrow> be_PutUint32 (be_Uint32 b) = b"
proof -
  assume b: "length b = 4"
  have bits: "\<not> bit (w :: u8) n" if "8 \<le> n" for w n
    using that by (auto dest: bit_imp_le_length)
  have "be_PutUint32 (be_Uint32 b) = [b ! 0, b ! 1, b ! 2, b ! 3]"
    by (auto simp: be_Uint32_def be_PutUint32_def bit_eq_iff bit_simps bits)
  with length4 [OF b] show ?thesis by simp
qed

section \<open>Masks\<close>

text \<open>\<^verbatim>\<open>net.CIDRMask(ones, bits)\<close> for \<^verbatim>\<open>bits\<close> 32 or 128 and \<open>ones \<le> bits\<close>.\<close>

definition mask_byte :: "nat \<Rightarrow> u8" where
  "mask_byte n = (if n \<ge> 8 then 255 else NOT (drop_bit n 255))"

definition CIDRMask :: "nat \<Rightarrow> nat \<Rightarrow> bytes" where
  "CIDRMask ones bits = map (\<lambda>i. mask_byte (ones - 8 * i)) [0..<bits div 8]"

lemma length_CIDRMask [simp]: "length (CIDRMask ones bits) = bits div 8"
  by (simp add: CIDRMask_def)

lemma CIDRMask_nth: "i < bits div 8 \<Longrightarrow> CIDRMask ones bits ! i = mask_byte (ones - 8 * i)"
  by (simp add: CIDRMask_def)

lemma bit_mask_byte: "bit (mask_byte n) j \<longleftrightarrow> j < 8 \<and> 8 \<le> j + n"
proof -
  define full where "full = (255 :: u8)"
  have "full = mask 8" by (simp add: full_def mask_eq_exp_minus_1)
  then have full: "bit full m \<longleftrightarrow> m < 8" for m by (auto simp: bit_mask_iff)
  show ?thesis
  proof (cases "8 \<le> n")
    case True
    then show ?thesis by (simp add: mask_byte_def full_def [symmetric] full)
  next
    case False
    then have "bit (mask_byte n) j \<longleftrightarrow> j < 8 \<and> \<not> bit full (n + j)"
      by (simp add: mask_byte_def full_def [symmetric] bit_not_iff bit_drop_bit_eq)
    then show ?thesis by (auto simp: full)
  qed
qed

section \<open>Printing\<close>

definition hex_digit :: "nat \<Rightarrow> char" where
  "hex_digit d = (if d < 10 then digit d else char_of (87 + d))"

fun hex :: "nat \<Rightarrow> string" where
  "hex n = (if n < 16 then [hex_digit n] else hex (n div 16) @ [hex_digit (n mod 16)])"

declare hex.simps [simp del]

definition v6_groups :: "IP \<Rightarrow> nat list" where
  "v6_groups ip = map (\<lambda>i. 256 * unat (ip ! (2 * i)) + unat (ip ! (2 * i + 1))) [0..<8]"

text \<open>The first longest run of at least two zero groups, as start and end; (255, 255) if none.\<close>

definition zero_run :: "nat list \<Rightarrow> nat \<times> nat" where
  "zero_run gs =
     foldl (\<lambda>(zs, ze) i.
        let l = length (takeWhile ((=) 0) (drop i gs))
        in if 2 \<le> l \<and> ze - zs < l then (i, i + l) else (zs, ze)) (255, 255) [0..<8]"

definition v6_string :: "nat list \<Rightarrow> string" where
  "v6_string gs =
     (case zero_run gs of (zs, ze) \<Rightarrow>
        if 8 \<le> zs then Join (map hex gs) CHR '':''
        else Join (map hex (take zs gs)) CHR '':'' @ ''::'' @ Join (map hex (drop ze gs)) CHR '':'')"

definition v4_string :: "IP \<Rightarrow> string" where
  "v4_string ip = Join (map (\<lambda>b. dec (unat b)) ip) CHR ''.''"

definition hex_bytes :: "bytes \<Rightarrow> string" where
  "hex_bytes b = concat (map (\<lambda>x. [hex_digit (unat x div 16), hex_digit (unat x mod 16)]) b)"

definition IP_String :: "IP \<Rightarrow> string" where
  "IP_String ip =
     (if ip = [] then ''<nil>''
      else case To4 ip of
        Some p \<Rightarrow> v4_string p
      | None \<Rightarrow> if length ip = 16 then v6_string (v6_groups ip) else ''?'' @ hex_bytes ip)"

lemma v4_string_inject:
  assumes "length a = 4" and "length b = 4"
  shows "v4_string a = v4_string b \<longleftrightarrow> a = b"
proof
  assume eq: "v4_string a = v4_string b"
  have dot: "CHR ''.'' \<notin> set (dec n)" for n by (rule dec_not_mem) (simp add: digit_val_def)
  have "Split (v4_string x) CHR ''.'' = map (\<lambda>b. dec (unat b)) x" if "length x = 4" for x
    unfolding v4_string_def using that dot by (intro Split_Join) auto
  then have "map (\<lambda>b. dec (unat b)) a = map (\<lambda>b. dec (unat b)) b" using eq assms by metis
  moreover have "inj (\<lambda>b :: u8. dec (unat b))" by (auto intro!: injI simp: dec_inject word_unat_eq_iff)
  ultimately show "a = b" by (simp add: inj_map_eq_map)
qed simp

section \<open>Parsing\<close>

text \<open>The fields of a dotted address; a leading zero, an empty field or a value above 255 fails.\<close>

definition parse_octet :: "string \<Rightarrow> u8 option" where
  "parse_octet s =
     (if s = [] \<or> (1 < length s \<and> hd s = CHR ''0'') then None
      else case undec 0 s of None \<Rightarrow> None
        | Some n \<Rightarrow> if 255 < n then None else Some (of_nat n))"

definition parse_v4 :: "string \<Rightarrow> bytes option" where
  "parse_v4 s =
     (let fs = map parse_octet (Split s CHR ''.'')
      in if length fs = 4 \<and> list_all (\<lambda>f. f \<noteq> None) fs then Some (map the fs) else None)"

definition hex_val :: "char \<Rightarrow> nat option" where
  "hex_val c =
     (let n = of_char c :: nat
      in if 48 \<le> n \<and> n \<le> 57 then Some (n - 48)
         else if 97 \<le> n \<and> n \<le> 102 then Some (n - 87)
         else if 65 \<le> n \<and> n \<le> 70 then Some (n - 55)
         else None)"

definition is_hex :: "char \<Rightarrow> bool" where
  "is_hex c \<longleftrightarrow> hex_val c \<noteq> None"

definition hex_number :: "string \<Rightarrow> nat" where
  "hex_number s = foldl (\<lambda>acc c. 16 * acc + the (hex_val c)) 0 s"

text \<open>
  One turn of the loop over the groups: the bytes parsed so far, the position of the ellipsis if
  one was seen, and the rest of the string. \<open>Inl\<close> ends the loop with an error or the result,
  \<open>Inr\<close> goes on.
\<close>

definition group_step ::
    "bytes \<Rightarrow> nat option \<Rightarrow> string \<Rightarrow> (bytes \<times> nat option) option + (bytes \<times> nat option \<times> string)" where
  "group_step ip ell s =
     (let ds = takeWhile is_hex s; rest = dropWhile is_hex s; acc = hex_number ds;
          ip' = ip @ [of_nat (acc div 256), of_nat acc]
      in if 4 < length ds \<or> ds = [] then Inl None
         else case rest of
           [] \<Rightarrow> Inl (Some (ip', ell))
         | c # rest' \<Rightarrow>
             if c = CHR ''.'' then
               (if (ell = None \<and> length ip \<noteq> 12) \<or> 16 < length ip + 4 then Inl None
                else Inl (map_option (\<lambda>v4. (ip @ v4, ell)) (parse_v4 s)))
             else if c \<noteq> CHR '':'' \<or> rest' = [] then Inl None
             else if hd rest' = CHR '':'' then
               (if ell \<noteq> None then Inl None
                else if tl rest' = [] then Inl (Some (ip', Some (length ip')))
                else Inr (ip', Some (length ip'), tl rest'))
             else Inr (ip', ell, rest'))"

lemma group_step_more:
  "group_step ip ell s = Inr (ip', ell', s') \<Longrightarrow>
   length ip' = length ip + 2 \<and> (ell' = ell \<or> ell' = Some (length ip'))"
  by (auto simp: group_step_def Let_def split: if_splits list.splits)

lemma group_step_done:
  "group_step ip ell s = Inl (Some (ip', ell')) \<Longrightarrow>
   length ip \<le> length ip' \<and> (ell' = ell \<or> ell' = Some (length ip'))"
  by (auto simp: group_step_def Let_def split: if_splits list.splits)

function parse_groups :: "bytes \<Rightarrow> nat option \<Rightarrow> string \<Rightarrow> (bytes \<times> nat option) option" where
  "parse_groups ip ell s =
     (if 16 \<le> length ip then (if s = [] then Some (ip, ell) else None)
      else case group_step ip ell s of
        Inl r \<Rightarrow> r
      | Inr (ip', ell', s') \<Rightarrow> parse_groups ip' ell' s')"
  by pat_completeness auto
termination
  by (relation "measure (\<lambda>(ip, ell, s). 16 - length ip)") (auto dest!: group_step_more)

declare parse_groups.simps [simp del]

definition parse_v6 :: "string \<Rightarrow> bytes option" where
  "parse_v6 s =
     (let expand = (\<lambda>(ip, ell).
            case ell of
              None \<Rightarrow> if length ip = 16 then Some ip else None
            | Some e \<Rightarrow> if length ip < 16
                        then Some (take e ip @ replicate (16 - length ip) 0 @ drop e ip) else None)
      in if HasPrefix s ''::''
         then (if s = ''::'' then Some (replicate 16 0)
               else Option.bind (parse_groups [] (Some 0) (drop 2 s)) expand)
         else Option.bind (parse_groups [] None s) expand)"

text \<open>An address with a zone is refused, so a percent sign anywhere fails.\<close>

definition ParseIP :: "string \<Rightarrow> IP option" where
  "ParseIP s =
     (case find (\<lambda>c. c = CHR ''.'' \<or> c = CHR '':'' \<or> c = CHR ''%'') s of
        None \<Rightarrow> None
      | Some c \<Rightarrow>
          if c = CHR ''.'' then map_option (\<lambda>v. v4InV6Prefix @ v) (parse_v4 s)
          else if c = CHR '':'' \<and> CHR ''%'' \<notin> set s then parse_v6 s
          else None)"

lemma parse_v4_length: "parse_v4 s = Some v \<Longrightarrow> length v = 4"
  by (auto simp: parse_v4_def Let_def split: if_splits)

lemma parse_groups_ellipsis:
  "parse_groups ip ell s = Some (ip', ell') \<Longrightarrow> list_all (\<lambda>e. e \<le> length ip) (case ell of None \<Rightarrow> [] | Some e \<Rightarrow> [e]) \<Longrightarrow>
   ell' = Some e \<Longrightarrow> e \<le> length ip'"
proof (induction ip ell s rule: parse_groups.induct)
  case (1 ip ell s)
  show ?case
  proof (cases "16 \<le> length ip")
    case True
    with "1.prems" show ?thesis by (simp add: parse_groups.simps [of ip] split: if_splits)
  next
    case False
    then show ?thesis
    proof (cases "group_step ip ell s")
      case (Inl r)
      with False "1.prems" have "r = Some (ip', ell')" by (simp add: parse_groups.simps [of ip])
      with Inl "1.prems" group_step_done [of ip ell s ip' ell'] show ?thesis by auto
    next
      case (Inr t)
      obtain a b c where t: "t = (a, b, c)" by (cases t)
      with Inr group_step_more [of ip ell s a b c] "1.prems"(2)
      have "list_all (\<lambda>e. e \<le> length a) (case b of None \<Rightarrow> [] | Some e \<Rightarrow> [e])"
        by (auto split: option.splits)
      with 1 False Inr t show ?thesis by (simp add: parse_groups.simps [of ip])
    qed
  qed
qed

lemma ParseIP_length: "ParseIP s = Some ip \<Longrightarrow> length ip = 16"
  using parse_groups_ellipsis [of "[]" "Some 0" "drop 2 s"] parse_groups_ellipsis [of "[]" None s]
  by (fastforce simp: ParseIP_def parse_v6_def Let_def Option.bind_eq_Some_conv
      split: option.splits if_splits dest: parse_v4_length)

section \<open>Host and port\<close>

text \<open>\<^verbatim>\<open>net.SplitHostPort\<close>; \<open>None\<close> is its error.\<close>

definition SplitHostPort :: "string \<Rightarrow> (string \<times> string) option" where
  "SplitHostPort hostport =
     (case LastIndex hostport CHR '':'' of
        None \<Rightarrow> None
      | Some i \<Rightarrow>
          let port = drop (i + 1) hostport
          in if hd hostport = CHR ''['' then
               (let end = length (takeWhile (\<lambda>c. c \<noteq> CHR '']'') hostport)
                in if CHR '']'' \<notin> set hostport \<or> end + 1 \<noteq> i then None
                   else if CHR ''['' \<in> set (drop 1 hostport) \<or> CHR '']'' \<in> set (drop (end + 1) hostport)
                   then None
                   else Some (drop 1 (take end hostport), port))
             else let host = take i hostport
                  in if CHR '':'' \<in> set host \<or> CHR ''['' \<in> set hostport \<or> CHR '']'' \<in> set hostport
                     then None else Some (host, port))"

end
