(* ===== verification/Auth_Tokens.thy ===== *)
theory Auth_Tokens
  imports Net_IP Sip_Hash
begin

text \<open>
  \<^verbatim>\<open>pkg/auth/auth.go\<close>: message signatures with a shared secret, the list of admitted nodes and
  tokens with an expiry. HMAC-SHA256 is an argument, and so is the printing of an instant in the
  format of RFC 3339, of which \<open>rfc3339_laws\<close> states the second resolution. Locks are left out: each
  method is one step.
\<close>

section \<open>Signatures\<close>

datatype auth_error = ErrInvalidHMAC | ErrNotAllowlisted | ErrTokenExpired

record auth_env =
  au_HMAC :: "bytes \<Rightarrow> bytes \<Rightarrow> bytes"
  au_Format :: "time \<Rightarrow> string"

record HMACValidator =
  hv_secret :: bytes

definition NewHMACValidator :: "string \<Rightarrow> HMACValidator" where
  "NewHMACValidator secret = \<lparr>hv_secret = bytes_of_string secret\<rparr>"

definition hmac_Sign :: "auth_env \<Rightarrow> HMACValidator \<Rightarrow> bytes \<Rightarrow> string" where
  "hmac_Sign env v message = hex_bytes (au_HMAC env (hv_secret v) message)"

definition hmac_Verify :: "auth_env \<Rightarrow> HMACValidator \<Rightarrow> bytes \<Rightarrow> string \<Rightarrow> auth_error option" where
  "hmac_Verify env v message signature =
     (let expected = hmac_Sign env v message
      in if bytes_of_string expected \<noteq> bytes_of_string signature then Some ErrInvalidHMAC else None)"

section \<open>The allowlist\<close>

record Allowlist =
  al_allowed :: "(string, bool) gomap"

definition NewAllowlist :: "string list \<Rightarrow> Allowlist" where
  "NewAllowlist ids = \<lparr>al_allowed = foldl (\<lambda>m i. go_set m (TrimSpace i) True) [] ids\<rparr>"

definition allow_Add :: "Allowlist \<Rightarrow> string \<Rightarrow> Allowlist" where
  "allow_Add al i = al\<lparr>al_allowed := go_set (al_allowed al) i True\<rparr>"

definition allow_Remove :: "Allowlist \<Rightarrow> string \<Rightarrow> Allowlist" where
  "allow_Remove al i = al\<lparr>al_allowed := go_delete (al_allowed al) i\<rparr>"

definition allow_Check :: "Allowlist \<Rightarrow> string \<Rightarrow> auth_error option" where
  "allow_Check al i = (if \<not> go_get False (al_allowed al) i then Some ErrNotAllowlisted else None)"

definition allow_List :: "Allowlist \<Rightarrow> string list" where
  "allow_List al = foldl (\<lambda>list (i, _). list @ [i]) [] (al_allowed al)"

section \<open>Tokens\<close>

record Token =
  tk_Payload :: string
  tk_IssuedAt :: time
  tk_ExpiresAt :: time
  tk_Signature :: string

record TokenManager =
  tm_validator :: HMACValidator
  tm_ttl :: duration

definition NewTokenManager :: "string \<Rightarrow> duration \<Rightarrow> TokenManager" where
  "NewTokenManager secret t = \<lparr>tm_validator = NewHMACValidator secret, tm_ttl = t\<rparr>"

definition token_message :: "auth_env \<Rightarrow> Token \<Rightarrow> string" where
  "token_message env tok =
     tk_Payload tok @ ''|'' @ au_Format env (tk_IssuedAt tok) @ ''|'' @ au_Format env (tk_ExpiresAt tok)"

definition Issue :: "auth_env \<Rightarrow> time \<Rightarrow> TokenManager \<Rightarrow> string \<Rightarrow> Token" where
  "Issue env now tm payload =
     (let tok = \<lparr>tk_Payload = payload, tk_IssuedAt = now, tk_ExpiresAt = now + tm_ttl tm, tk_Signature = []\<rparr>;
          message = token_message env tok
      in tok\<lparr>tk_Signature := hmac_Sign env (tm_validator tm) (bytes_of_string message)\<rparr>)"

definition Validate :: "auth_env \<Rightarrow> time \<Rightarrow> TokenManager \<Rightarrow> Token \<Rightarrow> auth_error option" where
  "Validate env now tm tok =
     (if now > tk_ExpiresAt tok then Some ErrTokenExpired
      else hmac_Verify env (tm_validator tm) (bytes_of_string (token_message env tok)) (tk_Signature tok))"

section \<open>The interface of a set\<close>

text \<open>What the users of an allowlist rely on, and what follows for any sequence of changes.\<close>

datatype allow_op = AddID string | RemoveID string

fun spec_step :: "string set \<Rightarrow> allow_op \<Rightarrow> string set" where
  "spec_step S (AddID i) = insert i S"
| "spec_step S (RemoveID i) = S - {i}"

locale id_set =
  fixes wf :: "'a \<Rightarrow> bool" and members :: "'a \<Rightarrow> string set"
    and add :: "'a \<Rightarrow> string \<Rightarrow> 'a" and remove :: "'a \<Rightarrow> string \<Rightarrow> 'a"
  assumes add_wf: "wf a \<Longrightarrow> wf (add a i)" and remove_wf: "wf a \<Longrightarrow> wf (remove a i)"
    and members_add: "wf a \<Longrightarrow> members (add a i) = insert i (members a)"
    and members_remove: "wf a \<Longrightarrow> members (remove a i) = members a - {i}"
begin

fun op_step :: "'a \<Rightarrow> allow_op \<Rightarrow> 'a" where
  "op_step a (AddID i) = add a i"
| "op_step a (RemoveID i) = remove a i"

lemma run_refines:
  assumes "wf a"
  shows "wf (foldl op_step a es) \<and> members (foldl op_step a es) = foldl spec_step (members a) es"
  using assms
proof (induction es arbitrary: a)
  case (Cons e es)
  have "wf (op_step a e)" "members (op_step a e) = spec_step (members a) e"
    using Cons.prems by (cases e; simp add: add_wf remove_wf members_add members_remove)+
  with Cons.IH [of "op_step a e"] show ?case by simp
qed simp

end

text \<open>Every key of the map is mapped to true.\<close>

definition allow_wf :: "Allowlist \<Rightarrow> bool" where
  "allow_wf al \<longleftrightarrow> go_wf (al_allowed al) \<and> (\<forall>i. map_of (al_allowed al) i \<noteq> Some False)"

definition admitted :: "Allowlist \<Rightarrow> string set" where
  "admitted al = dom (map_of (al_allowed al))"

interpretation allow: id_set allow_wf admitted allow_Add allow_Remove
  by unfold_locales
    (auto simp: allow_wf_def admitted_def allow_Add_def allow_Remove_def simp del: map_of_eq_Some_iff)

fun allow_step :: "Allowlist \<Rightarrow> allow_op \<Rightarrow> Allowlist" where
  "allow_step al (AddID i) = allow_Add al i"
| "allow_step al (RemoveID i) = allow_Remove al i"

lemma allow_step_eq: "allow_step = allow.op_step"
proof (intro ext)
  show "allow_step al e = allow.op_step al e" for al e by (cases e) simp_all
qed

lemma Check_admitted: "allow_wf al \<Longrightarrow> allow_Check al i = None \<longleftrightarrow> i \<in> admitted al"
  by (auto simp: allow_Check_def allow_wf_def admitted_def go_get_def simp del: map_of_eq_Some_iff split: option.split)

lemma List_keys: "allow_List al = map fst (al_allowed al)"
proof -
  have "foldl (\<lambda>list (i, _). list @ [i]) acc m = acc @ map fst m" for acc :: "string list" and m :: "(string, bool) gomap"
    by (induction m arbitrary: acc) auto
  then show ?thesis by (simp add: allow_List_def)
qed

lemma NewAllowlist_run: "NewAllowlist ids = foldl allow.op_step \<lparr>al_allowed = []\<rparr> (map (AddID \<circ> TrimSpace) ids)"
proof -
  have "\<lparr>al_allowed = foldl (\<lambda>m i. go_set m (TrimSpace i) True) m ids\<rparr> =
      foldl allow.op_step \<lparr>al_allowed = m\<rparr> (map (AddID \<circ> TrimSpace) ids)" for m
    by (induction ids arbitrary: m) (simp_all add: allow_Add_def)
  then show ?thesis by (simp add: NewAllowlist_def)
qed

lemma spec_adds: "foldl spec_step S (map (AddID \<circ> f) ids) = S \<union> f ` set ids"
  by (induction ids arbitrary: S) auto

lemma NewAllowlist_facts: "allow_wf (NewAllowlist ids)" "admitted (NewAllowlist ids) = TrimSpace ` set ids"
  using allow.run_refines [of "\<lparr>al_allowed = []\<rparr>" "map (AddID \<circ> TrimSpace) ids"]
  by (simp_all add: NewAllowlist_run spec_adds) (simp_all add: allow_wf_def admitted_def)

section \<open>Messages of tokens\<close>

definition rfc3339_laws :: "(time \<Rightarrow> string) \<Rightarrow> bool" where
  "rfc3339_laws fmt \<longleftrightarrow>
     (\<forall>t. CHR ''|'' \<notin> set (fmt t)) \<and> (\<forall>t u. fmt t = fmt u \<longleftrightarrow> t div second = u div second)"

lemma last_field:
  assumes "CHR ''|'' \<notin> set a" and "CHR ''|'' \<notin> set b" and "x @ CHR ''|'' # a = y @ CHR ''|'' # b"
  shows "x = y \<and> a = b"
proof -
  have "rev a @ CHR ''|'' # rev x = rev b @ CHR ''|'' # rev y" using arg_cong [OF assms(3), of rev] by simp
  moreover have "rev a = takeWhile (\<lambda>c. c \<noteq> CHR ''|'') (rev a @ CHR ''|'' # rev x)"
    "rev b = takeWhile (\<lambda>c. c \<noteq> CHR ''|'') (rev b @ CHR ''|'' # rev y)"
    using assms(1,2) by (auto simp: takeWhile_append)
  ultimately show ?thesis by simp
qed

lemma token_message_eq:
  assumes "rfc3339_laws (au_Format env)"
  shows "token_message env t = token_message env u \<longleftrightarrow> tk_Payload t = tk_Payload u
    \<and> tk_IssuedAt t div second = tk_IssuedAt u div second \<and> tk_ExpiresAt t div second = tk_ExpiresAt u div second"
proof
  have bar: "CHR ''|'' \<notin> set (au_Format env x)" for x using assms by (simp add: rfc3339_laws_def)
  assume "token_message env t = token_message env u"
  then have eq: "(tk_Payload t @ ''|'' @ au_Format env (tk_IssuedAt t)) @ CHR ''|'' # au_Format env (tk_ExpiresAt t)
      = (tk_Payload u @ ''|'' @ au_Format env (tk_IssuedAt u)) @ CHR ''|'' # au_Format env (tk_ExpiresAt u)"
    by (simp add: token_message_def)
  from last_field [OF bar bar eq] have "tk_Payload t @ CHR ''|'' # au_Format env (tk_IssuedAt t)
      = tk_Payload u @ CHR ''|'' # au_Format env (tk_IssuedAt u)" and "au_Format env (tk_ExpiresAt t) = au_Format env (tk_ExpiresAt u)"
    by simp_all
  with last_field [OF bar bar this(1)] assms
  show "tk_Payload t = tk_Payload u \<and> tk_IssuedAt t div second = tk_IssuedAt u div second
    \<and> tk_ExpiresAt t div second = tk_ExpiresAt u div second"
    by (simp add: rfc3339_laws_def)
next
  assume "tk_Payload t = tk_Payload u \<and> tk_IssuedAt t div second = tk_IssuedAt u div second
    \<and> tk_ExpiresAt t div second = tk_ExpiresAt u div second"
  moreover from this have "au_Format env (tk_IssuedAt t) = au_Format env (tk_IssuedAt u)"
    "au_Format env (tk_ExpiresAt t) = au_Format env (tk_ExpiresAt u)"
    using assms unfolding rfc3339_laws_def by blast+
  ultimately show "token_message env t = token_message env u" by (simp add: token_message_def)
qed

lemma hex_digit_inj: "x < 16 \<Longrightarrow> y < 16 \<Longrightarrow> hex_digit x = hex_digit y \<longleftrightarrow> x = y"
  by (auto simp: hex_digit_def digit_def dest!: arg_cong [of _ _ "of_char :: char \<Rightarrow> nat"] split: if_splits)

lemma hex_bytes_inject: "hex_bytes a = hex_bytes b \<longleftrightarrow> a = b"
proof (induction a arbitrary: b)
  case Nil
  then show ?case by (cases b) (simp_all add: hex_bytes_def)
next
  case (Cons x a)
  show ?case
  proof (cases b)
    case (Cons y b')
    have "unat z div 16 < 16" "unat z mod 16 < 16" for z :: u8
      using unsigned_less [of z] by (simp_all add: div_less_iff_less_mult)
    then have "hex_bytes (x # a) = hex_bytes (y # b') \<longleftrightarrow>
        unat x div 16 = unat y div 16 \<and> unat x mod 16 = unat y mod 16 \<and> hex_bytes a = hex_bytes b'"
      by (simp add: hex_bytes_def hex_digit_inj)
    also have "\<dots> \<longleftrightarrow> x = y \<and> a = b'"
      using Cons.IH [of b'] by (metis div_mult_mod_eq word_unat_eq_iff)
    finally show ?thesis using Cons by simp
  qed (simp add: hex_bytes_def)
qed

section \<open>Properties\<close>

text \<open>
  An allowlist is a set of identifiers: after any sequence of additions and removals a check
  passes exactly for the identifiers that the sequence leaves in the set, which starts as the trimmed
  initial ones, and the listing has each of them once.
\<close>

theorem allowlist_is_set:
  "let al = foldl allow_step (NewAllowlist ids) es;
       S = foldl spec_step (TrimSpace ` set ids) es
   in (\<forall>i. allow_Check al i = (if i \<in> S then None else Some ErrNotAllowlisted))
     \<and> set (allow_List al) = S \<and> distinct (allow_List al)"
proof -
  let ?al = "foldl allow_step (NewAllowlist ids) es"
  have wf: "allow_wf ?al" and adm: "admitted ?al = foldl spec_step (TrimSpace ` set ids) es"
    using allow.run_refines [OF NewAllowlist_facts(1), of ids es] by (simp_all add: allow_step_eq NewAllowlist_facts(2))
  have "allow_Check ?al i = (if i \<in> admitted ?al then None else Some ErrNotAllowlisted)" for i
    using Check_admitted [OF wf, of i] by (auto simp: allow_Check_def split: if_splits)
  moreover have "set (allow_List ?al) = admitted ?al" "distinct (allow_List ?al)"
    using wf by (simp_all add: List_keys admitted_def allow_wf_def dom_map_of_conv_image_fst)
  ultimately show ?thesis by (simp add: adm)
qed

text \<open>
  A token is good for its lifetime: a token a manager issued is accepted by every manager with the
  same secret until its expiry, and refused as expired after it.
\<close>

theorem token_lifetime:
  "Validate env now' (NewTokenManager secret t') (Issue env now (NewTokenManager secret t) payload) =
     (if now' \<le> now + t then None else Some ErrTokenExpired)"
  by (simp add: Validate_def Issue_def NewTokenManager_def hmac_Verify_def Let_def token_message_def)

text \<open>
  A token's signature is bound to its payload and its times, to the second. When a token is
  accepted that carries the signature of an issued one, then it has the same payload and, in whole
  seconds, the same times, or else two different messages have the same HMAC.
\<close>

theorem token_binding:
  assumes "rfc3339_laws (au_Format env)" and "tok = Issue env now tm payload"
    and "Validate env now' tm tok' = None" and "tk_Signature tok' = tk_Signature tok"
  shows "(tk_Payload tok' = payload \<and> tk_IssuedAt tok' div second = now div second
      \<and> tk_ExpiresAt tok' div second = (now + tm_ttl tm) div second)
    \<or> (\<exists>m m'. m \<noteq> m' \<and> au_HMAC env (hv_secret (tm_validator tm)) m = au_HMAC env (hv_secret (tm_validator tm)) m')"
proof (cases "token_message env tok' = token_message env tok")
  case True
  then show ?thesis by (simp add: token_message_eq [OF assms(1)] assms(2) Issue_def Let_def)
next
  case False
  have "token_message env (tok\<lparr>tk_Signature := s\<rparr>) = token_message env tok" for s by (simp add: token_message_def)
  then have "tk_Signature tok = hmac_Sign env (tm_validator tm) (bytes_of_string (token_message env tok))"
    by (simp add: assms(2) Issue_def Let_def token_message_def)
  moreover have "tk_Signature tok' = hmac_Sign env (tm_validator tm) (bytes_of_string (token_message env tok'))"
    using assms(3) by (simp add: Validate_def hmac_Verify_def Let_def split: if_splits)
  ultimately have "au_HMAC env (hv_secret (tm_validator tm)) (bytes_of_string (token_message env tok')) =
      au_HMAC env (hv_secret (tm_validator tm)) (bytes_of_string (token_message env tok))"
    using assms(4) by (simp add: hmac_Sign_def hex_bytes_inject)
  with False show ?thesis by (metis bytes_of_string_inject)
qed

definition demo_auth :: auth_env where
  "demo_auth = \<lparr>au_HMAC = (\<lambda>k m. k @ m),
     au_Format = (\<lambda>t. let n = t div second in if n < 0 then CHR ''-'' # dec (nat (- n)) else dec (nat n))\<rparr>"

lemma demo_auth_laws: "rfc3339_laws (au_Format demo_auth)"
proof -
  have bar: "CHR ''|'' \<notin> set (dec n)" for n by (rule dec_not_mem) (simp add: digit_val_def)
  have minus: "dec n \<noteq> CHR ''-'' # s" "CHR ''-'' # s \<noteq> dec n" for n s
    using dec_head_not_sign [of n "CHR ''-''" s] by auto
  have fmt: "au_Format demo_auth t = (let n = t div second in if n < 0 then CHR ''-'' # dec (nat (- n)) else dec (nat n))" for t
    by (simp add: demo_auth_def)
  have "CHR ''|'' \<notin> set (au_Format demo_auth t)" for t by (simp add: fmt Let_def bar)
  moreover have "au_Format demo_auth t = au_Format demo_auth u \<longleftrightarrow> t div second = u div second" for t u
    unfolding fmt by (auto simp: Let_def minus)
  ultimately show ?thesis by (simp add: rfc3339_laws_def)
qed

theorem token_binding_witness:
  "(tk_Payload (Issue demo_auth 5 (NewTokenManager ''k'' 10) ''p'') = ''p'')
   \<or> (\<exists>m m'. m \<noteq> m' \<and> au_HMAC demo_auth (hv_secret (tm_validator (NewTokenManager ''k'' 10))) m =
        au_HMAC demo_auth (hv_secret (tm_validator (NewTokenManager ''k'' 10))) m')"
  using token_binding [OF demo_auth_laws refl, of 7 "NewTokenManager ''k'' 10" "Issue demo_auth 5 (NewTokenManager ''k'' 10) ''p''" 5 "''p''"]
  by (simp add: Validate_def Issue_def hmac_Verify_def Let_def token_message_def)

text \<open>
  The expiry is not bound more closely than that: moving the expiry of an issued token to a later
  instant of the same second gives a token that is accepted until then.
\<close>

theorem token_expiry_slack:
  assumes "rfc3339_laws (au_Format env)" and "tok = Issue env now tm payload"
    and "later div second = tk_ExpiresAt tok div second"
  shows "Validate env now' tm (tok\<lparr>tk_ExpiresAt := later\<rparr>) = (if now' \<le> later then None else Some ErrTokenExpired)"
proof -
  have "token_message env (tok\<lparr>tk_ExpiresAt := later\<rparr>) = token_message env tok"
    using assms(3) by (simp add: token_message_eq [OF assms(1)])
  moreover have "tk_Signature tok = hmac_Sign env (tm_validator tm) (bytes_of_string (token_message env tok))"
    by (simp add: assms(2) Issue_def Let_def token_message_def)
  ultimately show ?thesis by (simp add: Validate_def hmac_Verify_def)
qed

theorem token_expiry_slack_witness:
  "Validate demo_auth (second - 1) (NewTokenManager ''k'' 10)
     ((Issue demo_auth 0 (NewTokenManager ''k'' 10) ''p'')\<lparr>tk_ExpiresAt := second - 1\<rparr>) = None
   \<and> Validate demo_auth (second - 1) (NewTokenManager ''k'' 10) (Issue demo_auth 0 (NewTokenManager ''k'' 10) ''p'')
     = Some ErrTokenExpired"
  using token_expiry_slack [OF demo_auth_laws refl, of "second - 1" 0 "NewTokenManager ''k'' 10" "''p''" "second - 1"]
  by (simp add: Issue_def NewTokenManager_def second_def Validate_def Let_def)

end
