(* ===== verification/Lww_Map.thy ===== *)
theory Lww_Map
  imports Mesh_Prelude
begin

text \<open>
  The last-writer-wins map of \<^verbatim>\<open>pkg/crdt/lwwmap.go\<close>: clocks, entries with tombstones, and the
  operations of \<^verbatim>\<open>LWWMap\<close>. The clock order is a linear order; on the entries of one history (an
  entry is determined by its key and its clock) merging is a join, so replicas converge whatever
  the order of exchanges. Where two writers use the same clock for different values it is not,
  and the last theorem shows the replicas that never agree.
\<close>

section \<open>Clocks\<close>

text \<open>\<^verbatim>\<open>type Clock struct\<close>: a Lamport counter and wall time in nanoseconds.\<close>

datatype Clock = Clock (Lamport: u64) (Nano: int)

definition dominates :: "Clock \<Rightarrow> Clock \<Rightarrow> bool" where
  "dominates lhs rhs =
     (if Lamport lhs > Lamport rhs then True
      else if Lamport lhs < Lamport rhs then False
      else Nano lhs \<ge> Nano rhs)"

text \<open>The clocks are linearly ordered, and \<^verbatim>\<open>dominates\<close> is the converse of that order.\<close>

instantiation Clock :: linorder
begin

definition less_eq_Clock :: "Clock \<Rightarrow> Clock \<Rightarrow> bool" where
  "c \<le> d \<longleftrightarrow> Lamport c < Lamport d \<or> Lamport c = Lamport d \<and> Nano c \<le> Nano d"

definition less_Clock :: "Clock \<Rightarrow> Clock \<Rightarrow> bool" where
  "c < d \<longleftrightarrow> Lamport c < Lamport d \<or> Lamport c = Lamport d \<and> Nano c < Nano d"

instance
proof
  fix c d e :: Clock
  show "(c < d) = (c \<le> d \<and> \<not> d \<le> c)"
    by (auto simp: less_eq_Clock_def less_Clock_def)
  show "c \<le> c"
    by (simp add: less_eq_Clock_def)
  show "c \<le> d \<Longrightarrow> d \<le> e \<Longrightarrow> c \<le> e"
    by (auto simp: less_eq_Clock_def)
  show "c \<le> d \<Longrightarrow> d \<le> c \<Longrightarrow> c = d"
    by (cases c; cases d) (auto simp: less_eq_Clock_def)
  show "c \<le> d \<or> d \<le> c"
    by (auto simp: less_eq_Clock_def)
qed

end

lemma dominates_iff [simp]: "dominates lhs rhs \<longleftrightarrow> rhs \<le> lhs"
  by (auto simp: dominates_def less_eq_Clock_def)

section \<open>The map\<close>

text \<open>\<^verbatim>\<open>type Entry[V any] struct\<close>.\<close>

record 'v Entry =
  Value :: 'v
  Clk :: Clock
  Tombstone :: bool

type_synonym ('k, 'v) lww = "('k, 'v Entry) gomap"

definition NewLWWMap :: "('k, 'v) lww" where
  "NewLWWMap = []"

definition lww_Upsert :: "('k, 'v) lww \<Rightarrow> 'k \<Rightarrow> 'v \<Rightarrow> Clock \<Rightarrow> ('k, 'v) lww \<times> bool" where
  "lww_Upsert m key value clock =
     (let write = go_set m key \<lparr>Value = value, Clk = clock, Tombstone = False\<rparr>
      in case map_of m key of
           None \<Rightarrow> (write, True)
         | Some entry \<Rightarrow> if dominates clock (Clk entry) then (write, True) else (m, False))"

text \<open>A tombstone carries the zero value of the value type, here an argument.\<close>

definition lww_Delete :: "'v \<Rightarrow> ('k, 'v) lww \<Rightarrow> 'k \<Rightarrow> Clock \<Rightarrow> ('k, 'v) lww \<times> bool" where
  "lww_Delete zero m key clock =
     (let write = go_set m key \<lparr>Value = zero, Clk = clock, Tombstone = True\<rparr>
      in case map_of m key of
           None \<Rightarrow> (write, True)
         | Some entry \<Rightarrow> if dominates clock (Clk entry) then (write, True) else (m, False))"

definition lww_Get :: "('k, 'v) lww \<Rightarrow> 'k \<Rightarrow> 'v option" where
  "lww_Get m key =
     (case map_of m key of
        None \<Rightarrow> None
      | Some entry \<Rightarrow> if Tombstone entry then None else Some (Value entry))"

text \<open>The copying loop of \<^verbatim>\<open>Snapshot\<close>.\<close>

definition lww_Snapshot :: "('k, 'v) lww \<Rightarrow> ('k, 'v Entry) gomap" where
  "lww_Snapshot m = go_copy m"

fun lww_merge_loop ::
    "('k, 'v) lww \<Rightarrow> bool \<Rightarrow> ('k, 'v Entry) gomap \<Rightarrow> ('k, 'v) lww \<times> bool" where
  "lww_merge_loop m changed [] = (m, changed)"
| "lww_merge_loop m changed ((key, incoming) # entries) =
     (case map_of m key of
        None \<Rightarrow> lww_merge_loop (go_set m key incoming) True entries
      | Some current \<Rightarrow>
          if dominates (Clk incoming) (Clk current)
          then lww_merge_loop (go_set m key incoming) True entries
          else lww_merge_loop m changed entries)"

definition lww_Merge :: "('k, 'v) lww \<Rightarrow> ('k, 'v Entry) gomap \<Rightarrow> ('k, 'v) lww \<times> bool" where
  "lww_Merge m entries = lww_merge_loop m False entries"

text \<open>\<^verbatim>\<open>Cleanup\<close> at the instant \<open>now\<close>: the remaining map and the number of removed entries.\<close>

definition lww_Cleanup :: "time \<Rightarrow> ('k, 'v) lww \<Rightarrow> duration \<Rightarrow> ('k, 'v) lww \<times> nat" where
  "lww_Cleanup now m ttl =
     (if ttl \<le> 0 then (m, 0)
      else (let threshold = UnixNano (now - ttl);
                expired = (\<lambda>key entry. Tombstone entry \<and> Nano (Clk entry) \<le> threshold)
            in (range_delete expired m, length (filter (\<lambda>(k, e). expired k e) m))))"

definition lww_FilterBy :: "('k, 'v) lww \<Rightarrow> u64 \<Rightarrow> ('k, 'v Entry) gomap" where
  "lww_FilterBy m minLamport =
     foldl (\<lambda>out (k, entry). if Lamport (Clk entry) \<ge> minLamport then go_set out k entry else out)
       [] m"

section \<open>The abstract map and its join\<close>

text \<open>
  What one key holds after an incoming entry meets the current one: the incoming entry wins
  unless the current clock is strictly larger.
\<close>

definition pick :: "'v Entry option \<Rightarrow> 'v Entry option \<Rightarrow> 'v Entry option" where
  "pick cur inc =
     (case inc of None \<Rightarrow> cur
      | Some i \<Rightarrow> (case cur of None \<Rightarrow> Some i | Some c \<Rightarrow> if Clk c \<le> Clk i then Some i else Some c))"

definition lww_join :: "('k \<rightharpoonup> 'v Entry) \<Rightarrow> ('k \<rightharpoonup> 'v Entry) \<Rightarrow> ('k \<rightharpoonup> 'v Entry)" where
  "lww_join s t = (\<lambda>k. pick (s k) (t k))"

lemma pick_None [simp]: "pick cur None = cur" "pick None inc = inc"
  by (auto simp: pick_def split: option.splits)

lemma pick_assoc: "pick (pick a b) c = pick a (pick b c)"
  by (auto simp: pick_def split: option.splits)

lemma pick_idem [simp]: "pick a a = a"
  by (auto simp: pick_def split: option.splits)

lemma pick_eq_None [simp]: "pick a b = None \<longleftrightarrow> a = None \<and> b = None"
  by (auto simp: pick_def split: option.splits)

lemma pick_clock: "map_option Clk (pick (Some a) (Some b)) = Some (max (Clk a) (Clk b))"
  by (auto simp: pick_def max_def)

lemma pick_cases: "pick a b = a \<or> pick a b = b"
  by (auto simp: pick_def split: option.splits)

text \<open>The loop of \<^verbatim>\<open>Merge\<close> computes the join, for every order of visiting the entries.\<close>

lemma lww_merge_loop_map:
  "go_wf es \<Longrightarrow> map_of (fst (lww_merge_loop m ch es)) = lww_join (map_of m) (map_of es)"
proof (induction m ch es rule: lww_merge_loop.induct)
  case (1 m changed)
  then show ?case by (simp add: lww_join_def)
next
  case (2 m changed key incoming es)
  from "2.prems" have "map_of es key = None" by (simp add: map_of_eq_None_iff)
  with 2 show ?case
    by (auto simp: lww_join_def pick_def fun_eq_iff split: option.splits)
qed

lemma lww_merge_loop_wf [go_map_simps]:
  "go_wf m \<Longrightarrow> go_wf (fst (lww_merge_loop m ch es))"
  by (induction m ch es rule: lww_merge_loop.induct) (auto split: option.splits)

text \<open>An incoming entry wins against the current state of its key.\<close>

definition wins :: "('k \<rightharpoonup> 'v Entry) \<Rightarrow> 'k \<Rightarrow> 'v Entry \<Rightarrow> bool" where
  "wins s k i = (case s k of None \<Rightarrow> True | Some c \<Rightarrow> Clk c \<le> Clk i)"

lemma lww_merge_loop_True: "snd (lww_merge_loop m True es)"
  by (induction m True es rule: lww_merge_loop.induct) (auto split: option.splits)

lemma wins_upd [simp]: "k' \<noteq> k \<Longrightarrow> wins (s(k \<mapsto> e)) k' i = wins s k' i"
  by (simp add: wins_def)

lemma lww_merge_loop_changed:
  "snd (lww_merge_loop m ch es) \<longleftrightarrow> ch \<or> (\<exists>(k, i) \<in> set es. wins (map_of m) k i)"
proof (induction m ch es rule: lww_merge_loop.induct)
  case (2 m changed key incoming es)
  show ?case
  proof (cases "wins (map_of m) key incoming")
    case True
    then show ?thesis by (auto simp: wins_def lww_merge_loop_True split: option.splits)
  next
    case False
    with 2 show ?thesis by (auto simp: wins_def split: option.splits)
  qed
qed simp

lemma lww_merge_loop_unchanged:
  "\<not> snd (lww_merge_loop m ch es) \<Longrightarrow> fst (lww_merge_loop m ch es) = m"
proof (induction m ch es rule: lww_merge_loop.induct)
  case (2 m changed key incoming es)
  then show ?case by (auto simp: lww_merge_loop_True split: option.splits if_splits)
qed simp

lemma set_go_set: "set (go_set m k v) \<subseteq> insert (k, v) (set m)"
  by (induction m) auto

lemma lww_merge_loop_set:
  "x \<in> set (fst (lww_merge_loop m ch es)) \<Longrightarrow> x \<in> set m \<or> x \<in> set es"
proof (induction m ch es rule: lww_merge_loop.induct)
  case (2 m changed key incoming es)
  have "x \<in> set (go_set m key incoming) \<Longrightarrow> x \<in> set m \<or> x = (key, incoming)"
    using set_go_set [of key incoming m] by auto
  with 2 show ?case by (auto split: option.splits if_splits)
qed simp

lemma Merge_set: "set (fst (lww_Merge m es)) \<subseteq> set m \<union> set es"
  by (auto simp: lww_Merge_def dest: lww_merge_loop_set)

lemma map_of_Merge: "go_wf es \<Longrightarrow> map_of (fst (lww_Merge m es)) = lww_join (map_of m) (map_of es)"
  by (simp add: lww_Merge_def lww_merge_loop_map)

lemma Merge_wf [wf_intros]: "go_wf m \<Longrightarrow> go_wf (fst (lww_Merge m es))"
  by (simp add: lww_Merge_def lww_merge_loop_wf)

lemma Merge_unchanged: "\<not> snd (lww_Merge m es) \<Longrightarrow> fst (lww_Merge m es) = m"
  by (simp add: lww_Merge_def lww_merge_loop_unchanged)

lemma Merge_changed: "snd (lww_Merge m es) \<longleftrightarrow> (\<exists>(k, i) \<in> set es. wins (map_of m) k i)"
  by (simp add: lww_Merge_def lww_merge_loop_changed)

lemma Upsert_Merge:
  "lww_Upsert m k v c = lww_Merge m [(k, \<lparr>Value = v, Clk = c, Tombstone = False\<rparr>)]"
  by (auto simp: lww_Upsert_def lww_Merge_def split: option.splits)

lemma Delete_Merge:
  "lww_Delete z m k c = lww_Merge m [(k, \<lparr>Value = z, Clk = c, Tombstone = True\<rparr>)]"
  by (auto simp: lww_Delete_def lww_Merge_def split: option.splits)

lemma Snapshot_eq [simp]: "go_wf m \<Longrightarrow> lww_Snapshot m = m"
  by (simp add: lww_Snapshot_def)

lemma foldl_go_set_filter:
  "foldl (\<lambda>out (k, v). if P v then go_set out k v else out) acc es =
   foldl (\<lambda>cp (k, v). go_set cp k v) acc (filter (\<lambda>(k, v). P v) es)"
  by (induction es arbitrary: acc) auto

lemma FilterBy_filter:
  "go_wf m \<Longrightarrow> lww_FilterBy m l = filter (\<lambda>(k, e). Lamport (Clk e) \<ge> l) m"
  using foldl_go_set [of "[]" "filter (\<lambda>(k, e). Lamport (Clk e) \<ge> l) m"]
  by (simp add: lww_FilterBy_def foldl_go_set_filter)

section \<open>State-based replicas\<close>

text \<open>
  The contract of a state-based replica: on the states of one history its merge is a join. The
  client is anti-entropy: states arrive in any order, some of them again and again.
\<close>

locale join_replica =
  fixes carrier :: "'s set"
    and join :: "'s \<Rightarrow> 's \<Rightarrow> 's"
  assumes closed: "s \<in> carrier \<Longrightarrow> t \<in> carrier \<Longrightarrow> join s t \<in> carrier"
    and assoc: "join (join s t) u = join s (join t u)"
    and comm: "s \<in> carrier \<Longrightarrow> t \<in> carrier \<Longrightarrow> join s t = join t s"
    and idem: "join s s = s"
begin

lemma deliver_closed: "s \<in> carrier \<Longrightarrow> set ts \<subseteq> carrier \<Longrightarrow> foldl join s ts \<in> carrier"
  by (induction ts arbitrary: s) (auto intro: closed)

lemma deliver_join: "join a (foldl join s ts) = foldl join (join a s) ts"
  by (induction ts arbitrary: s) (auto simp: assoc)

lemma deliver_absorbs:
  assumes "s \<in> carrier" and "set ts \<subseteq> carrier" and "t \<in> set (s # ts)"
  shows "join (foldl join s ts) t = foldl join s ts"
  using assms
proof (induction ts arbitrary: s)
  case Nil
  then show ?case by (simp add: idem)
next
  case (Cons u ts)
  show ?case
  proof (cases "t \<in> set (join s u # ts)")
    case True
    with Cons show ?thesis by (auto intro: closed)
  next
    case False
    with Cons.prems have t: "t = s \<or> t = u" by auto
    have absorb: "join (join s u) t = join s u"
      using t Cons.prems by (metis assoc comm idem insert_subset list.simps(15))
    have c: "join s u \<in> carrier" "t \<in> carrier" "foldl join (join s u) ts \<in> carrier"
      using Cons.prems t by (auto intro: closed deliver_closed)
    have "join (foldl join (join s u) ts) t = foldl join (join t (join s u)) ts"
      using c by (simp add: comm deliver_join)
    also have "join t (join s u) = join s u"
      using absorb c comm by metis
    finally show ?thesis by simp
  qed
qed

lemma deliver_absorbs_all:
  assumes "s \<in> carrier" and "set ts \<subseteq> carrier" and "set us \<subseteq> set (s # ts)"
  shows "foldl join (foldl join s ts) us = foldl join s ts"
  using assms(3)
  by (induction us) (simp_all add: deliver_absorbs [OF assms(1,2)])

lemma deliver_converges:
  assumes "s \<in> carrier" and "set ts \<subseteq> carrier" and "set (s # ts) = set (u # us)"
  shows "foldl join s ts = foldl join u us"
proof -
  have c: "u \<in> carrier" "set us \<subseteq> carrier" using assms by auto
  let ?A = "foldl join s ts" and ?B = "foldl join u us"
  have "foldl join ?A (u # us) = ?A"
    by (rule deliver_absorbs_all [OF assms(1,2)]) (simp add: assms(3) del: set_simps)
  then have "join ?A ?B = ?A" by (simp add: deliver_join)
  moreover have "foldl join ?B (s # ts) = ?B"
    by (rule deliver_absorbs_all [OF c]) (simp add: assms(3) [symmetric] del: set_simps)
  then have "join ?B ?A = ?B" by (simp add: deliver_join)
  moreover have "join ?A ?B = join ?B ?A"
    using assms(1,2) c by (simp add: comm deliver_closed)
  ultimately show ?thesis by simp
qed

end

text \<open>Two instances on the model: the entries of one history, and the bare clocks.\<close>

definition lww_history :: "('k \<Rightarrow> Clock \<Rightarrow> 'v Entry) \<Rightarrow> ('k \<rightharpoonup> 'v Entry) set" where
  "lww_history f = {s. \<forall>k e. s k = Some e \<longrightarrow> e = f k (Clk e)}"

interpretation hist: join_replica "lww_history f" lww_join for f :: "'k \<Rightarrow> Clock \<Rightarrow> 'v Entry"
proof
  fix s t u :: "'k \<rightharpoonup> 'v Entry"
  show "lww_join (lww_join s t) u = lww_join s (lww_join t u)"
    by (simp add: lww_join_def pick_assoc)
  show "lww_join s s = s"
    by (simp add: lww_join_def)
  assume st: "s \<in> lww_history f" "t \<in> lww_history f"
  then show "lww_join s t \<in> lww_history f"
    by (auto simp: lww_history_def lww_join_def pick_def split: option.splits if_splits)
  have "pick (s k) (t k) = pick (t k) (s k)" for k
  proof (cases "s k"; cases "t k")
    fix a b
    assume ab: "s k = Some a" "t k = Some b"
    with st have "a = f k (Clk a)" "b = f k (Clk b)" by (auto simp: lww_history_def)
    with ab show ?thesis by (auto simp: pick_def)
  qed auto
  then show "lww_join s t = lww_join t s" by (simp add: lww_join_def)
qed

definition clock_of :: "('k \<rightharpoonup> 'v Entry) \<Rightarrow> ('k \<rightharpoonup> Clock)" where
  "clock_of s = (\<lambda>k. map_option Clk (s k))"

definition clock_join :: "('k \<rightharpoonup> Clock) \<Rightarrow> ('k \<rightharpoonup> Clock) \<Rightarrow> ('k \<rightharpoonup> Clock)" where
  "clock_join s t =
     (\<lambda>k. case s k of None \<Rightarrow> t k
          | Some c \<Rightarrow> (case t k of None \<Rightarrow> Some c | Some d \<Rightarrow> Some (max c d)))"

interpretation clks: join_replica UNIV clock_join
  by unfold_locales
    (auto simp: clock_join_def fun_eq_iff max.assoc max.commute max.left_commute
      split: option.splits)

lemma clock_of_join [simp]: "clock_of (lww_join s t) = clock_join (clock_of s) (clock_of t)"
  by (auto simp: clock_of_def lww_join_def clock_join_def pick_def fun_eq_iff max_def
      split: option.splits)

lemma clock_of_deliver: "clock_of (foldl lww_join s ts) = foldl clock_join (clock_of s) (map clock_of ts)"
  by (induction ts arbitrary: s) simp_all

text \<open>Anti-entropy at one replica: it merges one peer snapshot after the other.\<close>

definition lww_deliver :: "('k, 'v) lww \<Rightarrow> ('k, 'v Entry) gomap list \<Rightarrow> ('k, 'v) lww" where
  "lww_deliver m snaps = foldl (\<lambda>m es. fst (lww_Merge m es)) m snaps"

lemma lww_deliver_map:
  "list_all go_wf snaps \<Longrightarrow>
   map_of (lww_deliver m snaps) = foldl lww_join (map_of m) (map map_of snaps)"
  unfolding lww_deliver_def by (induction snaps arbitrary: m) (simp_all add: map_of_Merge)

text \<open>No two of the states hold different entries with the same key and the same clock.\<close>

definition conflict_free :: "('k, 'v Entry) gomap list \<Rightarrow> bool" where
  "conflict_free ms =
     list_all (\<lambda>(k, e). list_all (\<lambda>(k', e'). k = k' \<and> Clk e = Clk e' \<longrightarrow> e = e') (concat ms))
       (concat ms)"

lemma conflict_free_history:
  assumes "conflict_free ms"
  shows "\<exists>f. \<forall>m \<in> set ms. map_of m \<in> lww_history f"
proof -
  define f where "f k c = (SOME e. (k, e) \<in> set (concat ms) \<and> Clk e = c)" for k c
  have "e = f k (Clk e)" if e: "(k, e) \<in> set (concat ms)" for k e
  proof -
    have "(k, f k (Clk e)) \<in> set (concat ms) \<and> Clk (f k (Clk e)) = Clk e"
      unfolding f_def by (rule someI_ex) (use e in blast)
    then show ?thesis
      using assms e unfolding conflict_free_def list_all_iff by fastforce
  qed
  then have "\<forall>m \<in> set ms. map_of m \<in> lww_history f"
    by (auto simp: lww_history_def dest!: map_of_SomeD)
  then show ?thesis by blast
qed

section \<open>Cleanup\<close>

definition tomb_expired :: "time \<Rightarrow> duration \<Rightarrow> 'v Entry \<Rightarrow> bool" where
  "tomb_expired now ttl e \<longleftrightarrow> Tombstone e \<and> Nano (Clk e) \<le> UnixNano (now - ttl)"

lemma Cleanup_eq:
  assumes "0 < ttl"
  shows "lww_Cleanup now m ttl =
    (range_delete (\<lambda>k. tomb_expired now ttl) m, length (filter (\<lambda>(k, e). tomb_expired now ttl e) m))"
  using assms by (simp add: lww_Cleanup_def tomb_expired_def [abs_def] Let_def)

lemma Cleanup_wf [wf_intros]: "go_wf m \<Longrightarrow> go_wf (fst (lww_Cleanup now m ttl))"
  by (simp add: lww_Cleanup_def Let_def)

lemma Cleanup_set: "go_wf m \<Longrightarrow> set (fst (lww_Cleanup now m ttl)) \<subseteq> set m"
  by (auto simp: lww_Cleanup_def Let_def range_delete_filter)

lemma Cleanup_map:
  assumes "go_wf m" and "0 < ttl"
  shows "map_of (fst (lww_Cleanup now m ttl)) k =
    (case map_of m k of None \<Rightarrow> None | Some e \<Rightarrow> if tomb_expired now ttl e then None else Some e)"
  using assms by (simp add: Cleanup_eq map_of_range_delete)

lemma Cleanup_Get:
  assumes "go_wf m" and "0 < ttl"
  shows "lww_Get (fst (lww_Cleanup now m ttl)) k = lww_Get m k"
  using assms by (simp add: lww_Get_def Cleanup_map tomb_expired_def split: option.splits)

lemma Cleanup_gone:
  assumes "go_wf m" and "0 < ttl"
  shows "map_of (fst (lww_Cleanup now m ttl)) k = None \<longleftrightarrow>
    (case map_of m k of None \<Rightarrow> True
     | Some e \<Rightarrow> Tombstone e \<and> Nano (Clk e) \<le> UnixNano (now - ttl))"
  using assms by (simp add: Cleanup_map tomb_expired_def split: option.splits)

lemma Cleanup_count:
  assumes "go_wf m" and "0 < ttl"
  shows "length (fst (lww_Cleanup now m ttl)) + snd (lww_Cleanup now m ttl) = length m"
  using assms sum_length_filter_compl [of "\<lambda>x. tomb_expired now ttl (snd x)" m]
  by (simp add: Cleanup_eq range_delete_filter case_prod_unfold)

section \<open>Runs of local and remote writes\<close>

datatype ('k, 'v) lww_op =
    OpUpsert 'k 'v Clock
  | OpDelete 'k Clock
  | OpMerge "('k, 'v Entry) gomap"

fun lww_step :: "'v \<Rightarrow> ('k, 'v) lww \<Rightarrow> ('k, 'v) lww_op \<Rightarrow> ('k, 'v) lww" where
  "lww_step zero m (OpUpsert k v c) = fst (lww_Upsert m k v c)"
| "lww_step zero m (OpDelete k c) = fst (lww_Delete zero m k c)"
| "lww_step zero m (OpMerge es) = fst (lww_Merge m es)"

definition clock_le :: "('k, 'v) lww \<Rightarrow> ('k, 'v) lww \<Rightarrow> bool" where
  "clock_le m n \<longleftrightarrow>
     (\<forall>k e. map_of m k = Some e \<longrightarrow> (\<exists>d. map_of n k = Some d \<and> Clk e \<le> Clk d))"

lemma clock_le_refl [simp]: "clock_le m m"
  by (auto simp: clock_le_def)

lemma clock_le_trans: "clock_le m n \<Longrightarrow> clock_le n p \<Longrightarrow> clock_le m p"
  unfolding clock_le_def by (meson order_trans)

lemma clock_le_set: "wins (map_of m) k e \<Longrightarrow> clock_le m (go_set m k e)"
  by (auto simp: clock_le_def wins_def)

lemma clock_le_merge_loop: "clock_le m (fst (lww_merge_loop m ch es))"
proof (induction m ch es rule: lww_merge_loop.induct)
  case (2 m changed key incoming es)
  have "clock_le m (go_set m key incoming)" if "wins (map_of m) key incoming"
    using that by (rule clock_le_set)
  with 2 show ?case
    by (auto simp: wins_def split: option.splits intro: clock_le_trans)
qed simp

lemma clock_le_Merge: "clock_le m (fst (lww_Merge m es))"
  by (simp add: lww_Merge_def clock_le_merge_loop)

interpretation lww_runs: monotone_system
  "lww_step zero :: ('k, 'v) lww \<Rightarrow> ('k, 'v) lww_op \<Rightarrow> ('k, 'v) lww" any go_wf clock_le
  for zero :: 'v
proof
  fix m n p :: "('k, 'v) lww" and e :: "('k, 'v) lww_op"
  show "clock_le m m" by simp
  show "clock_le m n \<Longrightarrow> clock_le n p \<Longrightarrow> clock_le m p" by (rule clock_le_trans)
  show "go_wf m \<Longrightarrow> go_wf (lww_step zero m e)"
    by (cases e) (auto simp: Upsert_Merge Delete_Merge Merge_wf)
  show "clock_le m (lww_step zero m e)"
    by (cases e) (simp_all add: Upsert_Merge Delete_Merge clock_le_Merge)
qed

section \<open>Properties\<close>



text \<open>
  The clocks converge without any assumption on the writers: after the same set of states has
  reached two replicas, every key carries the same clock at both.
\<close>

theorem lww_clocks_converge:
  assumes "list_all go_wf (m # ess)" and "list_all go_wf (m' # fss)"
    and "map_of ` set (m # ess) = map_of ` set (m' # fss)"
  shows "clock_of (map_of (lww_deliver m ess)) = clock_of (map_of (lww_deliver m' fss))"
proof -
  have "set (clock_of (map_of m) # map clock_of (map map_of ess)) =
      clock_of ` map_of ` set (m # ess)" by auto
  also have "\<dots> = set (clock_of (map_of m') # map clock_of (map map_of fss))"
    unfolding assms(3) by auto
  finally have "foldl clock_join (clock_of (map_of m)) (map clock_of (map map_of ess)) =
      foldl clock_join (clock_of (map_of m')) (map clock_of (map map_of fss))"
    by (intro clks.deliver_converges) simp_all
  with assms(1,2) show ?thesis by (simp add: lww_deliver_map clock_of_deliver)
qed

theorem lww_clocks_converge_witness:
  "clock_of (map_of (lww_deliver [(''a'', \<lparr>Value = 1 :: nat, Clk = Clock 1 0, Tombstone = False\<rparr>)]
      [[(''a'', \<lparr>Value = 2, Clk = Clock 1 0, Tombstone = False\<rparr>)]])) =
   clock_of (map_of (lww_deliver [(''a'', \<lparr>Value = 2 :: nat, Clk = Clock 1 0, Tombstone = False\<rparr>)]
      [[(''a'', \<lparr>Value = 1, Clk = Clock 1 0, Tombstone = False\<rparr>)]]))"
  by (rule lww_clocks_converge) auto

text \<open>One round in which two replicas pull from each other at the same time.\<close>

definition lww_exchange :: "('k, 'v) lww \<times> ('k, 'v) lww \<Rightarrow> ('k, 'v) lww \<times> ('k, 'v) lww" where
  "lww_exchange = (\<lambda>(a, b). (fst (lww_Merge a (lww_Snapshot b)), fst (lww_Merge b (lww_Snapshot a))))"



text \<open>
  No write moves a key back in time: after any sequence of upserts, deletes and merges a key
  that held an entry still holds one, with the same clock or a later one.
\<close>

theorem lww_never_goes_back:
  assumes "go_wf m" and "map_of m k = Some e"
  shows "\<exists>d. map_of (foldl (lww_step zero) m ops) k = Some d \<and> Clk e \<le> Clk d"
  using lww_runs.run_le [OF assms(1), where es = ops and zero = zero] assms(2)
  by (simp add: clock_le_def)

theorem lww_never_goes_back_witness:
  "\<exists>d. map_of (foldl (lww_step (0 :: nat)) [(''a'', \<lparr>Value = 1, Clk = Clock 4 0, Tombstone = False\<rparr>)]
          [OpDelete ''a'' (Clock 3 9), OpUpsert ''a'' 7 (Clock 5 0)]) ''a'' = Some d
     \<and> Clk (\<lparr>Value = 1 :: nat, Clk = Clock 4 0, Tombstone = False\<rparr>) \<le> Clk d"
  by (rule lww_never_goes_back) simp_all

text \<open>
  \<^verbatim>\<open>Cleanup\<close> never loses a live value: it removes exactly the tombstones that are at least
  \<^verbatim>\<open>ttl\<close> old, every lookup answers as before, and the count it returns is the number of entries
  gone.
\<close>

theorem lww_Cleanup_correct:
  assumes "go_wf m" and "0 < ttl"
  shows "lww_Get (fst (lww_Cleanup now m ttl)) k = lww_Get m k
    \<and> (map_of (fst (lww_Cleanup now m ttl)) k = None \<longleftrightarrow>
        (case map_of m k of None \<Rightarrow> True
         | Some e \<Rightarrow> Tombstone e \<and> Nano (Clk e) \<le> UnixNano (now - ttl)))
    \<and> length (fst (lww_Cleanup now m ttl)) + snd (lww_Cleanup now m ttl) = length m"
  using assms by (simp add: Cleanup_Get Cleanup_gone Cleanup_count)

theorem lww_Cleanup_correct_witness:
  "lww_Get (fst (lww_Cleanup 100 [(''a'', \<lparr>Value = 1 :: nat, Clk = Clock 1 0, Tombstone = True\<rparr>),
      (''b'', \<lparr>Value = 5, Clk = Clock 1 0, Tombstone = False\<rparr>)] 10)) ''b'' = Some 5"
  using lww_Cleanup_correct [of "[(''a'', \<lparr>Value = 1 :: nat, Clk = Clock 1 0, Tombstone = True\<rparr>),
      (''b'', \<lparr>Value = 5, Clk = Clock 1 0, Tombstone = False\<rparr>)]" 10 100 "''b''"]
  by (simp add: lww_Get_def)

text \<open>
  A tombstone protects its key only until it is collected: before \<^verbatim>\<open>Cleanup\<close> a peer's older
  live entry is refused, afterwards the same entry is taken and the deleted key is back.
\<close>

theorem lww_Cleanup_resurrects:
  assumes "go_wf m" and "map_of m k = Some t" and "Tombstone t"
    and "Nano (Clk t) \<le> UnixNano (now - ttl)" and "0 < ttl"
    and "\<not> Tombstone d" and "Clk d < Clk t"
  shows "lww_Get (fst (lww_Merge m [(k, d)])) k = None
    \<and> lww_Get (fst (lww_Merge (fst (lww_Cleanup now m ttl)) [(k, d)])) k = Some (Value d)"
  using assms
  by (simp add: map_of_Merge lww_join_def pick_def lww_Get_def Cleanup_map tomb_expired_def not_le)

theorem lww_Cleanup_resurrects_witness:
  "lww_Get (fst (lww_Merge [(''a'', \<lparr>Value = 0 :: nat, Clk = Clock 2 0, Tombstone = True\<rparr>)]
        [(''a'', \<lparr>Value = 9, Clk = Clock 1 0, Tombstone = False\<rparr>)])) ''a'' = None
   \<and> lww_Get (fst (lww_Merge (fst (lww_Cleanup 100
        [(''a'', \<lparr>Value = 0 :: nat, Clk = Clock 2 0, Tombstone = True\<rparr>)] 10))
        [(''a'', \<lparr>Value = 9, Clk = Clock 1 0, Tombstone = False\<rparr>)])) ''a'' = Some 9"
  using lww_Cleanup_resurrects [of "[(''a'', \<lparr>Value = 0 :: nat, Clk = Clock 2 0, Tombstone = True\<rparr>)]"
      "''a''" "\<lparr>Value = 0 :: nat, Clk = Clock 2 0, Tombstone = True\<rparr>" 100 10
      "\<lparr>Value = 9, Clk = Clock 1 0, Tombstone = False\<rparr>"]
  by (simp add: UnixNano_def is_i64_def less_Clock_def)

end
