(* ===== verification/Version_Vector.thy ===== *)
theory Version_Vector
  imports Go_Strings
begin

text \<open>
  The version vectors of \<^verbatim>\<open>pkg/crdt/lwwmap.go\<close>: \<^verbatim>\<open>Bump\<close>, \<^verbatim>\<open>Snapshot\<close>, \<^verbatim>\<open>Compare\<close> and
  \<^verbatim>\<open>Digest\<close>. \<^verbatim>\<open>Compare\<close> decides the pointwise order of the counters for every order in which
  the keys are visited, and \<^verbatim>\<open>Digest\<close> is a faithful, order-independent fingerprint.
\<close>

section \<open>Operations\<close>

type_synonym vv = "(string, u64) gomap"

definition NewVersionVector :: vv where
  "NewVersionVector = []"

definition vv_Bump :: "vv \<Rightarrow> string \<Rightarrow> u64 \<Rightarrow> vv" where
  "vv_Bump v nodeID counter =
     (case map_of v nodeID of
        None \<Rightarrow> go_set v nodeID counter
      | Some current \<Rightarrow> if counter > current then go_set v nodeID counter else v)"

definition vv_Snapshot :: "vv \<Rightarrow> vv" where
  "vv_Snapshot v = go_copy v"

datatype Comparison = Concurrent | Descendant | Ancestor | Equal

fun vv_compare_loop :: "vv \<Rightarrow> vv \<Rightarrow> bool \<Rightarrow> bool \<Rightarrow> string list \<Rightarrow> Comparison" where
  "vv_compare_loop self other selfGreater otherGreater [] =
     (if selfGreater then Descendant else if otherGreater then Ancestor else Equal)"
| "vv_compare_loop self other selfGreater otherGreater (k # ks) =
     (let s = go_get 0 self k;
          p = go_get 0 other k;
          selfGreater' = (if s > p then True else selfGreater);
          otherGreater' = (if s > p then otherGreater else if s < p then True else otherGreater)
      in if selfGreater' \<and> otherGreater' then Concurrent
         else vv_compare_loop self other selfGreater' otherGreater' ks)"

text \<open>The key set that \<^verbatim>\<open>Compare\<close> collects from both vectors, in one order.\<close>

definition vv_keys :: "vv \<Rightarrow> vv \<Rightarrow> string list" where
  "vv_keys self other = remdups (map fst self @ map fst other)"

definition vv_Compare :: "vv \<Rightarrow> vv \<Rightarrow> Comparison" where
  "vv_Compare v other =
     (let self = vv_Snapshot v in vv_compare_loop self other False False (vv_keys self other))"

definition digest_line :: "string \<times> u64 \<Rightarrow> string" where
  "digest_line = (\<lambda>(node, counter). node @ ''='' @ dec (unat counter))"

definition vv_Digest :: "vv \<Rightarrow> string list" where
  "vv_Digest v = (let snap = vv_Snapshot v in if snap = [] then [] else sort (map digest_line snap))"

section \<open>The counters as a function\<close>

text \<open>A missing node counts as zero, as a read of the Go map does.\<close>

abbreviation counter :: "vv \<Rightarrow> string \<Rightarrow> u64" where
  "counter v \<equiv> go_get 0 v"

lemma vv_Snapshot_eq [simp]: "go_wf v \<Longrightarrow> vv_Snapshot v = v"
  by (simp add: vv_Snapshot_def)

lemma Bump_wf [wf_intros]: "go_wf v \<Longrightarrow> go_wf (vv_Bump v n c)"
  by (auto simp: vv_Bump_def split: option.splits)

lemma counter_Bump: "counter (vv_Bump v n c) k = (if k = n then max c (counter v k) else counter v k)"
  by (auto simp: vv_Bump_def go_get_def max_def split: option.splits)

definition vv_bump_all :: "vv \<Rightarrow> vv \<Rightarrow> vv" where
  "vv_bump_all v delta = foldl (\<lambda>v (node, c). vv_Bump v node c) v delta"

lemma bump_all_wf [wf_intros]: "go_wf v \<Longrightarrow> go_wf (vv_bump_all v delta)"
  unfolding vv_bump_all_def by (induction delta arbitrary: v) (auto simp: Bump_wf)

text \<open>Bumping by a whole vector is the pointwise maximum, whatever the order of its nodes.\<close>

lemma counter_bump_all:
  "go_wf delta \<Longrightarrow> counter (vv_bump_all v delta) k = max (counter delta k) (counter v k)"
proof (induction delta arbitrary: v)
  case Nil
  then show ?case by (simp add: vv_bump_all_def go_get_def)
next
  case (Cons x delta)
  obtain n c where x: "x = (n, c)" by (cases x)
  with Cons.prems have "map_of delta n = None" by (simp add: map_of_eq_None_iff)
  moreover have "vv_bump_all v (x # delta) = vv_bump_all (vv_Bump v n c) delta"
    by (simp add: vv_bump_all_def x)
  moreover have "counter (x # delta) k = (if k = n then c else counter delta k)"
    by (simp add: go_get_def x)
  moreover have "map_of delta k = None \<Longrightarrow> counter delta k = 0"
    by (simp add: go_get_def)
  moreover have "counter (vv_bump_all (vv_Bump v n c) delta) k =
      max (counter delta k) (counter (vv_Bump v n c) k)"
    using Cons by simp
  ultimately show ?case by (auto simp: counter_Bump)
qed

definition vv_le :: "vv \<Rightarrow> vv \<Rightarrow> bool" where
  "vv_le v w \<longleftrightarrow> (\<forall>k. counter v k \<le> counter w k)"

lemma vv_le_refl [simp]: "vv_le v v"
  by (simp add: vv_le_def)

lemma vv_le_trans: "vv_le u v \<Longrightarrow> vv_le v w \<Longrightarrow> vv_le u w"
  unfolding vv_le_def by (meson order_trans)

lemma vv_le_Bump [simp]: "vv_le v (vv_Bump v n c)"
  by (simp add: vv_le_def counter_Bump)

lemma vv_le_bump_all: "vv_le v (vv_bump_all v delta)"
  unfolding vv_bump_all_def
  by (induction delta arbitrary: v) (auto intro: vv_le_trans vv_le_Bump)

lemma vv_le_delta_bump_all: "vv_le delta (vv_bump_all v delta)"
proof (induction delta arbitrary: v)
  case Nil
  then show ?case by (simp add: vv_le_def go_get_def)
next
  case (Cons x delta)
  obtain n c where x: "x = (n, c)" by (cases x)
  let ?w = "vv_bump_all (vv_Bump v n c) delta"
  have "counter (vv_Bump v n c) n \<le> counter ?w n"
    using vv_le_bump_all by (simp add: vv_le_def)
  then have "c \<le> counter ?w n" by (simp add: counter_Bump)
  moreover have "counter delta k \<le> counter ?w k" for k
    using Cons.IH by (simp add: vv_le_def)
  ultimately show ?case by (auto simp: vv_le_def vv_bump_all_def x go_get_def)
qed

section \<open>Compare\<close>

lemma compare_loop_spec:
  assumes "\<not> (sg \<and> og)"
  shows "vv_compare_loop v w sg og ks =
    (let up = sg \<or> (\<exists>k \<in> set ks. counter v k > counter w k);
         down = og \<or> (\<exists>k \<in> set ks. counter v k < counter w k)
     in if up \<and> down then Concurrent else if up then Descendant else if down then Ancestor else Equal)"
  using assms
proof (induction ks arbitrary: sg og)
  case (Cons k ks)
  show ?case
    by (cases "counter v k" "counter w k" rule: linorder_cases)
      (use Cons in \<open>auto simp: Let_def\<close>)
qed (simp add: Let_def)

lemma counter_outside: "k \<notin> set (map fst v) \<Longrightarrow> counter v k = 0"
proof -
  assume "k \<notin> set (map fst v)"
  then have "map_of v k = None" by (simp add: map_of_eq_None_iff)
  then show ?thesis by (simp add: go_get_def)
qed

lemma vv_le_on_keys:
  assumes "set (map fst v) \<union> set (map fst w) \<subseteq> set ks"
  shows "(\<exists>k \<in> set ks. counter v k < counter w k) \<longleftrightarrow> \<not> vv_le w v"
proof
  assume "\<not> vv_le w v"
  then obtain k where k: "counter v k < counter w k" by (auto simp: vv_le_def not_le)
  then have "k \<in> set ks" using assms counter_outside [of k w] by force
  with k show "\<exists>k \<in> set ks. counter v k < counter w k" by blast
qed (auto simp: vv_le_def not_le)

text \<open>Visiting any enumeration of the keys gives the comparison in the pointwise order.\<close>

lemma compare_loop_any_order:
  assumes "set ks = set (map fst v) \<union> set (map fst w)"
  shows "vv_compare_loop v w False False ks =
    (if vv_le w v then if vv_le v w then Equal else Descendant
     else if vv_le v w then Ancestor else Concurrent)"
  using vv_le_on_keys [of v w ks] vv_le_on_keys [of w v ks] assms
  by (simp add: compare_loop_spec)

section \<open>Properties\<close>

text \<open>
  C29. \<^verbatim>\<open>Compare\<close> decides the partial order of version vectors exactly: \<^verbatim>\<open>Descendant\<close> when the left
  vector is at least the right one at every node, \<^verbatim>\<open>Ancestor\<close> for the converse, \<^verbatim>\<open>Equal\<close> for
  both and \<^verbatim>\<open>Concurrent\<close> for neither; a node missing on one side counts as zero.
\<close>

theorem vv_Compare_correct:
  assumes "go_wf v"
  shows "vv_Compare v w =
    (if vv_le w v then if vv_le v w then Equal else Descendant
     else if vv_le v w then Ancestor else Concurrent)"
  using assms by (simp add: vv_Compare_def Let_def compare_loop_any_order vv_keys_def)

theorem vv_Compare_correct_witness:
  "vv_Compare [(''a'', 2), (''b'', 1)] [(''b'', 1)] = Descendant
   \<and> \<not> vv_le [(''a'', 2), (''b'', 1)] [(''b'', 1)]"
proof -
  have "vv_Compare [(''a'', 2), (''b'', 1)] [(''b'', 1)] = Descendant"
    by code_simp
  then show ?thesis
    using vv_Compare_correct [of "[(''a'', 2), (''b'', 1)]" "[(''b'', 1)]"] by (simp split: if_splits)
qed

lemma last_sep_unique:
  assumes "x @ sep # y = x' @ sep # y'" and "sep \<notin> set y" and "sep \<notin> set y'"
  shows "x = x' \<and> y = y'"
proof -
  have "takeWhile ((\<noteq>) sep) (rev (x @ sep # y)) = rev y"
    and "takeWhile ((\<noteq>) sep) (rev (x' @ sep # y')) = rev y'"
    using assms(2,3) by (simp_all add: takeWhile_append)
  with assms(1) show ?thesis by simp
qed

lemma inj_digest_line: "inj digest_line"
proof (rule injI)
  fix a b :: "string \<times> u64"
  assume eq: "digest_line a = digest_line b"
  have "CHR ''='' \<notin> set (dec n)" for n
    by (rule dec_not_mem) (simp add: digit_val_def)
  with last_sep_unique [of "fst a" "CHR ''=''" "dec (unat (snd a))" "fst b" "dec (unat (snd b))"] eq
  show "a = b" by (simp add: digest_line_def case_prod_unfold prod_eq_iff word_unat_eq_iff)
qed

text \<open>
  \<^verbatim>\<open>Digest\<close> is a faithful fingerprint: two version vectors have the same digest exactly when
  they hold the same counters, in whatever order their maps are visited.
\<close>

theorem vv_Digest_faithful:
  assumes "go_wf v" and "go_wf w"
  shows "vv_Digest v = vv_Digest w \<longleftrightarrow> map_of v = map_of w"
proof
  assume "map_of v = map_of w"
  then have "mset v = mset w" using assms by (rule go_wf_same_map_mset [rotated 2])
  then have "mset (map digest_line v) = mset (map digest_line w)" by simp
  then have "sort (map digest_line v) = sort (map digest_line w)"
    by (metis properties_for_sort mset_sort sorted_sort)
  then show "vv_Digest v = vv_Digest w"
    using assms \<open>mset v = mset w\<close> by (auto simp: vv_Digest_def Let_def)
next
  assume "vv_Digest v = vv_Digest w"
  then have "sort (map digest_line v) = sort (map digest_line w)"
    using assms by (auto simp: vv_Digest_def Let_def split: if_splits dest: arg_cong [of _ _ length])
  then have "digest_line ` set v = digest_line ` set w"
    by (metis set_sort set_map)
  then have "set v = set w" by (simp add: inj_image_eq_iff [OF inj_digest_line])
  with assms show "map_of v = map_of w"
    by (metis map_of_inject_set)
qed

theorem vv_Digest_faithful_witness:
  "vv_Digest [(''a'', 2), (''b'', 10)] = vv_Digest [(''b'', 10), (''a'', 2)]"
  using vv_Digest_faithful [of "[(''a'', 2), (''b'', 10)]" "[(''b'', 10), (''a'', 2)]"]
  by (simp add: fun_eq_iff)

end
