(* ===== verification/Registry_Store.thy ===== *)
theory Registry_Store
  imports Lww_Map Version_Vector
begin

text \<open>
  \<^verbatim>\<open>pkg/registry\<close>: the records of \<^verbatim>\<open>models.go\<close>, the canonical encodings of \<^verbatim>\<open>encoding.go\<close> and the
  \<^verbatim>\<open>Store\<close> of \<^verbatim>\<open>store.go\<close>. The CBOR library and Ed25519 are arguments (\<open>reg_env\<close>): an encoder
  per signed struct, which may fail, and the signature check. Proved here: every operation keeps
  the store well formed, what reaches the store through the \<^verbatim>\<open>Apply\<close> operations is signed, the
  version vectors cover the entries, \<^verbatim>\<open>Prune\<close> leaves only fresh metrics, and the merge of a peer's
  delta checks no signature.
\<close>

section \<open>models.go\<close>

type_synonym ChainID = string
type_synonym BackendID = string
type_synonym NodeID = string

record BackendMeta =
  bm_ID :: BackendID
  bm_Host :: string
  bm_IPs :: "bytes list"
  bm_Country :: string
  bm_Region :: string
  bm_ChainID :: ChainID
  bm_Caps :: "(string, bool) gomap"
  bm_Archival :: bool
  bm_OwnerPK :: bytes
  bm_AddedAt :: int
  bm_Sig :: bytes
  bm_Clock :: u64

record BackendMetrics =
  mx_ID :: BackendID
  mx_AtUnix :: int
  mx_Height :: int
  mx_CatchingUp :: bool
  mx_CPU :: real
  mx_P95ms :: real
  mx_RPS :: real
  mx_FailRate :: real
  mx_RTTms :: real
  mx_Health :: string
  mx_Sig :: bytes

record NodeAdvert =
  na_ID :: NodeID
  na_NSServing :: bool
  na_IPs :: "bytes list"
  na_Country :: string
  na_Region :: string
  na_AtUnix :: int
  na_PubKey :: bytes
  na_Sig :: bytes
  na_Clock :: u64

section \<open>encoding.go\<close>

text \<open>The structs that are signed: every field but the signature.\<close>

record signed_meta =
  sm_ID :: BackendID
  sm_Host :: string
  sm_IPs :: "bytes list"
  sm_Country :: string
  sm_Region :: string
  sm_ChainID :: ChainID
  sm_Caps :: "(string, bool) gomap"
  sm_Archival :: bool
  sm_AddedAt :: int
  sm_Clock :: u64
  sm_OwnerPK :: bytes

record signed_advert =
  sa_ID :: NodeID
  sa_NSServing :: bool
  sa_IPs :: "bytes list"
  sa_Country :: string
  sa_Region :: string
  sa_AtUnix :: int
  sa_Clock :: u64
  sa_PubKey :: bytes

record signed_metrics =
  sx_ID :: BackendID
  sx_AtUnix :: int
  sx_Height :: int
  sx_CatchingUp :: bool
  sx_CPU :: real
  sx_P95ms :: real
  sx_RPS :: real
  sx_FailRate :: real
  sx_RTTms :: real
  sx_Health :: string

text \<open>
  The code outside the repository: the canonical CBOR encoder of each signed struct (\<open>Inl\<close> is its
  error) and \<^verbatim>\<open>ed25519.Verify\<close> on a public key, a message and a signature.
\<close>

record reg_env =
  cbor_meta :: "signed_meta \<Rightarrow> string + bytes"
  cbor_advert :: "signed_advert \<Rightarrow> string + bytes"
  cbor_metrics :: "signed_metrics \<Rightarrow> string + bytes"
  ed25519_Verify :: "bytes \<Rightarrow> bytes \<Rightarrow> bytes \<Rightarrow> bool"

definition CanonicalBackendMeta :: "reg_env \<Rightarrow> BackendMeta \<Rightarrow> string + bytes" where
  "CanonicalBackendMeta env m =
     (let ips = foldl (\<lambda>ips ip. ips @ [ip]) [] (bm_IPs m)
      in cbor_meta env
           \<lparr>sm_ID = bm_ID m, sm_Host = bm_Host m, sm_IPs = ips, sm_Country = bm_Country m,
            sm_Region = bm_Region m, sm_ChainID = bm_ChainID m, sm_Caps = bm_Caps m,
            sm_Archival = bm_Archival m, sm_AddedAt = bm_AddedAt m, sm_Clock = bm_Clock m,
            sm_OwnerPK = bm_OwnerPK m\<rparr>)"

definition CanonicalNodeAdvert :: "reg_env \<Rightarrow> NodeAdvert \<Rightarrow> string + bytes" where
  "CanonicalNodeAdvert env a =
     (let ips = foldl (\<lambda>ips ip. ips @ [ip]) [] (na_IPs a)
      in cbor_advert env
           \<lparr>sa_ID = na_ID a, sa_NSServing = na_NSServing a, sa_IPs = ips, sa_Country = na_Country a,
            sa_Region = na_Region a, sa_AtUnix = na_AtUnix a, sa_Clock = na_Clock a,
            sa_PubKey = na_PubKey a\<rparr>)"

definition CanonicalBackendMetrics :: "reg_env \<Rightarrow> BackendMetrics \<Rightarrow> string + bytes" where
  "CanonicalBackendMetrics env x =
     cbor_metrics env
       \<lparr>sx_ID = mx_ID x, sx_AtUnix = mx_AtUnix x, sx_Height = mx_Height x,
        sx_CatchingUp = mx_CatchingUp x, sx_CPU = mx_CPU x, sx_P95ms = mx_P95ms x,
        sx_RPS = mx_RPS x, sx_FailRate = mx_FailRate x, sx_RTTms = mx_RTTms x,
        sx_Health = mx_Health x\<rparr>"

section \<open>store.go\<close>

record timedMetric =
  tm_value :: BackendMetrics
  tm_receivedAt :: time

record Store =
  st_meta :: "(BackendID, BackendMeta) lww"
  st_metaVV :: vv
  st_nodes :: "(NodeID, NodeAdvert) lww"
  st_nodeVV :: vv
  st_metrics :: "(BackendID, timedMetric) gomap"
  st_metricsTTL :: duration

datatype reg_error = errInvalidSignature | errMissingOwnerKey | errMissingNodeKey | errEncode string

definition PublicKeySize :: nat where "PublicKeySize = 32"

definition NewStore :: "duration \<Rightarrow> Store" where
  "NewStore metricsTTL =
     \<lparr>st_meta = NewLWWMap, st_metaVV = NewVersionVector, st_nodes = NewLWWMap,
      st_nodeVV = NewVersionVector, st_metrics = [],
      st_metricsTTL = (if metricsTTL \<le> 0 then 10 * second else metricsTTL)\<rparr>"

definition meta_clock :: "BackendMeta \<Rightarrow> Clock" where
  "meta_clock m = Clock (bm_Clock m) (wrap_i64 (bm_AddedAt m * second))"

definition advert_clock :: "NodeAdvert \<Rightarrow> Clock" where
  "advert_clock a = Clock (na_Clock a) (wrap_i64 (na_AtUnix a * second))"

definition ApplyBackendMeta :: "reg_env \<Rightarrow> Store \<Rightarrow> BackendMeta \<Rightarrow> Store \<times> (reg_error + bool)" where
  "ApplyBackendMeta env s m =
     (if length (bm_OwnerPK m) \<noteq> PublicKeySize then (s, Inl errMissingOwnerKey)
      else case CanonicalBackendMeta env m of
        Inl err \<Rightarrow> (s, Inl (errEncode err))
      | Inr encoded \<Rightarrow>
          if \<not> ed25519_Verify env (bm_OwnerPK m) encoded (bm_Sig m)
          then (s, Inl errInvalidSignature)
          else (let (items, changed) = lww_Upsert (st_meta s) (bm_ID m) m (meta_clock m);
                    s1 = s\<lparr>st_meta := items\<rparr>;
                    s2 = (if changed
                          then s1\<lparr>st_metaVV := vv_Bump (st_metaVV s1) (bm_ID m) (bm_Clock m)\<rparr>
                          else s1)
                in (s2, Inr changed)))"

definition ApplyNodeAdvert :: "reg_env \<Rightarrow> Store \<Rightarrow> NodeAdvert \<Rightarrow> Store \<times> (reg_error + bool)" where
  "ApplyNodeAdvert env s a =
     (if length (na_PubKey a) \<noteq> PublicKeySize then (s, Inl errMissingNodeKey)
      else case CanonicalNodeAdvert env a of
        Inl err \<Rightarrow> (s, Inl (errEncode err))
      | Inr payload \<Rightarrow>
          if \<not> ed25519_Verify env (na_PubKey a) payload (na_Sig a)
          then (s, Inl errInvalidSignature)
          else (let (items, changed) = lww_Upsert (st_nodes s) (na_ID a) a (advert_clock a);
                    s1 = s\<lparr>st_nodes := items\<rparr>;
                    s2 = (if changed
                          then s1\<lparr>st_nodeVV := vv_Bump (st_nodeVV s1) (na_ID a) (na_Clock a)\<rparr>
                          else s1)
                in (s2, Inr changed)))"

definition ApplyBackendMetrics :: "time \<Rightarrow> Store \<Rightarrow> BackendMetrics \<Rightarrow> Store" where
  "ApplyBackendMetrics now s x =
     s\<lparr>st_metrics := go_set (st_metrics s) (mx_ID x) \<lparr>tm_value = x, tm_receivedAt = now\<rparr>\<rparr>"

definition Prune :: "time \<Rightarrow> Store \<Rightarrow> Store" where
  "Prune now s =
     s\<lparr>st_metrics := range_delete (\<lambda>id metric. time_Sub now (tm_receivedAt metric) > st_metricsTTL s)
                     (st_metrics s),
       st_meta := fst (lww_Cleanup now (st_meta s) (st_metricsTTL s)),
       st_nodes := fst (lww_Cleanup now (st_nodes s) (st_metricsTTL s))\<rparr>"

definition BackendSnapshot :: "Store \<Rightarrow> (BackendID, BackendMeta Entry) gomap \<times> vv" where
  "BackendSnapshot s = (go_copy (lww_Snapshot (st_meta s)), vv_Snapshot (st_metaVV s))"

definition NodeSnapshot :: "Store \<Rightarrow> (NodeID, NodeAdvert Entry) gomap \<times> vv" where
  "NodeSnapshot s = (go_copy (lww_Snapshot (st_nodes s)), vv_Snapshot (st_nodeVV s))"

definition MergeBackendDelta :: "Store \<Rightarrow> (BackendID, BackendMeta Entry) gomap \<Rightarrow> vv \<Rightarrow> Store" where
  "MergeBackendDelta s entries delta =
     (let (items, changed) = lww_Merge (st_meta s) entries;
          s1 = s\<lparr>st_meta := items\<rparr>
      in if changed then s1\<lparr>st_metaVV := vv_bump_all (st_metaVV s1) delta\<rparr> else s1)"

definition MergeNodeDelta :: "Store \<Rightarrow> (NodeID, NodeAdvert Entry) gomap \<Rightarrow> vv \<Rightarrow> Store" where
  "MergeNodeDelta s entries delta =
     (let (items, changed) = lww_Merge (st_nodes s) entries;
          s1 = s\<lparr>st_nodes := items\<rparr>
      in if changed then s1\<lparr>st_nodeVV := vv_bump_all (st_nodeVV s1) delta\<rparr> else s1)"

definition LatestMetrics :: "Store \<Rightarrow> (BackendID, BackendMetrics) gomap" where
  "LatestMetrics s = foldl (\<lambda>out (id, metric). go_set out id (tm_value metric)) [] (st_metrics s)"

definition BackendVersionVector :: "Store \<Rightarrow> vv" where
  "BackendVersionVector s = vv_Snapshot (st_metaVV s)"

definition NodeVersionVector :: "Store \<Rightarrow> vv" where
  "NodeVersionVector s = vv_Snapshot (st_nodeVV s)"

text \<open>Every way the program changes a store, as one operation.\<close>

datatype store_op =
    ApplyMeta BackendMeta
  | ApplyAdvert NodeAdvert
  | ApplyMetrics time BackendMetrics
  | PruneAt time
  | MergeMeta "(BackendID, BackendMeta Entry) gomap" vv
  | MergeNodes "(NodeID, NodeAdvert Entry) gomap" vv

fun store_step :: "reg_env \<Rightarrow> Store \<Rightarrow> store_op \<Rightarrow> Store" where
  "store_step env s (ApplyMeta m) = fst (ApplyBackendMeta env s m)"
| "store_step env s (ApplyAdvert a) = fst (ApplyNodeAdvert env s a)"
| "store_step env s (ApplyMetrics now x) = ApplyBackendMetrics now s x"
| "store_step env s (PruneAt now) = Prune now s"
| "store_step env s (MergeMeta es v) = MergeBackendDelta s es v"
| "store_step env s (MergeNodes es v) = MergeNodeDelta s es v"

section \<open>Signed records\<close>

definition authentic_meta :: "reg_env \<Rightarrow> BackendMeta \<Rightarrow> bool" where
  "authentic_meta env m \<longleftrightarrow>
     length (bm_OwnerPK m) = PublicKeySize \<and>
     (case CanonicalBackendMeta env m of Inl _ \<Rightarrow> False
      | Inr encoded \<Rightarrow> ed25519_Verify env (bm_OwnerPK m) encoded (bm_Sig m))"

definition authentic_advert :: "reg_env \<Rightarrow> NodeAdvert \<Rightarrow> bool" where
  "authentic_advert env a \<longleftrightarrow>
     length (na_PubKey a) = PublicKeySize \<and>
     (case CanonicalNodeAdvert env a of Inl _ \<Rightarrow> False
      | Inr payload \<Rightarrow> ed25519_Verify env (na_PubKey a) payload (na_Sig a))"

text \<open>The entry an accepted record becomes.\<close>

definition meta_entry :: "BackendMeta \<Rightarrow> BackendMeta Entry" where
  "meta_entry m = \<lparr>Value = m, Clk = meta_clock m, Tombstone = False\<rparr>"

definition advert_entry :: "NodeAdvert \<Rightarrow> NodeAdvert Entry" where
  "advert_entry a = \<lparr>Value = a, Clk = advert_clock a, Tombstone = False\<rparr>"

text \<open>An \<^verbatim>\<open>Apply\<close> of an authentic record is the merge of its one-entry delta, any other a no-op.\<close>

lemma Merge_one_changed: "snd (lww_Merge m [(k, e)]) = wins (map_of m) k e"
  by (simp add: Merge_changed)

lemma Apply_meta_authentic:
  assumes "authentic_meta env m"
  shows "ApplyBackendMeta env s m =
    (MergeBackendDelta s [(bm_ID m, meta_entry m)] [(bm_ID m, bm_Clock m)],
     Inr (wins (map_of (st_meta s)) (bm_ID m) (meta_entry m)))"
proof -
  obtain enc where "CanonicalBackendMeta env m = Inr enc"
    and "ed25519_Verify env (bm_OwnerPK m) enc (bm_Sig m)"
    and "length (bm_OwnerPK m) = PublicKeySize"
    using assms by (auto simp: authentic_meta_def split: sum.splits)
  then show ?thesis
    by (simp add: ApplyBackendMeta_def MergeBackendDelta_def Upsert_Merge meta_entry_def Let_def
        vv_bump_all_def Merge_one_changed case_prod_unfold)
qed

lemma Apply_advert_authentic:
  assumes "authentic_advert env a"
  shows "ApplyNodeAdvert env s a =
    (MergeNodeDelta s [(na_ID a, advert_entry a)] [(na_ID a, na_Clock a)],
     Inr (wins (map_of (st_nodes s)) (na_ID a) (advert_entry a)))"
proof -
  obtain enc where "CanonicalNodeAdvert env a = Inr enc"
    and "ed25519_Verify env (na_PubKey a) enc (na_Sig a)"
    and "length (na_PubKey a) = PublicKeySize"
    using assms by (auto simp: authentic_advert_def split: sum.splits)
  then show ?thesis
    by (simp add: ApplyNodeAdvert_def MergeNodeDelta_def Upsert_Merge advert_entry_def Let_def
        vv_bump_all_def Merge_one_changed case_prod_unfold)
qed

lemma Apply_meta_rejected:
  assumes "\<not> authentic_meta env m"
  shows "fst (ApplyBackendMeta env s m) = s \<and> isl (snd (ApplyBackendMeta env s m))"
  using assms by (auto simp: authentic_meta_def ApplyBackendMeta_def split: sum.splits)

lemma Apply_advert_rejected:
  assumes "\<not> authentic_advert env a"
  shows "fst (ApplyNodeAdvert env s a) = s \<and> isl (snd (ApplyNodeAdvert env s a))"
  using assms by (auto simp: authentic_advert_def ApplyNodeAdvert_def split: sum.splits)

section \<open>Field-wise effect of the merges\<close>

lemma MergeBackendDelta_fields [simp]:
  "st_meta (MergeBackendDelta s es v) = fst (lww_Merge (st_meta s) es)"
  "st_metaVV (MergeBackendDelta s es v) =
     (if snd (lww_Merge (st_meta s) es) then vv_bump_all (st_metaVV s) v else st_metaVV s)"
  "st_nodes (MergeBackendDelta s es v) = st_nodes s"
  "st_nodeVV (MergeBackendDelta s es v) = st_nodeVV s"
  "st_metrics (MergeBackendDelta s es v) = st_metrics s"
  "st_metricsTTL (MergeBackendDelta s es v) = st_metricsTTL s"
  by (simp_all add: MergeBackendDelta_def Let_def case_prod_unfold)

lemma MergeNodeDelta_fields [simp]:
  "st_nodes (MergeNodeDelta s es v) = fst (lww_Merge (st_nodes s) es)"
  "st_nodeVV (MergeNodeDelta s es v) =
     (if snd (lww_Merge (st_nodes s) es) then vv_bump_all (st_nodeVV s) v else st_nodeVV s)"
  "st_meta (MergeNodeDelta s es v) = st_meta s"
  "st_metaVV (MergeNodeDelta s es v) = st_metaVV s"
  "st_metrics (MergeNodeDelta s es v) = st_metrics s"
  "st_metricsTTL (MergeNodeDelta s es v) = st_metricsTTL s"
  by (simp_all add: MergeNodeDelta_def Let_def case_prod_unfold)

lemma step_ApplyMeta_cases:
  obtains "authentic_meta env m"
    "store_step env s (ApplyMeta m) =
       MergeBackendDelta s [(bm_ID m, meta_entry m)] [(bm_ID m, bm_Clock m)]"
  | "\<not> authentic_meta env m" "store_step env s (ApplyMeta m) = s"
  using Apply_meta_authentic [of env m s] Apply_meta_rejected [of env m s] by auto

lemma step_ApplyAdvert_cases:
  obtains "authentic_advert env a"
    "store_step env s (ApplyAdvert a) =
       MergeNodeDelta s [(na_ID a, advert_entry a)] [(na_ID a, na_Clock a)]"
  | "\<not> authentic_advert env a" "store_step env s (ApplyAdvert a) = s"
  using Apply_advert_authentic [of env a s] Apply_advert_rejected [of env a s] by auto

section \<open>Well-formed stores\<close>

definition store_wf :: "Store \<Rightarrow> bool" where
  "store_wf s \<longleftrightarrow>
     go_wf (st_meta s) \<and> go_wf (st_metaVV s) \<and> go_wf (st_nodes s) \<and> go_wf (st_nodeVV s) \<and>
     go_wf (st_metrics s) \<and> 0 < st_metricsTTL s"

lemma store_wf_new [simp, wf_intros]: "store_wf (NewStore ttl)"
  by (simp add: store_wf_def NewStore_def NewLWWMap_def NewVersionVector_def second_def)

lemma store_wf_MergeBackendDelta [wf_intros]: "store_wf s \<Longrightarrow> store_wf (MergeBackendDelta s es v)"
  by (simp add: store_wf_def Merge_wf bump_all_wf)

lemma store_wf_MergeNodeDelta [wf_intros]: "store_wf s \<Longrightarrow> store_wf (MergeNodeDelta s es v)"
  by (simp add: store_wf_def Merge_wf bump_all_wf)

lemma store_wf_Prune [wf_intros]: "store_wf s \<Longrightarrow> store_wf (Prune now s)"
  by (simp add: store_wf_def Prune_def Cleanup_wf)

lemma store_wf_metrics [wf_intros]: "store_wf s \<Longrightarrow> store_wf (ApplyBackendMetrics now s x)"
  by (simp add: store_wf_def ApplyBackendMetrics_def)

lemma store_wf_step [wf_intros]: "store_wf s \<Longrightarrow> store_wf (store_step env s e)"
proof (cases e)
  case (ApplyMeta m)
  then show "store_wf s \<Longrightarrow> ?thesis"
    by (cases rule: step_ApplyMeta_cases [of env m s]) (simp_all add: wf_intros)
next
  case (ApplyAdvert a)
  then show "store_wf s \<Longrightarrow> ?thesis"
    by (cases rule: step_ApplyAdvert_cases [of env a s]) (simp_all add: wf_intros)
qed (simp_all add: wf_intros)

interpretation store_runs: invariant_system "store_step env" any store_wf for env
  by unfold_locales (rule store_wf_step)

section \<open>Version vectors only grow\<close>

definition store_vv_le :: "Store \<Rightarrow> Store \<Rightarrow> bool" where
  "store_vv_le s t \<longleftrightarrow> vv_le (st_metaVV s) (st_metaVV t) \<and> vv_le (st_nodeVV s) (st_nodeVV t)"

lemma store_vv_le_step: "store_vv_le s (store_step env s e)"
proof (cases e)
  case (ApplyMeta m)
  then show ?thesis
    by (cases rule: step_ApplyMeta_cases [of env m s]) (simp_all add: store_vv_le_def vv_le_bump_all)
next
  case (ApplyAdvert a)
  then show ?thesis
    by (cases rule: step_ApplyAdvert_cases [of env a s]) (simp_all add: store_vv_le_def vv_le_bump_all)
qed (simp_all add: store_vv_le_def vv_le_bump_all Prune_def ApplyBackendMetrics_def)

interpretation store_vv_runs: monotone_system "store_step env" any store_wf store_vv_le for env
proof unfold_locales
  show "store_vv_le s (store_step env s e)" for s e by (rule store_vv_le_step)
qed (auto simp: store_vv_le_def intro: vv_le_trans)

section \<open>Signed contents\<close>

definition good_meta :: "reg_env \<Rightarrow> (BackendID, BackendMeta Entry) gomap \<Rightarrow> bool" where
  "good_meta env =
     list_all (\<lambda>(k, e). Tombstone e \<or>
       authentic_meta env (Value e) \<and> bm_ID (Value e) = k \<and> Clk e = meta_clock (Value e))"

definition good_nodes :: "reg_env \<Rightarrow> (NodeID, NodeAdvert Entry) gomap \<Rightarrow> bool" where
  "good_nodes env =
     list_all (\<lambda>(k, e). Tombstone e \<or>
       authentic_advert env (Value e) \<and> na_ID (Value e) = k \<and> Clk e = advert_clock (Value e))"

definition good_store :: "reg_env \<Rightarrow> Store \<Rightarrow> bool" where
  "good_store env s \<longleftrightarrow> store_wf s \<and> good_meta env (st_meta s) \<and> good_nodes env (st_nodes s)"

text \<open>The environment's side: a merged delta comes from a peer whose own entries are signed.\<close>

fun op_good :: "reg_env \<Rightarrow> store_op \<Rightarrow> bool" where
  "op_good env (MergeMeta es v) = good_meta env es"
| "op_good env (MergeNodes es v) = good_nodes env es"
| "op_good env e = True"

lemma list_all_subset: "set xs \<subseteq> set ys \<Longrightarrow> list_all P ys \<Longrightarrow> list_all P xs"
  by (auto simp: list_all_iff)

lemma list_all_Merge:
  "list_all P m \<Longrightarrow> list_all P es \<Longrightarrow> list_all P (fst (lww_Merge m es))"
  using list_all_subset [of "fst (lww_Merge m es)" "m @ es" P] Merge_set [of m es] by simp

lemma list_all_Cleanup: "go_wf m \<Longrightarrow> list_all P m \<Longrightarrow> list_all P (fst (lww_Cleanup now m ttl))"
  by (rule list_all_subset [OF Cleanup_set])

lemma good_MergeBackendDelta:
  "good_store env s \<Longrightarrow> good_meta env es \<Longrightarrow> good_store env (MergeBackendDelta s es v)"
  by (simp add: good_store_def good_meta_def wf_intros list_all_Merge)

lemma good_MergeNodeDelta:
  "good_store env s \<Longrightarrow> good_nodes env es \<Longrightarrow> good_store env (MergeNodeDelta s es v)"
  by (simp add: good_store_def good_nodes_def wf_intros list_all_Merge)

lemma good_one_meta: "authentic_meta env m \<Longrightarrow> good_meta env [(bm_ID m, meta_entry m)]"
  by (simp add: good_meta_def meta_entry_def)

lemma good_one_advert: "authentic_advert env a \<Longrightarrow> good_nodes env [(na_ID a, advert_entry a)]"
  by (simp add: good_nodes_def advert_entry_def)

lemma good_Prune: "good_store env s \<Longrightarrow> good_store env (Prune now s)"
  using store_wf_Prune [of s now]
  by (simp add: good_store_def good_meta_def good_nodes_def Prune_def store_wf_def list_all_Cleanup)

lemma good_metrics: "good_store env s \<Longrightarrow> good_store env (ApplyBackendMetrics now s x)"
  using store_wf_metrics [of s now x] by (simp add: good_store_def ApplyBackendMetrics_def)

lemma good_step:
  assumes "good_store env s" and "op_good env e"
  shows "good_store env (store_step env s e)"
proof (cases e)
  case (ApplyMeta m)
  with assms(1) show ?thesis
    by (cases rule: step_ApplyMeta_cases [of env m s])
      (simp_all add: good_MergeBackendDelta good_one_meta)
next
  case (ApplyAdvert a)
  with assms(1) show ?thesis
    by (cases rule: step_ApplyAdvert_cases [of env a s])
      (simp_all add: good_MergeNodeDelta good_one_advert)
qed (use assms in \<open>simp_all add: good_MergeBackendDelta good_MergeNodeDelta good_Prune good_metrics\<close>)

interpretation signed_runs: invariant_system "store_step env" "op_good env" "good_store env" for env
  by unfold_locales (rule good_step)

lemma good_new: "good_store env (NewStore ttl)"
  by (simp add: good_store_def good_meta_def good_nodes_def) (simp add: NewStore_def NewLWWMap_def)

section \<open>Version vectors cover the entries\<close>

definition covered :: "('k, 'v Entry) gomap \<Rightarrow> ('k \<Rightarrow> u64) \<Rightarrow> bool" where
  "covered es c = list_all (\<lambda>(k, e). Lamport (Clk e) \<le> c k) es"

definition store_covered :: "Store \<Rightarrow> bool" where
  "store_covered s \<longleftrightarrow> store_wf s \<and>
     covered (st_meta s) (counter (st_metaVV s)) \<and> covered (st_nodes s) (counter (st_nodeVV s))"

fun op_covered :: "store_op \<Rightarrow> bool" where
  "op_covered (MergeMeta es v) = covered es (counter v)"
| "op_covered (MergeNodes es v) = covered es (counter v)"
| "op_covered e = True"

lemma covered_mono: "covered es c \<Longrightarrow> (\<And>k. c k \<le> d k) \<Longrightarrow> covered es d"
  unfolding covered_def list_all_iff by (fastforce intro: order_trans)

lemma covered_merge:
  assumes "covered m (counter v)" and "covered es (counter delta)"
  shows "covered (fst (lww_Merge m es))
    (counter (if snd (lww_Merge m es) then vv_bump_all v delta else v))"
proof (cases "snd (lww_Merge m es)")
  case True
  have "covered m (counter (vv_bump_all v delta))" "covered es (counter (vv_bump_all v delta))"
    using assms vv_le_bump_all vv_le_delta_bump_all by (auto simp: vv_le_def intro: covered_mono)
  with True show ?thesis by (simp add: covered_def list_all_Merge)
next
  case False
  with assms(1) show ?thesis by (simp add: Merge_unchanged)
qed

lemma covered_step:
  assumes "store_covered s" and "op_covered e"
  shows "store_covered (store_step env s e)"
proof -
  have backend: "store_covered (MergeBackendDelta s es v)" if "covered es (counter v)" for es v
    using assms(1) covered_merge [OF _ that] by (simp add: store_covered_def wf_intros)
  have node: "store_covered (MergeNodeDelta s es v)" if "covered es (counter v)" for es v
    using assms(1) covered_merge [OF _ that] by (simp add: store_covered_def wf_intros)
  show ?thesis
  proof (cases e)
    case (ApplyMeta m)
    with assms(1) show ?thesis
      by (cases rule: step_ApplyMeta_cases [of env m s])
        (simp_all add: backend covered_def meta_entry_def meta_clock_def go_get_def)
  next
    case (ApplyAdvert a)
    with assms(1) show ?thesis
      by (cases rule: step_ApplyAdvert_cases [of env a s])
        (simp_all add: node covered_def advert_entry_def advert_clock_def go_get_def)
  next
    case (PruneAt now)
    with assms(1) store_wf_Prune [of s now] show ?thesis
      by (simp add: store_covered_def covered_def Prune_def store_wf_def list_all_Cleanup)
  next
    case (ApplyMetrics now x)
    with assms(1) store_wf_metrics [of s now x] show ?thesis
      by (simp add: store_covered_def ApplyBackendMetrics_def)
  qed (use assms in \<open>simp_all add: backend node\<close>)
qed

interpretation cover_runs: invariant_system "store_step env" op_covered store_covered for env
  by unfold_locales (rule covered_step)

lemma covered_new: "store_covered (NewStore ttl)"
  by (simp add: store_covered_def covered_def) (simp add: NewStore_def NewLWWMap_def)

section \<open>Announcements in any order\<close>

abbreviation announce :: "BackendMeta \<Rightarrow> (BackendID, BackendMeta Entry) gomap" where
  "announce m \<equiv> [(bm_ID m, meta_entry m)]"

definition apply_metas :: "reg_env \<Rightarrow> Store \<Rightarrow> BackendMeta list \<Rightarrow> Store" where
  "apply_metas env s ms = foldl (\<lambda>s m. fst (ApplyBackendMeta env s m)) s ms"

text \<open>Applying announcements is anti-entropy with the one-entry states of the authentic ones.\<close>

lemma apply_metas_deliver:
  "st_meta (apply_metas env s ms) =
   lww_deliver (st_meta s) (map announce (filter (authentic_meta env) ms))"
proof (induction ms arbitrary: s)
  case (Cons m ms)
  have "apply_metas env s (m # ms) = apply_metas env (fst (ApplyBackendMeta env s m)) ms"
    by (simp add: apply_metas_def)
  with Cons show ?case
    by (cases "authentic_meta env m")
      (simp_all add: Apply_meta_authentic Apply_meta_rejected lww_deliver_def)
qed (simp add: apply_metas_def lww_deliver_def)

section \<open>Metrics\<close>

lemma LatestMetrics_map:
  assumes "go_wf (st_metrics s)"
  shows "map_of (LatestMetrics s) i = map_option tm_value (map_of (st_metrics s) i)"
proof -
  let ?vals = "map (\<lambda>(id, t). (id, tm_value t)) (st_metrics s)"
  have "LatestMetrics s = foldl (\<lambda>cp (k, v). go_set cp k v) [] ?vals"
    by (simp add: LatestMetrics_def foldl_map case_prod_unfold)
  moreover have "go_wf ?vals" using assms by (simp add: case_prod_unfold comp_def)
  ultimately have "LatestMetrics s = ?vals" using foldl_go_set [of "[]" ?vals] by simp
  then show ?thesis by (simp add: map_of_map)
qed

section \<open>Properties\<close>

text \<open>
  C7. Only signed records are served. In a store that started empty and took part in any mix of
  announcements, metrics, pruning and merges with peers whose own entries are signed, every live
  backend record verifies under its own key, sits under its own identifier and carries the clock
  computed from its own fields; the same holds of the node adverts.
\<close>

theorem store_only_signed:
  assumes "list_all (op_good env) ops"
  shows "let s = foldl (store_step env) (NewStore ttl) ops in
    (\<forall>i e. map_of (st_meta s) i = Some e \<and> \<not> Tombstone e \<longrightarrow>
       authentic_meta env (Value e) \<and> bm_ID (Value e) = i \<and> Clk e = meta_clock (Value e)) \<and>
    (\<forall>i e. map_of (st_nodes s) i = Some e \<and> \<not> Tombstone e \<longrightarrow>
       authentic_advert env (Value e) \<and> na_ID (Value e) = i \<and> Clk e = advert_clock (Value e))"
  using signed_runs.run_inv [OF good_new assms, of ttl]
  by (fastforce simp: Let_def good_store_def good_meta_def good_nodes_def list_all_iff
      dest: map_of_SomeD)

text \<open>A concrete environment: the encoder returns the identifier's length, the check compares.\<close>

definition demo_env :: reg_env where
  "demo_env = \<lparr>cbor_meta = (\<lambda>m. Inr [of_nat (length (sm_ID m))]),
     cbor_advert = (\<lambda>a. Inr [of_nat (length (sa_ID a))]),
     cbor_metrics = (\<lambda>x. Inr [of_nat (length (sx_ID x))]),
     ed25519_Verify = (\<lambda>pk msg sig. sig = msg)\<rparr>"

definition demo_meta :: "string \<Rightarrow> u64 \<Rightarrow> bytes \<Rightarrow> BackendMeta" where
  "demo_meta i c sig = \<lparr>bm_ID = i, bm_Host = ''h'', bm_IPs = [], bm_Country = ''DE'',
     bm_Region = ''eu'', bm_ChainID = ''c1'', bm_Caps = [(''rpc'', True)], bm_Archival = False,
     bm_OwnerPK = replicate 32 0, bm_AddedAt = 5, bm_Sig = sig, bm_Clock = c\<rparr>"

theorem store_only_signed_witness:
  "authentic_meta demo_env (demo_meta ''b1'' 1 [2]) \<and>
   map_of (st_meta (foldl (store_step demo_env) (NewStore 0)
     [ApplyMeta (demo_meta ''b1'' 1 [2]), ApplyMeta (demo_meta ''b2'' 1 [7])])) ''b2'' = None"
  using store_only_signed [of demo_env
      "[ApplyMeta (demo_meta ''b1'' 1 [2]), ApplyMeta (demo_meta ''b2'' 1 [7])]" 0]
  by (simp add: Let_def ApplyBackendMeta_def CanonicalBackendMeta_def demo_env_def demo_meta_def
      PublicKeySize_def NewStore_def NewLWWMap_def lww_Upsert_def meta_clock_def authentic_meta_def
      NewVersionVector_def)

text \<open>
  C39. A forged record has two fates. Announced, it is refused and the store stays as it was; put
  into the delta of an anti-entropy answer, the same record replaces whatever the store held with
  an older or equal clock, and lookups serve it.
\<close>

theorem merge_accepts_forged:
  assumes "\<not> authentic_meta env m" and "wins (map_of (st_meta s)) (bm_ID m) (meta_entry m)"
  shows "fst (ApplyBackendMeta env s m) = s \<and> isl (snd (ApplyBackendMeta env s m))
    \<and> lww_Get (st_meta (MergeBackendDelta s (announce m) v)) (bm_ID m) = Some m"
  using assms Apply_meta_rejected [OF assms(1), of s]
  by (cases "map_of (st_meta s) (bm_ID m)")
    (simp_all add: map_of_Merge lww_join_def pick_def lww_Get_def wins_def meta_entry_def)

theorem merge_accepts_forged_witness:
  "snd (ApplyBackendMeta demo_env (NewStore 0) (demo_meta ''b1'' 1 [9])) = Inl errInvalidSignature
   \<and> lww_Get (st_meta (MergeBackendDelta (NewStore 0) (announce (demo_meta ''b1'' 1 [9])) []))
       ''b1'' = Some (demo_meta ''b1'' 1 [9])"
  using merge_accepts_forged [of demo_env "demo_meta ''b1'' 1 [9]" "NewStore 0" "[]"]
  by (simp add: ApplyBackendMeta_def CanonicalBackendMeta_def demo_env_def demo_meta_def
      PublicKeySize_def NewStore_def NewLWWMap_def authentic_meta_def wins_def)

text \<open>
  Announcements commute. Two fresh stores that receive the same backend announcements, in any
  order and any number of times, hold the same records, provided no owner signs two different
  records with one identifier and clock.
\<close>

theorem announcements_converge:
  assumes "set ms = set ms'" and "conflict_free (map announce (filter (authentic_meta env) ms))"
  shows "map_of (st_meta (apply_metas env (NewStore ttl) ms)) =
         map_of (st_meta (apply_metas env (NewStore ttl') ms'))"
proof -
  let ?a = "map announce (filter (authentic_meta env) ms)"
    and ?b = "map announce (filter (authentic_meta env) ms')"
  obtain f where "\<forall>m \<in> set ?a. map_of m \<in> lww_history f"
    using conflict_free_history [OF assms(2)] by blast
  then have "foldl lww_join Map.empty (map map_of ?a) = foldl lww_join Map.empty (map map_of ?b)"
    using assms(1) by (intro hist.deliver_converges [of _ f]) (auto simp: lww_history_def)
  moreover have "list_all go_wf ?a" "list_all go_wf ?b" by (simp_all add: list_all_iff)
  ultimately show ?thesis
    by (simp add: apply_metas_deliver lww_deliver_map NewStore_def NewLWWMap_def)
qed

theorem announcements_converge_witness:
  "map_of (st_meta (apply_metas demo_env (NewStore 0) [demo_meta ''b1'' 1 [2], demo_meta ''b1'' 4 [2]])) =
   map_of (st_meta (apply_metas demo_env (NewStore 9)
     [demo_meta ''b1'' 4 [2], demo_meta ''b1'' 1 [2], demo_meta ''b1'' 4 [2]]))"
  by (rule announcements_converge)
    (auto simp: conflict_free_def meta_entry_def meta_clock_def demo_meta_def)

text \<open>
  The version vector a store advertises covers what it holds: along any run whose merged
  deltas are themselves covered by the vector sent with them, no entry has a Lamport clock above
  the counter of its key.
\<close>

theorem version_vector_covers:
  assumes "list_all op_covered ops"
  shows "let s = foldl (store_step env) (NewStore ttl) ops in
    (\<forall>i e. map_of (st_meta s) i = Some e \<longrightarrow>
       Lamport (Clk e) \<le> go_get 0 (BackendVersionVector s) i) \<and>
    (\<forall>i e. map_of (st_nodes s) i = Some e \<longrightarrow>
       Lamport (Clk e) \<le> go_get 0 (NodeVersionVector s) i)"
  using cover_runs.run_inv [OF covered_new assms, of env ttl]
  by (fastforce simp: Let_def store_covered_def covered_def list_all_iff BackendVersionVector_def
      NodeVersionVector_def store_wf_def dest: map_of_SomeD)

theorem version_vector_covers_witness:
  "1 \<le> go_get 0 (BackendVersionVector (foldl (store_step demo_env) (NewStore 0)
     [ApplyMeta (demo_meta ''b1'' 1 [2])])) ''b1''"
  using version_vector_covers [of "[ApplyMeta (demo_meta ''b1'' 1 [2])]" demo_env 0,
      unfolded Let_def, THEN conjunct1, THEN spec, of "''b1''"]
  by (simp add: Let_def ApplyBackendMeta_def CanonicalBackendMeta_def demo_env_def demo_meta_def
      PublicKeySize_def NewStore_def NewLWWMap_def lww_Upsert_def meta_clock_def)

text \<open>
  The advertised vectors never shrink: along any sequence of operations, from any well-formed
  store, every counter of both version vectors stays or grows, in the order \<^verbatim>\<open>Compare\<close> decides.
\<close>

theorem version_vectors_grow:
  assumes "store_wf s"
  shows "store_vv_le s (foldl (store_step env) s ops) \<and> store_wf (foldl (store_step env) s ops)"
  using store_vv_runs.run_le [OF assms] store_runs.run_inv [OF assms] by simp

theorem version_vectors_grow_witness:
  "store_vv_le (NewStore 0) (foldl (store_step demo_env) (NewStore 0)
     [ApplyMeta (demo_meta ''b1'' 1 [2]), PruneAt 7, MergeMeta [] [(''b1'', 3)]])"
  using version_vectors_grow [of "NewStore 0" demo_env
      "[ApplyMeta (demo_meta ''b1'' 1 [2]), PruneAt 7, MergeMeta [] [(''b1'', 3)]]"] by simp

text \<open>
  After \<^verbatim>\<open>Prune\<close> at the instant \<open>now\<close>, \<^verbatim>\<open>LatestMetrics\<close> reports exactly the samples that
  were received at most one TTL ago, and the samples it reports are the ones that were stored.
\<close>

theorem Prune_keeps_fresh:
  assumes "store_wf s"
  shows "map_of (LatestMetrics (Prune now s)) i = Some x \<longleftrightarrow>
    (\<exists>t. map_of (st_metrics s) i = Some \<lparr>tm_value = x, tm_receivedAt = t\<rparr> \<and>
         time_Sub now t \<le> st_metricsTTL s)"
proof -
  have wf: "go_wf (st_metrics s)" and wf': "go_wf (st_metrics (Prune now s))"
    using assms by (auto simp: store_wf_def Prune_def)
  have "map_of (LatestMetrics (Prune now s)) i = (case map_of (st_metrics s) i of None \<Rightarrow> None
      | Some m \<Rightarrow> if time_Sub now (tm_receivedAt m) > st_metricsTTL s then None else Some (tm_value m))"
    unfolding LatestMetrics_map [OF wf'] by (simp add: Prune_def map_of_range_delete [OF wf] split: option.splits)
  moreover have "(\<exists>t. m = \<lparr>tm_value = x, tm_receivedAt = t\<rparr> \<and> time_Sub now t \<le> d) \<longleftrightarrow>
      tm_value m = x \<and> time_Sub now (tm_receivedAt m) \<le> d" for m :: timedMetric and d
    by (cases m) auto
  ultimately show ?thesis by (auto split: option.splits if_splits)
qed

definition demo_metrics :: "string \<Rightarrow> int \<Rightarrow> BackendMetrics" where
  "demo_metrics i h = \<lparr>mx_ID = i, mx_AtUnix = 0, mx_Height = h, mx_CatchingUp = False, mx_CPU = 0,
     mx_P95ms = 0, mx_RPS = 0, mx_FailRate = 0, mx_RTTms = 0, mx_Health = ''up'', mx_Sig = []\<rparr>"

theorem Prune_keeps_fresh_witness:
  "map_of (LatestMetrics (Prune (15 * second)
     (ApplyBackendMetrics 0 (NewStore 0) (demo_metrics ''b1'' 4)))) ''b1'' \<noteq> Some (demo_metrics ''b1'' 4)"
  using Prune_keeps_fresh [of "ApplyBackendMetrics 0 (NewStore 0) (demo_metrics ''b1'' 4)"
      "15 * second" "''b1''" "demo_metrics ''b1'' 4"]
  by (simp add: store_wf_metrics)
    (simp add: ApplyBackendMetrics_def NewStore_def demo_metrics_def time_Sub_def second_def)

text \<open>
  The clock built from an owner's timestamp follows it only while the conversion to
  nanoseconds fits an \<^verbatim>\<open>int64\<close>: two records with the same Lamport counter are ordered by their
  \<^verbatim>\<open>AddedAt\<close> up to the year 2262, and the second after that is ordered before every earlier one.
\<close>

theorem meta_clock_order:
  "(bm_Clock a = bm_Clock b \<and> is_i64 (bm_AddedAt a * second) \<and> is_i64 (bm_AddedAt b * second) \<longrightarrow>
     (meta_clock a \<le> meta_clock b \<longleftrightarrow> bm_AddedAt a \<le> bm_AddedAt b)) \<and>
   (bm_Clock a = bm_Clock b \<and> 0 \<le> bm_AddedAt a \<and> is_i64 (bm_AddedAt a * second) \<and>
     bm_AddedAt b = 9223372037 \<longrightarrow> meta_clock b < meta_clock a)"
  by (auto simp: meta_clock_def less_eq_Clock_def less_Clock_def second_def wrap_i64_def is_i64_def)

theorem meta_clock_order_witness:
  "meta_clock (demo_meta ''b1'' 1 [] \<lparr>bm_AddedAt := 9223372037\<rparr>) < meta_clock (demo_meta ''b1'' 1 [])"
  using meta_clock_order [of "demo_meta ''b1'' 1 []" "demo_meta ''b1'' 1 [] \<lparr>bm_AddedAt := 9223372037\<rparr>"]
  by (simp add: demo_meta_def is_i64_def second_def)

end
