(* ===== verification/Geo_Score.thy ===== *)
theory Geo_Score
  imports Complex_Main Net_IP
begin

text \<open>
  \<^verbatim>\<open>pkg/geo/geo.go\<close>: locations, the in-memory provider, the great-circle distance and the score
  built from it. \<^verbatim>\<open>float64\<close> is modelled by the reals. A nil pointer is \<open>None\<close>.
\<close>

section \<open>Locations\<close>

record Location =
  Latitude :: real
  Longitude :: real
  Country :: string
  Region :: string
  City :: string
  ASN :: u32

text \<open>The interface \<^verbatim>\<open>GeoProvider\<close>: an error, or a location that may be nil.\<close>

type_synonym geo_lookup = "IP \<Rightarrow> string + Location option"

type_synonym StubProvider = "(string, Location) gomap"

definition location :: "real \<Rightarrow> real \<Rightarrow> string \<Rightarrow> string \<Rightarrow> string \<Rightarrow> Location" where
  "location lat lon country region city =
     \<lparr>Latitude = lat, Longitude = lon, Country = country, Region = region, City = city, ASN = 0\<rparr>"

definition NewStubProvider :: StubProvider where
  "NewStubProvider =
     [(''8.8.8.8'', location 37.4056 (- 122.0775) ''US'' ''CA'' ''Mountain View''),
      (''1.1.1.1'', location (- 33.8688) 151.2093 ''AU'' ''NSW'' ''Sydney''),
      (''208.67.222.222'', location 37.7749 (- 122.4194) ''US'' ''CA'' ''San Francisco''),
      (''2001:4860:4860::8888'', location 37.4056 (- 122.0775) ''US'' ''CA'' ''Mountain View'')]"

definition stub_Lookup :: "StubProvider \<Rightarrow> geo_lookup" where
  "stub_Lookup p ip =
     (case map_of p (IP_String ip) of
        Some loc \<Rightarrow> Inr (Some loc)
      | None \<Rightarrow> Inr (Some (location 0 0 ''ZZ'' ''unknown'' ''unknown'')))"

definition AddMapping :: "StubProvider \<Rightarrow> string \<Rightarrow> Location \<Rightarrow> StubProvider" where
  "AddMapping p ipStr loc = go_set p ipStr loc"

section \<open>Distance\<close>

text \<open>\<^verbatim>\<open>math.Atan2\<close> on finite arguments.\<close>

definition Atan2 :: "real \<Rightarrow> real \<Rightarrow> real" where
  "Atan2 y x =
     (if x > 0 then arctan (y / x)
      else if x < 0 then (if y \<ge> 0 then arctan (y / x) + pi else arctan (y / x) - pi)
      else if y > 0 then pi / 2 else if y < 0 then - pi / 2 else 0)"

definition haversine :: "real \<Rightarrow> real \<Rightarrow> real \<Rightarrow> real \<Rightarrow> real" where
  "haversine lat1 lon1 lat2 lon2 =
     (let lat1Rad = lat1 * pi / 180;
          lat2Rad = lat2 * pi / 180;
          deltaLat = (lat2 - lat1) * pi / 180;
          deltaLon = (lon2 - lon1) * pi / 180
      in sin (deltaLat / 2) * sin (deltaLat / 2) +
         cos lat1Rad * cos lat2Rad * sin (deltaLon / 2) * sin (deltaLon / 2))"

definition Distance :: "real \<Rightarrow> real \<Rightarrow> real \<Rightarrow> real \<Rightarrow> real" where
  "Distance lat1 lon1 lat2 lon2 =
     (let a = haversine lat1 lon1 lat2 lon2;
          c = 2 * Atan2 (sqrt a) (sqrt (1 - a))
      in 6371 * c)"

definition DistanceBetween :: "Location option \<Rightarrow> Location option \<Rightarrow> real" where
  "DistanceBetween a b =
     (case (a, b) of
        (Some a, Some b) \<Rightarrow> Distance (Latitude a) (Longitude a) (Latitude b) (Longitude b)
      | _ \<Rightarrow> 0)"

section \<open>Scores\<close>

definition GeoPenalty :: "real \<Rightarrow> real" where
  "GeoPenalty distanceKm =
     (if distanceKm \<le> 0 then 0 else if distanceKm \<ge> 20000 then 1 else distanceKm / 20000)"

definition CountryMatch :: "Location option \<Rightarrow> Location option \<Rightarrow> real" where
  "CountryMatch a b =
     (case (a, b) of
        (Some a, Some b) \<Rightarrow>
          if Country a = Country b \<and> Country a \<noteq> [] \<and> Country a \<noteq> ''ZZ'' then 0.2 else 0
      | _ \<Rightarrow> 0)"

definition RegionMatch :: "Location option \<Rightarrow> Location option \<Rightarrow> real" where
  "RegionMatch a b =
     (case (a, b) of
        (Some a, Some b) \<Rightarrow>
          if Country a = Country b \<and> Region a = Region b \<and> Region a \<noteq> [] \<and> Region a \<noteq> ''unknown''
          then 0.3 else 0
      | _ \<Rightarrow> 0)"

definition ASNMatch :: "Location option \<Rightarrow> Location option \<Rightarrow> real" where
  "ASNMatch a b =
     (case (a, b) of
        (Some a, Some b) \<Rightarrow> if ASN a = ASN b \<and> ASN a \<noteq> 0 then 0.4 else 0
      | _ \<Rightarrow> 0)"

definition TotalGeoScore :: "Location option \<Rightarrow> Location option \<Rightarrow> real" where
  "TotalGeoScore client backend =
     (let penalty = GeoPenalty (DistanceBetween client backend);
          bonus = CountryMatch client backend + RegionMatch client backend + ASNMatch client backend;
          score = penalty - bonus
      in if score < 0 then 0 else score)"

section \<open>The haversine formula\<close>

definition on_earth :: "Location \<Rightarrow> bool" where
  "on_earth l \<longleftrightarrow> \<bar>Latitude l\<bar> \<le> 90"

lemma cos_latitude_nonneg: "\<bar>lat\<bar> \<le> 90 \<Longrightarrow> 0 \<le> cos (lat * pi / 180)"
proof -
  assume "\<bar>lat\<bar> \<le> 90"
  then have "- 90 * pi \<le> lat * pi" "lat * pi \<le> 90 * pi"
    by (intro mult_right_mono; simp add: abs_le_iff)+
  then show ?thesis by (intro cos_ge_zero) (simp_all add: field_simps)
qed

lemma haversine_bounds:
  assumes "\<bar>lat1\<bar> \<le> 90" and "\<bar>lat2\<bar> \<le> 90"
  shows "0 \<le> haversine lat1 lon1 lat2 lon2" and "haversine lat1 lon1 lat2 lon2 \<le> 1"
proof -
  define u v w d where "u = lat1 * pi / 180" and "v = lat2 * pi / 180"
    and "w = (lon2 - lon1) * pi / 180 / 2" and "d = (lat2 - lat1) * pi / 180 / 2"
  have h: "haversine lat1 lon1 lat2 lon2 = (sin d)\<^sup>2 + cos u * cos v * (sin w)\<^sup>2"
    by (simp add: haversine_def u_def v_def w_def d_def power2_eq_square)
  have uv: "0 \<le> cos u * cos v"
    using cos_latitude_nonneg [OF assms(1)] cos_latitude_nonneg [OF assms(2)] by (simp add: u_def v_def)
  then show "0 \<le> haversine lat1 lon1 lat2 lon2" by (simp add: h)
  have "2 * d = v - u" by (simp add: d_def u_def v_def field_simps)
  then have "(sin d)\<^sup>2 = (1 - cos (v - u)) / 2"
    using cos_double_sin [of d] by simp
  moreover have "cos u * cos v * (sin w)\<^sup>2 \<le> cos u * cos v"
    using uv by (intro mult_right_le_one_le) (simp_all add: abs_square_le_1)
  moreover have "cos u * cos v = (cos (v - u) + cos (v + u)) / 2"
    by (simp add: cos_add cos_diff)
  ultimately have "haversine lat1 lon1 lat2 lon2 \<le> (1 - cos (v - u)) / 2 + (cos (v - u) + cos (v + u)) / 2"
    unfolding h by (metis add_mono order_refl)
  also have "\<dots> = (1 + cos (v + u)) / 2" by (simp add: field_simps)
  also have "\<dots> \<le> 1" using cos_le_one [of "v + u"] by simp
  finally show "haversine lat1 lon1 lat2 lon2 \<le> 1" .
qed

lemma haversine_sym: "haversine lat2 lon2 lat1 lon1 = haversine lat1 lon1 lat2 lon2"
proof -
  have "(lat1 - lat2) * pi / 180 / 2 = - ((lat2 - lat1) * pi / 180 / 2)"
    "(lon1 - lon2) * pi / 180 / 2 = - ((lon2 - lon1) * pi / 180 / 2)"
    by (simp_all add: field_simps)
  then show ?thesis unfolding haversine_def Let_def by simp
qed

lemma Atan2_first_quadrant:
  assumes "0 \<le> y" and "0 \<le> x"
  shows "0 \<le> Atan2 y x" and "Atan2 y x \<le> pi / 2"
proof -
  show "0 \<le> Atan2 y x" using assms by (simp add: Atan2_def)
  show "Atan2 y x \<le> pi / 2"
    using assms arctan_ubound [of "y / x"] by (auto simp: Atan2_def less_imp_le)
qed

lemma Distance_bounds:
  assumes "\<bar>lat1\<bar> \<le> 90" and "\<bar>lat2\<bar> \<le> 90"
  shows "0 \<le> Distance lat1 lon1 lat2 lon2" and "Distance lat1 lon1 lat2 lon2 \<le> 6371 * pi"
  using haversine_bounds [OF assms, of lon1 lon2]
    Atan2_first_quadrant [of "sqrt (haversine lat1 lon1 lat2 lon2)" "sqrt (1 - haversine lat1 lon1 lat2 lon2)"]
  by (simp_all add: Distance_def Let_def)

lemma Distance_sym: "Distance lat2 lon2 lat1 lon1 = Distance lat1 lon1 lat2 lon2"
  by (simp add: Distance_def haversine_sym [of lat2 lon2])

lemma DistanceBetween_sym: "DistanceBetween b a = DistanceBetween a b"
  by (auto simp: DistanceBetween_def Distance_sym split: option.split)

lemma match_sym:
  "CountryMatch b a = CountryMatch a b" "RegionMatch b a = RegionMatch a b" "ASNMatch b a = ASNMatch a b"
  by (auto simp: CountryMatch_def RegionMatch_def ASNMatch_def split: option.split)

lemma match_nonneg: "0 \<le> CountryMatch a b" "0 \<le> RegionMatch a b" "0 \<le> ASNMatch a b"
  by (auto simp: CountryMatch_def RegionMatch_def ASNMatch_def split: option.split)

lemma TotalGeoScore_range: "0 \<le> TotalGeoScore a b \<and> TotalGeoScore a b \<le> 1"
  using match_nonneg [of a b] by (auto simp: TotalGeoScore_def Let_def GeoPenalty_def)

lemma GeoPenalty_mono: "d \<le> d' \<Longrightarrow> GeoPenalty d \<le> GeoPenalty d'"
  by (simp add: GeoPenalty_def divide_right_mono)

lemma Distance_same: "Distance lat lon lat lon = 0"
  by (simp add: Distance_def haversine_def Atan2_def)

section \<open>Properties\<close>

text \<open>
  The geographic score is sound. On points with a valid latitude the haversine distance is
  symmetric, never negative and at most half the circumference; the score is symmetric, lies
  between 0 and 1, is 0 at the same place, and of two backends with the same country, region and
  network the nearer one never scores worse.
\<close>

theorem geo_score_sound:
  assumes "on_earth a" and "on_earth b"
  shows "0 \<le> DistanceBetween (Some a) (Some b) \<and> DistanceBetween (Some a) (Some b) \<le> 6371 * pi
    \<and> DistanceBetween (Some b) (Some a) = DistanceBetween (Some a) (Some b)
    \<and> TotalGeoScore (Some b) (Some a) = TotalGeoScore (Some a) (Some b)
    \<and> 0 \<le> TotalGeoScore (Some a) (Some b) \<and> TotalGeoScore (Some a) (Some b) \<le> 1
    \<and> TotalGeoScore (Some a) (Some a) = 0
    \<and> (\<forall>c. Country c = Country b \<and> Region c = Region b \<and> ASN c = ASN b \<and>
          DistanceBetween (Some a) (Some b) \<le> DistanceBetween (Some a) (Some c) \<longrightarrow>
          TotalGeoScore (Some a) (Some b) \<le> TotalGeoScore (Some a) (Some c))"
proof (intro conjI allI impI)
  show "0 \<le> DistanceBetween (Some a) (Some b)" "DistanceBetween (Some a) (Some b) \<le> 6371 * pi"
    using Distance_bounds assms by (simp_all add: DistanceBetween_def on_earth_def)
  show "DistanceBetween (Some b) (Some a) = DistanceBetween (Some a) (Some b)"
    "TotalGeoScore (Some b) (Some a) = TotalGeoScore (Some a) (Some b)"
    by (simp_all add: TotalGeoScore_def DistanceBetween_sym [of "Some b"] match_sym [of "Some b"])
  show "0 \<le> TotalGeoScore (Some a) (Some b)" "TotalGeoScore (Some a) (Some b) \<le> 1"
    using TotalGeoScore_range by blast+
  show "TotalGeoScore (Some a) (Some a) = 0"
    using match_nonneg [of "Some a" "Some a"]
    by (simp add: TotalGeoScore_def DistanceBetween_def Distance_same GeoPenalty_def Let_def)
next
  fix c
  assume c: "Country c = Country b \<and> Region c = Region b \<and> ASN c = ASN b \<and>
    DistanceBetween (Some a) (Some b) \<le> DistanceBetween (Some a) (Some c)"
  then have "CountryMatch (Some a) (Some c) = CountryMatch (Some a) (Some b)"
    "RegionMatch (Some a) (Some c) = RegionMatch (Some a) (Some b)"
    "ASNMatch (Some a) (Some c) = ASNMatch (Some a) (Some b)"
    by (simp_all add: CountryMatch_def RegionMatch_def ASNMatch_def)
  then show "TotalGeoScore (Some a) (Some b) \<le> TotalGeoScore (Some a) (Some c)"
    using GeoPenalty_mono [of "DistanceBetween (Some a) (Some b)" "DistanceBetween (Some a) (Some c)"] c
    by (simp add: TotalGeoScore_def Let_def)
qed

theorem geo_score_sound_witness:
  "DistanceBetween (Some (location 50 10 ''DE'' [] [])) (Some (location 40 (- 100) ''US'' [] [])) \<le> 6371 * pi"
  using geo_score_sound [of "location 50 10 ''DE'' [] []" "location 40 (- 100) ''US'' [] []"]
  by (simp add: on_earth_def location_def)

end
