(* ===== verification/Go_Sort.thy ===== *)
theory Go_Sort
  imports Main "HOL-Library.Multiset"
begin

text \<open>
  Two idioms of the Go code on slices: \<^verbatim>\<open>sort.Slice\<close>, by what its documentation promises, and the
  loop that skips what a \<^verbatim>\<open>seen\<close> map already holds.
\<close>

section \<open>Dropping duplicates\<close>

fun dedup :: "('a \<Rightarrow> 'b) \<Rightarrow> 'b set \<Rightarrow> 'a list \<Rightarrow> 'a list" where
  "dedup f S [] = []"
| "dedup f S (x # xs) = (if f x \<in> S then dedup f S xs else x # dedup f (insert (f x) S) xs)"

lemma dedup_append: "dedup f S (xs @ ys) = dedup f S xs @ dedup f (S \<union> f ` set xs) ys"
  by (induction xs arbitrary: S) (auto simp: insert_absorb)

lemma dedup_subset: "set (dedup f S xs) \<subseteq> set xs"
  by (induction xs arbitrary: S) auto

lemma dedup_image: "f ` set (dedup f S xs) = f ` set xs - S"
  by (induction xs arbitrary: S) auto

lemma dedup_distinct: "distinct (map f (dedup f S xs))"
proof (induction xs arbitrary: S)
  case (Cons x xs)
  have "f x \<notin> f ` set (dedup f (insert (f x) S) xs)" by (simp add: dedup_image)
  with Cons show ?case by auto
qed simp

lemma dedup_id: "distinct (map f xs) \<Longrightarrow> S \<inter> f ` set xs = {} \<Longrightarrow> dedup f S xs = xs"
  by (induction xs arbitrary: S) auto

lemma length_dedup: "length (dedup f {} xs) = card (f ` set xs)"
  using distinct_card [OF dedup_distinct [of f "{}" xs]] by (simp add: dedup_image)

section \<open>Sorting\<close>

text \<open>What the documentation of \<^verbatim>\<open>sort.Slice\<close> promises.\<close>

definition strict_weak :: "('a \<Rightarrow> 'a \<Rightarrow> bool) \<Rightarrow> 'a set \<Rightarrow> bool" where
  "strict_weak lt S \<longleftrightarrow>
     (\<forall>a \<in> S. \<not> lt a a) \<and>
     (\<forall>a \<in> S. \<forall>b \<in> S. \<forall>c \<in> S. lt a b \<longrightarrow> lt b c \<longrightarrow> lt a c) \<and>
     (\<forall>a \<in> S. \<forall>b \<in> S. \<forall>c \<in> S. \<not> lt b a \<longrightarrow> \<not> lt c b \<longrightarrow> \<not> lt c a)"

definition sort_laws :: "(('a \<Rightarrow> 'a \<Rightarrow> bool) \<Rightarrow> 'a list \<Rightarrow> 'a list) \<Rightarrow> bool" where
  "sort_laws srt \<longleftrightarrow>
     (\<forall>lt xs. mset (srt lt xs) = mset xs \<and>
        (strict_weak lt (set xs) \<longrightarrow> sorted_wrt (\<lambda>a b. \<not> lt b a) (srt lt xs)))"

lemma sort_laws_facts:
  assumes "sort_laws srt"
  shows "set (srt lt xs) = set xs" and "length (srt lt xs) = length xs"
    and "mset (srt lt xs) = mset xs" and "distinct (map f (srt lt xs)) = distinct (map f xs)"
    and "strict_weak lt (set xs) \<Longrightarrow> sorted_wrt (\<lambda>a b. \<not> lt b a) (srt lt xs)"
proof -
  show m: "mset (srt lt xs) = mset xs" using assms by (simp add: sort_laws_def)
  show "set (srt lt xs) = set xs" "length (srt lt xs) = length xs"
    using mset_eq_setD [OF m] mset_eq_length [OF m] by auto
  have "mset (map f (srt lt xs)) = mset (map f xs)" by (simp add: m)
  then show "distinct (map f (srt lt xs)) = distinct (map f xs)" by (rule mset_eq_imp_distinct_iff)
  show "strict_weak lt (set xs) \<Longrightarrow> sorted_wrt (\<lambda>a b. \<not> lt b a) (srt lt xs)"
    using assms by (simp add: sort_laws_def)
qed

text \<open>Insertion sort keeps the promise.\<close>

fun insert_less :: "('a \<Rightarrow> 'a \<Rightarrow> bool) \<Rightarrow> 'a \<Rightarrow> 'a list \<Rightarrow> 'a list" where
  "insert_less lt x [] = [x]"
| "insert_less lt x (y # ys) = (if lt y x then y # insert_less lt x ys else x # y # ys)"

definition insertion_sort :: "('a \<Rightarrow> 'a \<Rightarrow> bool) \<Rightarrow> 'a list \<Rightarrow> 'a list" where
  "insertion_sort lt xs = foldr (insert_less lt) xs []"

lemma mset_insert_less: "mset (insert_less lt x xs) = add_mset x (mset xs)"
  by (induction xs) auto

lemma mset_insertion_sort: "mset (insertion_sort lt xs) = mset xs"
  by (induction xs) (simp_all add: insertion_sort_def mset_insert_less)

lemma strict_weakD:
  assumes "strict_weak lt S"
  shows "a \<in> S \<Longrightarrow> \<not> lt a a"
    and "a \<in> S \<Longrightarrow> b \<in> S \<Longrightarrow> lt a b \<Longrightarrow> \<not> lt b a"
    and "a \<in> S \<Longrightarrow> b \<in> S \<Longrightarrow> c \<in> S \<Longrightarrow> \<not> lt b a \<Longrightarrow> \<not> lt c b \<Longrightarrow> \<not> lt c a"
  using assms unfolding strict_weak_def by metis+

lemma strict_weak_subset: "strict_weak lt S \<Longrightarrow> T \<subseteq> S \<Longrightarrow> strict_weak lt T"
  unfolding strict_weak_def by (intro conjI; meson subsetD)

lemma set_insert_less: "set (insert_less lt x xs) = insert x (set xs)"
  using mset_eq_setD [of "insert_less lt x xs" "x # xs"] by (simp add: mset_insert_less)

lemma sorted_insert_less:
  assumes "strict_weak lt (insert x (set xs))" and "sorted_wrt (\<lambda>a b. \<not> lt b a) xs"
  shows "sorted_wrt (\<lambda>a b. \<not> lt b a) (insert_less lt x xs)"
  using assms
proof (induction xs)
  case (Cons y ys)
  note weak = strict_weakD [OF Cons.prems(1)]
  have "strict_weak lt (insert x (set ys))"
    using Cons.prems(1) by (rule strict_weak_subset) auto
  then have IH: "sorted_wrt (\<lambda>a b. \<not> lt b a) (insert_less lt x ys)"
    using Cons by simp
  show ?case
  proof (cases "lt y x")
    case True
    then have "\<not> lt x y" using weak(2) by simp
    with True IH Cons.prems(2) show ?thesis by (simp add: set_insert_less)
  next
    case False
    then have "\<forall>z \<in> set ys. \<not> lt z x"
      using weak(3) [of x y] Cons.prems(2) by simp
    with False Cons.prems(2) show ?thesis by simp
  qed
qed simp

lemma sorted_insertion_sort:
  "strict_weak lt (set xs) \<Longrightarrow> sorted_wrt (\<lambda>a b. \<not> lt b a) (insertion_sort lt xs)"
proof (induction xs)
  case (Cons x xs)
  have "strict_weak lt (set xs)" using Cons.prems by (rule strict_weak_subset) auto
  moreover have "set (insertion_sort lt xs) = set xs" by (metis mset_insertion_sort set_mset_mset)
  ultimately show ?case
    using Cons sorted_insert_less [of lt x "insertion_sort lt xs"] by (simp add: insertion_sort_def)
qed (simp add: insertion_sort_def)

lemma insertion_sort_laws: "sort_laws insertion_sort"
  by (simp add: sort_laws_def mset_insertion_sort sorted_insertion_sort)

end
