(* ===== verification/Zone_View.thy ===== *)
theory Zone_View
  imports Registry_Store Geo_Score Sip_Hash Go_Sort
begin

text \<open>
  \<^verbatim>\<open>pkg/dnsplugin/provider.go\<close>: the zone that the DNS service derives from the registry. What the
  code calls in \<^verbatim>\<open>miekg/dns\<close> (\<^verbatim>\<open>Fqdn\<close> and the printing of records) is an argument, and so are the
  geo provider, the context that every poll may find cancelled, and \<^verbatim>\<open>sort.Slice\<close>, which only
  promises an order when its comparison is a strict weak order (\<open>sort_laws\<close>). The class of every
  record is IN and is left out.
\<close>

unbundle bit_operations_syntax

section \<open>Records\<close>

type_synonym u16 = "16 word"

datatype qtype = TypeA | TypeAAAA | TypeNS | TypeSOA | TypeHTTPS | TypeOther u16

record RR_Header =
  rh_Name :: string
  rh_Rrtype :: qtype
  rh_Ttl :: u32

record soa =
  soa_Ns :: string
  soa_Mbox :: string
  soa_Serial :: u32
  soa_Refresh :: u32
  soa_Retry :: u32
  soa_Expire :: u32
  soa_Minttl :: u32

datatype svc_param = SVCBAlpn "string list" | SVCBIPv4Hint "IP list" | SVCBIPv6Hint "IP list"

record edns_subnet =
  sn_Family :: u16
  sn_SourceNetmask :: u8
  sn_SourceScope :: u8
  sn_Address :: IP

datatype edns_option = EDNS0_SUBNET edns_subnet | EDNS0_OTHER u16

datatype RR_data =
    RR_A IP
  | RR_AAAA IP
  | RR_NS string
  | RR_SOA soa
  | RR_HTTPS u16 string "svc_param list"
  | RR_OPT "edns_option list"

record RR =
  rr_Hdr :: RR_Header
  rr_Data :: RR_data

section \<open>The view\<close>

record RegistryZoneView =
  zv_store :: Store
  zv_zone :: string
  zv_nsLabels :: "string list"
  zv_ttlNSA :: u32
  zv_ttlService :: u32
  zv_serialCache :: u32
  zv_geoProvider :: "geo_lookup option"
  zv_geoWeight :: real

record RegistryZoneViewConfig =
  zc_Store :: "Store option"
  zc_Zone :: string
  zc_NSLabels :: "string list"
  zc_TTLNSA :: u32
  zc_TTLService :: u32
  zc_GeoProvider :: "geo_lookup option"
  zc_GeoWeight :: real

record edge =
  ed_rr :: RR
  ed_ip :: IP
  ed_nodeID :: NodeID
  ed_geoScore :: real
  ed_hash :: u32

record dns_env =
  de_Fqdn :: "string \<Rightarrow> string"
  de_String :: "RR \<Rightarrow> string"
  de_sort :: "(edge \<Rightarrow> edge \<Rightarrow> bool) \<Rightarrow> edge list \<Rightarrow> edge list"

text \<open>A context, by what the n-th poll of it finds.\<close>

type_synonym poll = "nat \<Rightarrow> string option"

definition NewRegistryZoneView :: "dns_env \<Rightarrow> RegistryZoneViewConfig \<Rightarrow> string + RegistryZoneView" where
  "NewRegistryZoneView de cfg =
     (case zc_Store cfg of
        None \<Rightarrow> Inl ''dnsplugin: registry store required''
      | Some store \<Rightarrow>
          if zc_Zone cfg = [] then Inl ''dnsplugin: zone required''
          else
            let labels = (if zc_NSLabels cfg = [] then [''ns1.'' @ zc_Zone cfg, ''ns2.'' @ zc_Zone cfg]
                          else zc_NSLabels cfg);
                ttlNS = (if zc_TTLNSA cfg = 0 then 30 else zc_TTLNSA cfg);
                ttlSvc = (if zc_TTLService cfg = 0 then 20 else zc_TTLService cfg);
                geoWeight = (if zc_GeoWeight cfg \<le> 0 then 0.5 else zc_GeoWeight cfg);
                geoWeight = (if geoWeight > 1 then 1 else geoWeight)
            in Inr \<lparr>zv_store = store, zv_zone = de_Fqdn de (zc_Zone cfg), zv_nsLabels = labels,
                    zv_ttlNSA = ttlNS, zv_ttlService = ttlSvc, zv_serialCache = 0,
                    zv_geoProvider = zc_GeoProvider cfg, zv_geoWeight = geoWeight\<rparr>)"

section \<open>Scores and hashes\<close>

definition centroids :: "(string \<times> real \<times> real) list" where
  "centroids =
     [(''US'', 39.8283, - 98.5795), (''CA'', 56.1304, - 106.3468), (''GB'', 55.3781, - 3.4360),
      (''DE'', 51.1657, 10.4515), (''FR'', 46.2276, 2.2137), (''NL'', 52.1326, 5.2913),
      (''JP'', 36.2048, 138.2529), (''SG'', 1.3521, 103.8198), (''AU'', - 25.2744, 133.7751),
      (''BR'', - 14.2350, - 51.9253), (''IN'', 20.5937, 78.9629), (''KR'', 35.9078, 127.7669),
      (''HK'', 22.3193, 114.1694), (''CH'', 46.8182, 8.2275), (''SE'', 60.1282, 18.6435),
      (''FI'', 61.9241, 25.7482), (''NO'', 60.4720, 8.4689), (''DK'', 56.2639, 9.5018),
      (''IE'', 53.1424, - 7.6921), (''PL'', 51.9194, 19.1451), (''ES'', 40.4637, - 3.7492),
      (''IT'', 41.8719, 12.5674), (''AT'', 47.5162, 14.5501), (''BE'', 50.5039, 4.4699),
      (''CZ'', 49.8175, 15.4730), (''PT'', 39.3999, - 8.2245), (''RU'', 61.5240, 105.3188),
      (''CN'', 35.8617, 104.1954), (''TW'', 23.6978, 120.9605), (''MY'', 4.2105, 101.9758),
      (''ID'', - 0.7893, 113.9213), (''TH'', 15.8700, 100.9925), (''VN'', 14.0583, 108.2772),
      (''PH'', 12.8797, 121.7740), (''NZ'', - 40.9006, 174.8860), (''ZA'', - 30.5595, 22.9375),
      (''AE'', 23.4241, 53.8478), (''IL'', 31.0461, 34.8516), (''AR'', - 38.4161, - 63.6167),
      (''CL'', - 35.6751, - 71.5430), (''CO'', 4.5709, - 74.2973), (''MX'', 23.6345, - 102.5528)]"

definition countryToApproxLocation :: "string \<Rightarrow> string \<Rightarrow> Location option" where
  "countryToApproxLocation country region =
     (case map_of centroids country of
        Some (lat, lon) \<Rightarrow> Some (location lat lon country region [])
      | None \<Rightarrow> None)"

text \<open>The first advertised address that the provider can place.\<close>

fun node_location :: "geo_lookup \<Rightarrow> IP list \<Rightarrow> Location option" where
  "node_location lookup [] = None"
| "node_location lookup (ip # ips) =
     (case lookup ip of
        Inr (Some loc) \<Rightarrow> if Country loc \<noteq> ''ZZ'' then Some loc else node_location lookup ips
      | _ \<Rightarrow> node_location lookup ips)"

definition calculateNodeGeoScore :: "RegistryZoneView \<Rightarrow> NodeAdvert \<Rightarrow> Location option \<Rightarrow> real" where
  "calculateNodeGeoScore v advert clientLoc =
     (case (zv_geoProvider v, clientLoc) of
        (Some lookup, Some _) \<Rightarrow>
          (let nodeLoc = node_location lookup (na_IPs advert);
               unknown = (case nodeLoc of None \<Rightarrow> True | Some loc \<Rightarrow> Country loc = ''ZZ'');
               nodeLoc = (if unknown \<and> na_Country advert \<noteq> []
                          then countryToApproxLocation (na_Country advert) (na_Region advert)
                          else nodeLoc)
           in case nodeLoc of
                None \<Rightarrow> 0.5
              | Some loc \<Rightarrow> TotalGeoScore clientLoc (Some loc) * zv_geoWeight v)
      | _ \<Rightarrow> 0)"

text \<open>FNV-1a with 32 bits, as \<^verbatim>\<open>hash/fnv\<close> computes it.\<close>

definition fnv32a :: "bytes \<Rightarrow> u32" where
  "fnv32a data = foldl (\<lambda>h b. (h XOR ucast b) * 16777619) 2166136261 data"

definition hashEdge :: "ChainID \<Rightarrow> NodeID \<Rightarrow> IP \<Rightarrow> IP option \<Rightarrow> u32" where
  "hashEdge chain nid ip ecs =
     fnv32a (bytes_of_string chain @ bytes_of_string nid @ ip @ (case ecs of None \<Rightarrow> [] | Some e \<Rightarrow> e))"

definition toRR :: "IP \<Rightarrow> string \<Rightarrow> u32 \<Rightarrow> RR option" where
  "toRR ip zone t =
     (case To4 ip of
        Some v4 \<Rightarrow> Some \<lparr>rr_Hdr = \<lparr>rh_Name = zone, rh_Rrtype = TypeA, rh_Ttl = t\<rparr>, rr_Data = RR_A v4\<rparr>
      | None \<Rightarrow>
          (case To16 ip of
             Some v6 \<Rightarrow> Some \<lparr>rr_Hdr = \<lparr>rh_Name = zone, rh_Rrtype = TypeAAAA, rh_Ttl = t\<rparr>, rr_Data = RR_AAAA v6\<rparr>
           | None \<Rightarrow> None))"

section \<open>Edges\<close>

fun address_loop ::
    "dns_env \<Rightarrow> RegistryZoneView \<Rightarrow> ChainID \<Rightarrow> IP option \<Rightarrow> NodeID \<Rightarrow> NodeAdvert \<Rightarrow> real \<Rightarrow>
     edge list \<Rightarrow> string list \<Rightarrow> IP list \<Rightarrow> edge list \<times> string list" where
  "address_loop de v chain ecs nid advert score edges seen [] = (edges, seen)"
| "address_loop de v chain ecs nid advert score edges seen (ip # ips) =
     (case toRR ip (zv_zone v) (zv_ttlService v) of
        None \<Rightarrow> address_loop de v chain ecs nid advert score edges seen ips
      | Some rr \<Rightarrow>
          let key = de_String de rr
          in if key \<in> set seen then address_loop de v chain ecs nid advert score edges seen ips
             else address_loop de v chain ecs nid advert score
                    (edges @ [\<lparr>ed_rr = rr, ed_ip = ip, ed_nodeID = nid, ed_geoScore = score,
                               ed_hash = hashEdge chain (na_ID advert) ip ecs\<rparr>])
                    (key # seen) ips)"

fun node_loop ::
    "dns_env \<Rightarrow> poll \<Rightarrow> RegistryZoneView \<Rightarrow> ChainID \<Rightarrow> IP option \<Rightarrow> Location option \<Rightarrow> nat \<Rightarrow>
     edge list \<Rightarrow> string list \<Rightarrow> (NodeID, NodeAdvert Entry) gomap \<Rightarrow> string + edge list" where
  "node_loop de ctx v chain ecs clientLoc n edges seen [] = Inr edges"
| "node_loop de ctx v chain ecs clientLoc n edges seen ((nid, entry) # rest) =
     (case ctx n of
        Some err \<Rightarrow> Inl err
      | None \<Rightarrow>
          if Tombstone entry then node_loop de ctx v chain ecs clientLoc (n + 1) edges seen rest
          else let advert = Value entry
               in if \<not> na_NSServing advert then node_loop de ctx v chain ecs clientLoc (n + 1) edges seen rest
                  else if na_IPs advert = [] then node_loop de ctx v chain ecs clientLoc (n + 1) edges seen rest
                  else let score = (if clientLoc \<noteq> None \<and> zv_geoProvider v \<noteq> None
                                    then calculateNodeGeoScore v advert clientLoc else 0);
                           (edges', seen') = address_loop de v chain ecs nid advert score edges seen (na_IPs advert)
                       in node_loop de ctx v chain ecs clientLoc (n + 1) edges' seen' rest)"

definition edge_less :: "edge \<Rightarrow> edge \<Rightarrow> bool" where
  "edge_less a b =
     (if \<bar>ed_geoScore a - ed_geoScore b\<bar> > 0.01 then ed_geoScore a < ed_geoScore b
      else ed_hash a < ed_hash b)"

definition client_location :: "RegistryZoneView \<Rightarrow> IP option \<Rightarrow> Location option" where
  "client_location v ecs =
     (case (zv_geoProvider v, ecs) of
        (Some lookup, Some ip) \<Rightarrow> (case lookup ip of Inr loc \<Rightarrow> loc | Inl _ \<Rightarrow> None)
      | _ \<Rightarrow> None)"

definition EdgeRecords ::
    "dns_env \<Rightarrow> poll \<Rightarrow> RegistryZoneView \<Rightarrow> ChainID \<Rightarrow> int \<Rightarrow> IP option \<Rightarrow> string + RR list" where
  "EdgeRecords de ctx v chain mx ecs =
     (case ctx 0 of
        Some err \<Rightarrow> Inl err
      | None \<Rightarrow>
          (let entries = fst (NodeSnapshot (zv_store v));
               clientLoc = client_location v ecs
           in case node_loop de ctx v chain ecs clientLoc 1 [] [] entries of
                Inl err \<Rightarrow> Inl err
              | Inr edges \<Rightarrow>
                  if edges = [] then Inr []
                  else let edges = de_sort de edge_less edges;
                           edges = (if mx > 0 \<and> int (length edges) > mx then take (nat mx) edges else edges)
                       in Inr (map ed_rr edges)))"

section \<open>Name servers and serial\<close>

definition NSRecords :: "dns_env \<Rightarrow> poll \<Rightarrow> RegistryZoneView \<Rightarrow> string + RR list" where
  "NSRecords de ctx v =
     (case ctx 0 of
        Some err \<Rightarrow> Inl err
      | None \<Rightarrow>
          Inr (map (\<lambda>label. \<lparr>rr_Hdr = \<lparr>rh_Name = zv_zone v, rh_Rrtype = TypeNS, rh_Ttl = zv_ttlNSA v\<rparr>,
                             rr_Data = RR_NS (de_Fqdn de label)\<rparr>) (zv_nsLabels v)))"

definition mathMaxUint32 :: u32 where
  "mathMaxUint32 = NOT 0"

definition vv_sum :: "vv \<Rightarrow> u64" where
  "vv_sum snapshot = foldl (\<lambda>sum (_, value). sum + value) 0 snapshot"

definition ZoneSerial :: "time \<Rightarrow> RegistryZoneView \<Rightarrow> RegistryZoneView \<times> u32" where
  "ZoneSerial now v =
     (let sum = vv_sum (NodeVersionVector (zv_store v))
      in if sum = 0 then (let t = word_of_int (Unix now) in (v\<lparr>zv_serialCache := t\<rparr>, t))
         else let serial = ucast (sum mod ucast mathMaxUint32);
                  prev = zv_serialCache v;
                  serial = (if serial \<le> prev
                            then (if prev = mathMaxUint32 then prev else prev + 1)
                            else serial)
              in (v\<lparr>zv_serialCache := serial\<rparr>, serial))"

section \<open>What the loops compute\<close>

text \<open>The edges an entry offers, before duplicates are dropped.\<close>

definition edge_of ::
    "RegistryZoneView \<Rightarrow> ChainID \<Rightarrow> IP option \<Rightarrow> NodeID \<Rightarrow> NodeAdvert \<Rightarrow> real \<Rightarrow> IP \<Rightarrow> edge option" where
  "edge_of v chain ecs nid advert score ip =
     map_option (\<lambda>rr. \<lparr>ed_rr = rr, ed_ip = ip, ed_nodeID = nid, ed_geoScore = score,
                       ed_hash = hashEdge chain (na_ID advert) ip ecs\<rparr>)
       (toRR ip (zv_zone v) (zv_ttlService v))"

definition node_score :: "RegistryZoneView \<Rightarrow> Location option \<Rightarrow> NodeAdvert \<Rightarrow> real" where
  "node_score v clientLoc advert =
     (if clientLoc \<noteq> None \<and> zv_geoProvider v \<noteq> None then calculateNodeGeoScore v advert clientLoc else 0)"

definition offers :: "NodeAdvert Entry \<Rightarrow> IP list" where
  "offers entry = (if Tombstone entry \<or> \<not> na_NSServing (Value entry) then [] else na_IPs (Value entry))"

definition entry_edges ::
    "RegistryZoneView \<Rightarrow> ChainID \<Rightarrow> IP option \<Rightarrow> Location option \<Rightarrow> NodeID \<times> NodeAdvert Entry \<Rightarrow> edge list" where
  "entry_edges v chain ecs clientLoc =
     (\<lambda>(nid, entry). List.map_filter
        (edge_of v chain ecs nid (Value entry) (node_score v clientLoc (Value entry))) (offers entry))"

definition offered :: "RegistryZoneView \<Rightarrow> ChainID \<Rightarrow> IP option \<Rightarrow> edge list" where
  "offered v chain ecs =
     concat (map (entry_edges v chain ecs (client_location v ecs)) (st_nodes (zv_store v)))"

definition edge_key :: "dns_env \<Rightarrow> edge \<Rightarrow> string" where
  "edge_key de e = de_String de (ed_rr e)"

lemma address_loop_dedup:
  "fst (address_loop de v chain ecs nid advert score edges seen ips) =
     edges @ dedup (edge_key de) (set seen) (List.map_filter (edge_of v chain ecs nid advert score) ips) \<and>
   set (snd (address_loop de v chain ecs nid advert score edges seen ips)) =
     set seen \<union> (edge_key de) ` set (List.map_filter (edge_of v chain ecs nid advert score) ips)"
proof (induction ips arbitrary: edges seen)
  case (Cons ip ips)
  show ?case
  proof (cases "toRR ip (zv_zone v) (zv_ttlService v)")
    case None
    with Cons.IH [of edges seen] show ?thesis by (simp add: List.map_filter_simps edge_of_def)
  next
    case (Some rr)
    with Cons.IH show ?thesis
      by (auto simp: List.map_filter_simps edge_of_def edge_key_def Let_def insert_absorb)
  qed
qed (simp add: List.map_filter_simps)

lemma node_loop_dedup:
  assumes "node_loop de ctx v chain ecs cl n edges seen es = Inr out"
  shows "out = edges @ dedup (edge_key de) (set seen) (concat (map (entry_edges v chain ecs cl) es))"
  using assms
proof (induction es arbitrary: n edges seen)
  case (Cons x es)
  obtain nid entry where x: "x = (nid, entry)" by (cases x)
  have run: "ctx n = None" using Cons.prems x by (cases "ctx n") simp_all
  show ?case
  proof (cases "Tombstone entry \<or> \<not> na_NSServing (Value entry) \<or> na_IPs (Value entry) = []")
    case True
    then have "node_loop de ctx v chain ecs cl (n + 1) edges seen es = Inr out"
      using Cons.prems run x by (auto simp: Let_def split: if_splits)
    moreover have "entry_edges v chain ecs cl x = []"
      using True by (auto simp: entry_edges_def offers_def x List.map_filter_simps)
    ultimately show ?thesis using Cons.IH by simp
  next
    case False
    let ?score = "node_score v cl (Value entry)"
    obtain edges' seen' where al: "address_loop de v chain ecs nid (Value entry) ?score edges seen
        (na_IPs (Value entry)) = (edges', seen')" by (metis surj_pair)
    note al' = address_loop_dedup [of de v chain ecs nid "Value entry" ?score edges seen "na_IPs (Value entry)",
        unfolded al, simplified]
    have "node_loop de ctx v chain ecs cl (n + 1) edges' seen' es = Inr out"
      using Cons.prems run x False al by (simp add: Let_def node_score_def)
    from Cons.IH [OF this] show ?thesis
      using al' False by (simp add: x entry_edges_def offers_def dedup_append)
  qed
qed simp

lemma node_loop_runs:
  assumes "\<And>n. ctx n = None"
  shows "\<exists>out. node_loop de ctx v chain ecs cl n edges seen es = Inr out"
proof (induction es arbitrary: n edges seen)
  case (Cons x es)
  then show ?case by (cases x) (auto simp: assms Let_def split: prod.split)
qed simp

section \<open>The answer as a whole\<close>

definition limit :: "int \<Rightarrow> 'a list \<Rightarrow> 'a list" where
  "limit mx xs = (if mx > 0 \<and> int (length xs) > mx then take (nat mx) xs else xs)"

lemma length_limit: "length (limit mx xs) = (if mx > 0 then min (nat mx) (length xs) else length xs)"
  by (auto simp: limit_def)

lemma EdgeRecords_edges:
  assumes "store_wf (zv_store v)" and "sort_laws (de_sort de)" and "EdgeRecords de ctx v chain mx ecs = Inr rs"
  shows "rs = map ed_rr (limit mx (de_sort de edge_less (dedup (edge_key de) {} (offered v chain ecs))))"
proof -
  have wf: "go_wf (st_nodes (zv_store v))" using assms(1) by (simp add: store_wf_def)
  then have snap: "fst (NodeSnapshot (zv_store v)) = st_nodes (zv_store v)"
    by (simp add: NodeSnapshot_def lww_Snapshot_def)
  obtain es where es: "node_loop de ctx v chain ecs (client_location v ecs) 1 [] [] (st_nodes (zv_store v)) = Inr es"
    using assms(3) by (auto simp: EdgeRecords_def snap Let_def split: option.splits sum.splits)
  have ded: "es = dedup (edge_key de) {} (offered v chain ecs)"
    using node_loop_dedup [OF es] by (simp add: offered_def)
  have empty: "de_sort de edge_less [] = []"
    using sort_laws_facts(2) [OF assms(2), of edge_less "[]"] by simp
  have "ctx 0 = None" using assms(3) by (auto simp: EdgeRecords_def split: option.splits)
  with assms(3) es have "rs = (if es = [] then [] else map ed_rr (limit mx (de_sort de edge_less es)))"
    by (auto simp: EdgeRecords_def snap Let_def limit_def split: if_splits)
  then show ?thesis by (auto simp: ded [symmetric] empty limit_def)
qed

text \<open>The records that the live name-serving nodes of a registry offer.\<close>

definition advertised :: "RegistryZoneView \<Rightarrow> RR set" where
  "advertised v = {rr. \<exists>nid e ip. map_of (st_nodes (zv_store v)) nid = Some e \<and> \<not> Tombstone e \<and>
     na_NSServing (Value e) \<and> ip \<in> set (na_IPs (Value e)) \<and> toRR ip (zv_zone v) (zv_ttlService v) = Some rr}"

lemma offers_iff:
  "ip \<in> set (offers e) \<longleftrightarrow> \<not> Tombstone e \<and> na_NSServing (Value e) \<and> ip \<in> set (na_IPs (Value e))"
  by (simp add: offers_def)

lemma offered_rr:
  assumes "store_wf (zv_store v)"
  shows "ed_rr ` set (offered v chain ecs) = advertised v"
proof -
  have wf: "go_wf (st_nodes (zv_store v))" using assms by (simp add: store_wf_def)
  have one: "ed_rr ` set (entry_edges v chain ecs cl x) =
      (case x of (nid, e) \<Rightarrow> {rr. \<exists>ip \<in> set (offers e). toRR ip (zv_zone v) (zv_ttlService v) = Some rr})" for cl x
    by (cases x) (force simp: entry_edges_def List.map_filter_def edge_of_def)
  have "ed_rr ` set (offered v chain ecs) =
      (\<Union>(nid, e) \<in> set (st_nodes (zv_store v)). {rr. \<exists>ip \<in> set (offers e). toRR ip (zv_zone v) (zv_ttlService v) = Some rr})"
    unfolding offered_def by (simp add: image_UN one)
  also have "\<dots> = advertised v"
    unfolding advertised_def go_wf_mem_iff [OF wf, symmetric]
    by (rule set_eqI) (simp only: UN_iff split_beta mem_Collect_eq offers_iff Bex_def split_paired_Ex fst_conv snd_conv, blast)
  finally show ?thesis .
qed

lemma edge_key_offered:
  assumes "store_wf (zv_store v)"
  shows "edge_key de ` set (offered v chain ecs) = de_String de ` advertised v"
  unfolding offered_rr [OF assms, of chain ecs, symmetric] by (simp add: image_image edge_key_def)

lemma set_limit: "set (limit mx xs) \<subseteq> set xs"
  by (auto simp: limit_def dest: in_set_takeD)

lemma distinct_limit: "distinct (map f xs) \<Longrightarrow> distinct (map f (limit mx xs))"
  by (simp add: limit_def take_map [symmetric] distinct_take)

section \<open>Ties and the comparison\<close>

lemma edge_less_hash:
  assumes "\<And>e. e \<in> S \<Longrightarrow> ed_geoScore e = g"
  shows "strict_weak edge_less S" and "a \<in> S \<Longrightarrow> b \<in> S \<Longrightarrow> edge_less a b \<longleftrightarrow> ed_hash a < ed_hash b"
  using assms by (auto simp: strict_weak_def edge_less_def)

lemma offered_score:
  assumes "client_location v ecs = None" and "e \<in> set (offered v chain ecs)"
  shows "ed_geoScore e = 0"
  using assms by (auto simp: offered_def entry_edges_def List.map_filter_def edge_of_def node_score_def)

lemma offered_perm:
  assumes "go_wf (st_nodes (zv_store v))" and "go_wf (st_nodes s)"
    and "map_of (st_nodes s) = map_of (st_nodes (zv_store v))"
  shows "mset (offered (v\<lparr>zv_store := s\<rparr>) chain ecs) = mset (offered v chain ecs)"
proof -
  have m: "mset (st_nodes s) = mset (st_nodes (zv_store v))"
    by (rule go_wf_same_map_mset [OF assms(2,1,3)])
  have "calculateNodeGeoScore (v\<lparr>zv_store := s\<rparr>) = calculateNodeGeoScore v"
    by (simp add: fun_eq_iff calculateNodeGeoScore_def Let_def split: option.split)
  then have "node_score (v\<lparr>zv_store := s\<rparr>) = node_score v" "edge_of (v\<lparr>zv_store := s\<rparr>) = edge_of v"
    by (simp_all add: fun_eq_iff node_score_def edge_of_def)
  then have "entry_edges (v\<lparr>zv_store := s\<rparr>) chain ecs cl = entry_edges v chain ecs cl" for cl
    by (simp add: entry_edges_def)
  moreover have "client_location (v\<lparr>zv_store := s\<rparr>) ecs = client_location v ecs"
    by (simp add: client_location_def)
  ultimately have "mset (offered (v\<lparr>zv_store := s\<rparr>) chain ecs) =
      sum_list (map (mset \<circ> entry_edges v chain ecs (client_location v ecs)) (st_nodes s))"
    by (simp add: offered_def mset_concat comp_def)
  also have "\<dots> = sum_mset (image_mset (mset \<circ> entry_edges v chain ecs (client_location v ecs)) (mset (st_nodes s)))"
    by (metis mset_map sum_mset_sum_list)
  also have "\<dots> = mset (offered v chain ecs)"
    unfolding m by (simp add: offered_def mset_concat comp_def sum_mset_sum_list [symmetric])
  finally show ?thesis .
qed

lemma sorted_by_hash:
  assumes "sort_laws srt" and "\<And>e. e \<in> set xs \<Longrightarrow> ed_geoScore e = 0"
  shows "sorted (map ed_hash (srt edge_less xs))"
proof -
  note w = edge_less_hash [of "set xs" 0, OF assms(2)]
  have "sorted_wrt (\<lambda>a b. \<not> edge_less b a) (srt edge_less xs)"
    using sort_laws_facts(5) [OF assms(1) w(1)] .
  then have "sorted_wrt (\<lambda>a b. ed_hash a \<le> ed_hash b) (srt edge_less xs)"
    using w(2) sort_laws_facts(1) [OF assms(1), of edge_less xs]
    by (auto elim!: sorted_wrt_mono_rel [rotated] simp: not_less)
  then show ?thesis by (simp add: sorted_map)
qed

section \<open>The records exactly\<close>

lemma EdgeRecords_runs:
  assumes "\<And>n. ctx n = None"
  shows "\<exists>rs. EdgeRecords de ctx v chain mx ecs = Inr rs"
proof -
  obtain es where "node_loop de ctx v chain ecs (client_location v ecs) 1 [] [] (fst (NodeSnapshot (zv_store v))) = Inr es"
    using node_loop_runs [of ctx, OF assms] by blast
  then show ?thesis by (simp add: EdgeRecords_def assms Let_def)
qed

lemma EdgeRecords_exact:
  assumes "store_wf (zv_store v)" and "sort_laws (de_sort de)" and "EdgeRecords de ctx v chain mx ecs = Inr rs"
  shows "set rs \<subseteq> advertised v \<and> distinct (map (de_String de) rs)
    \<and> length rs = (if mx > 0 then min (nat mx) (card (de_String de ` advertised v))
                   else card (de_String de ` advertised v))
    \<and> (mx \<le> 0 \<or> int (card (de_String de ` advertised v)) \<le> mx \<longrightarrow>
        de_String de ` set rs = de_String de ` advertised v)"
proof -
  let ?ds = "dedup (edge_key de) {} (offered v chain ecs)"
  let ?es = "de_sort de edge_less ?ds"
  note srt = sort_laws_facts [OF assms(2)]
  have rs: "rs = map ed_rr (limit mx ?es)" by (rule EdgeRecords_edges [OF assms])
  have key: "map (de_String de) (map ed_rr xs) = map (edge_key de) xs" for xs by (simp add: edge_key_def)
  have sub: "set (limit mx ?es) \<subseteq> set (offered v chain ecs)"
    using set_limit [of mx ?es] dedup_subset [of "edge_key de" "{}" "offered v chain ecs"] by (auto simp: srt(1))
  then have "set rs \<subseteq> advertised v"
    unfolding rs offered_rr [OF assms(1), of chain ecs, symmetric] by auto
  moreover have dist: "distinct (map (de_String de) rs)"
    unfolding rs key by (intro distinct_limit) (simp add: srt(4) dedup_distinct)
  moreover have len: "length rs = (if mx > 0 then min (nat mx) (card (de_String de ` advertised v))
      else card (de_String de ` advertised v))"
    unfolding rs edge_key_offered [OF assms(1), of de chain ecs, symmetric]
    by (simp add: length_limit srt(2) length_dedup)
  moreover have "de_String de ` set rs = de_String de ` advertised v"
    if fits: "mx \<le> 0 \<or> int (card (de_String de ` advertised v)) \<le> mx"
  proof -
    have "length ?es = card (de_String de ` advertised v)"
      unfolding edge_key_offered [OF assms(1), of de chain ecs, symmetric] by (simp add: srt(2) length_dedup)
    then have "limit mx ?es = ?es" using fits by (auto simp: limit_def)
    then have "de_String de ` set rs = edge_key de ` set ?ds"
      unfolding rs by (simp add: image_image srt(1) edge_key_def)
    then show ?thesis by (simp add: dedup_image edge_key_offered [OF assms(1)])
  qed
  ultimately show ?thesis by blast
qed

section \<open>Serials\<close>

text \<open>The serials of a sequence of queries, each at an instant and with the store of that instant.\<close>

fun serial_run :: "RegistryZoneView \<Rightarrow> (time \<times> Store) list \<Rightarrow> u32 list" where
  "serial_run v [] = []"
| "serial_run v ((now, s) # qs) =
     (let (v', x) = ZoneSerial now (v\<lparr>zv_store := s\<rparr>) in x # serial_run v' qs)"

definition serial_after :: "u32 \<Rightarrow> u32 \<Rightarrow> bool" where
  "serial_after a b \<longleftrightarrow> a < b \<or> a = mathMaxUint32 \<and> b = mathMaxUint32"

lemma serial_after_trans: "serial_after a b \<Longrightarrow> serial_after b c \<Longrightarrow> serial_after a c"
  by (auto simp: serial_after_def)

lemma max_word32:
  assumes "x \<noteq> mathMaxUint32"
  shows "x < x + 1"
proof -
  have "1 + x \<noteq> 0"
    using assms by (simp add: mathMaxUint32_def eq_neg_iff_add_eq_0 add.commute)
  then show ?thesis by (simp add: word_less_nat_alt unatSuc add.commute [of x])
qed

lemma ZoneSerial_step:
  assumes "vv_sum (NodeVersionVector (zv_store v)) \<noteq> 0" and "ZoneSerial now v = (v', x)"
  shows "zv_serialCache v' = x" and "serial_after (zv_serialCache v) x"
proof -
  have x: "x = (let serial = ucast (vv_sum (NodeVersionVector (zv_store v)) mod ucast mathMaxUint32) in
      if serial \<le> zv_serialCache v
      then if zv_serialCache v = mathMaxUint32 then zv_serialCache v else zv_serialCache v + 1 else serial)"
    and "v' = v\<lparr>zv_serialCache := x\<rparr>"
    using assms by (auto simp: ZoneSerial_def Let_def)
  then show "zv_serialCache v' = x" by simp
  show "serial_after (zv_serialCache v) x"
    unfolding x serial_after_def Let_def using max_word32 [of "zv_serialCache v"] by auto
qed

lemma serial_run_sorted:
  assumes "list_all (\<lambda>(t, s). vv_sum (NodeVersionVector s) \<noteq> 0) qs"
  shows "sorted_wrt serial_after (zv_serialCache v # serial_run v qs)"
  using assms
proof (induction qs arbitrary: v)
  case (Cons q qs)
  obtain t s where q: "q = (t, s)" by (cases q)
  obtain v' x where z: "ZoneSerial t (v\<lparr>zv_store := s\<rparr>) = (v', x)" by (metis surj_pair)
  have "zv_serialCache v' = x" "serial_after (zv_serialCache v) x"
    using ZoneSerial_step [OF _ z] Cons.prems q by auto
  with Cons.IH [of v'] Cons.prems show ?case
    by (auto simp: q z intro: serial_after_trans)
qed simp

section \<open>Properties\<close>

definition demo_dns :: dns_env where
  "demo_dns = \<lparr>de_Fqdn = (\<lambda>s. s @ ''.''),
     de_String = (\<lambda>rr. case rr_Data rr of RR_A ip \<Rightarrow> ''A '' @ IP_String ip | RR_AAAA ip \<Rightarrow> ''AAAA '' @ IP_String ip | _ \<Rightarrow> []),
     de_sort = insertion_sort\<rparr>"

definition demo_node :: "string \<Rightarrow> IP list \<Rightarrow> NodeID \<times> NodeAdvert Entry" where
  "demo_node i ips = (i, \<lparr>Value = \<lparr>na_ID = i, na_NSServing = True, na_IPs = ips, na_Country = ''DE'', na_Region = [],
     na_AtUnix = 0, na_PubKey = [], na_Sig = [], na_Clock = 1\<rparr>, Clk = Clock 1 0, Tombstone = False\<rparr>)"

definition demo_nodes :: "(NodeID \<times> NodeAdvert Entry) list \<Rightarrow> Store" where
  "demo_nodes es = (NewStore 0)\<lparr>st_nodes := es\<rparr>"

definition demo_view :: "Store \<Rightarrow> RegistryZoneView" where
  "demo_view s = \<lparr>zv_store = s, zv_zone = ''mesh.'', zv_nsLabels = [''ns1.mesh''], zv_ttlNSA = 30,
     zv_ttlService = 20, zv_serialCache = 0, zv_geoProvider = None, zv_geoWeight = 0.5\<rparr>"

abbreviation demo_two :: Store where
  "demo_two \<equiv> demo_nodes [demo_node ''n1'' [[10, 0, 0, 1]], demo_node ''n2'' [[10, 0, 0, 2]]]"

abbreviation demo_two_rev :: Store where
  "demo_two_rev \<equiv> demo_nodes [demo_node ''n2'' [[10, 0, 0, 2]], demo_node ''n1'' [[10, 0, 0, 1]]]"

lemma demo_nodes_wf: "go_wf es \<Longrightarrow> store_wf (demo_nodes es)"
  using store_wf_new [of 0] by (simp add: store_wf_def demo_nodes_def)

lemma demo_sort_laws: "sort_laws (de_sort demo_dns)"
  by (simp add: demo_dns_def insertion_sort_laws)

text \<open>
  C13. The zone answers with what the nodes offer. While the context is not cancelled the zone
  returns; the records returned for a chain are printed differently from each other, come from live
  name-serving nodes of the registry, and are at most \<^verbatim>\<open>max\<close> many; when the offers fit into the limit,
  or there is no limit, none is missing.
\<close>

theorem edge_records_exact:
  assumes "store_wf (zv_store v)" and "sort_laws (de_sort de)" and "\<And>n. ctx n = None"
  shows "\<exists>rs. EdgeRecords de ctx v chain mx ecs = Inr rs
    \<and> set rs \<subseteq> advertised v \<and> distinct (map (de_String de) rs)
    \<and> length rs = (if mx > 0 then min (nat mx) (card (de_String de ` advertised v))
                   else card (de_String de ` advertised v))
    \<and> (mx \<le> 0 \<or> int (card (de_String de ` advertised v)) \<le> mx \<longrightarrow>
        de_String de ` set rs = de_String de ` advertised v)"
proof -
  obtain rs where "EdgeRecords de ctx v chain mx ecs = Inr rs"
    using EdgeRecords_runs [of ctx, OF assms(3)] by blast
  with EdgeRecords_exact [OF assms(1,2) this] show ?thesis by blast
qed

theorem edge_records_exact_witness:
  "\<exists>rs. EdgeRecords demo_dns (\<lambda>_. None) (demo_view demo_two) ''c1'' 4 None = Inr rs
    \<and> set rs \<subseteq> advertised (demo_view demo_two)"
  using edge_records_exact [of "demo_view demo_two" demo_dns "\<lambda>_. None" "''c1''" 4 None]
    demo_nodes_wf [of "[demo_node ''n1'' [[10, 0, 0, 1]], demo_node ''n2'' [[10, 0, 0, 2]]]"] demo_sort_laws
  by (auto simp: demo_view_def demo_node_def)

text \<open>
  Servers that agree on the registry give the same answer. For a client that cannot be placed,
  two zones over stores with the same node records, in whatever order their maps are walked, return
  the same records in the same order, as long as no address is offered twice and no two offers have
  the same hash.
\<close>

theorem edge_records_deterministic:
  assumes "store_wf (zv_store v)" and "store_wf s" and "map_of (st_nodes s) = map_of (st_nodes (zv_store v))"
    and "sort_laws (de_sort de)" and "client_location v ecs = None"
    and "distinct (map (edge_key de) (offered v chain ecs))" and "distinct (map ed_hash (offered v chain ecs))"
    and "EdgeRecords de ctx v chain mx ecs = Inr rs"
    and "EdgeRecords de ctx' (v\<lparr>zv_store := s\<rparr>) chain mx ecs = Inr rs'"
  shows "rs' = rs"
proof -
  let ?v = "v\<lparr>zv_store := s\<rparr>"
  let ?xs = "offered v chain ecs" and ?ys = "offered ?v chain ecs"
  have m: "mset ?ys = mset ?xs"
    using assms(1-3) by (intro offered_perm) (simp_all add: store_wf_def)
  have d: "distinct (map f ?ys) = distinct (map f ?xs)" for f :: "edge \<Rightarrow> 'b"
    using m by (metis mset_eq_imp_distinct_iff mset_map)
  have ids: "dedup (edge_key de) {} ?xs = ?xs" "dedup (edge_key de) {} ?ys = ?ys"
    by (rule dedup_id; simp add: assms(6) d)+
  have cl: "client_location ?v ecs = None" using assms(5) by (simp add: client_location_def)
  have "sorted (map ed_hash (de_sort de edge_less ?xs))" "sorted (map ed_hash (de_sort de edge_less ?ys))"
    by (rule sorted_by_hash [OF assms(4)], erule offered_score [OF assms(5)])
      (rule sorted_by_hash [OF assms(4)], erule offered_score [OF cl])
  moreover note srt = sort_laws_facts [OF assms(4)]
  have "set (de_sort de edge_less ?ys) = set (de_sort de edge_less ?xs)"
    using mset_eq_setD [OF m] by (simp add: srt(1))
  moreover have "distinct (map ed_hash (de_sort de edge_less ?xs))" "distinct (map ed_hash (de_sort de edge_less ?ys))"
    by (simp_all add: srt(4) assms(7) d)
  ultimately have "de_sort de edge_less ?ys = de_sort de edge_less ?xs"
    by (intro map_sorted_distinct_set_unique [of ed_hash]) (simp_all add: distinct_map)
  moreover have "rs = map ed_rr (limit mx (de_sort de edge_less ?xs))"
    using EdgeRecords_edges [OF assms(1,4,8)] by (simp add: ids)
  moreover have "rs' = map ed_rr (limit mx (de_sort de edge_less ?ys))"
    using EdgeRecords_edges [OF _ assms(4,9)] assms(2) by (simp add: ids)
  ultimately show ?thesis by simp
qed

theorem edge_records_deterministic_witness:
  "EdgeRecords demo_dns (\<lambda>_. None) ((demo_view demo_two)\<lparr>zv_store := demo_two_rev\<rparr>) ''c1'' 4 None =
   EdgeRecords demo_dns (\<lambda>_. None) (demo_view demo_two) ''c1'' 4 None"
proof -
  let ?v = "demo_view demo_two"
  obtain rs rs' where run: "EdgeRecords demo_dns (\<lambda>_. None) ?v ''c1'' 4 None = Inr rs"
      "EdgeRecords demo_dns (\<lambda>_. None) (?v\<lparr>zv_store := demo_two_rev\<rparr>) ''c1'' 4 None = Inr rs'"
    using EdgeRecords_runs [of "\<lambda>_. None"] by blast
  have off: "map ed_rr (offered ?v ''c1'' None) = map (\<lambda>ip. the (toRR ip ''mesh.'' 20)) [[10, 0, 0, 1], [10, 0, 0, 2]]"
    "map ed_hash (offered ?v ''c1'' None) =
      [hashEdge ''c1'' ''n1'' [10, 0, 0, 1] None, hashEdge ''c1'' ''n2'' [10, 0, 0, 2] None]"
    by (simp_all add: offered_def entry_edges_def demo_view_def demo_nodes_def demo_node_def offers_def
        List.map_filter_simps edge_of_def toRR_def To4_def)
  have "distinct (map (de_String demo_dns) (map ed_rr (offered ?v ''c1'' None)))"
    unfolding off by code_simp
  then have "distinct (map (edge_key demo_dns) (offered ?v ''c1'' None))" by (simp add: edge_key_def [abs_def] comp_def)
  moreover have "distinct (map ed_hash (offered ?v ''c1'' None))" unfolding off by code_simp
  ultimately have "rs' = rs"
    using run demo_sort_laws
    by (intro edge_records_deterministic [of ?v demo_two_rev demo_dns None "''c1''" _ 4])
      (simp_all add: demo_view_def demo_nodes_wf demo_node_def,
       simp_all add: client_location_def demo_nodes_def fun_eq_iff)
  with run show ?thesis by simp
qed

text \<open>
  The comparison is not an order. Scores closer than 0.01 are ordered by hash and others by
  score, so three edges can each precede the next in a circle; what \<^verbatim>\<open>sort.Slice\<close> returns for them
  is then not determined by its documentation.
\<close>

theorem edge_less_cycle:
  "\<exists>a b c. edge_less a b \<and> edge_less b c \<and> edge_less c a \<and> \<not> strict_weak edge_less {a, b, c}"
proof -
  define e where "e g h = \<lparr>ed_rr = undefined, ed_ip = [], ed_nodeID = [], ed_geoScore = g, ed_hash = h\<rparr>"
    for g :: real and h :: u32
  let ?a = "e 0.012 1" and ?b = "e 0.006 2" and ?c = "e 0 3"
  have cyc: "edge_less ?a ?b" "edge_less ?b ?c" "edge_less ?c ?a" by (simp_all add: edge_less_def e_def)
  moreover have "\<not> edge_less ?a ?c" by (simp add: edge_less_def e_def)
  ultimately have "\<not> strict_weak edge_less {?a, ?b, ?c}" unfolding strict_weak_def by blast
  with cyc show ?thesis by blast
qed

text \<open>
  Serials only move forward: while the registry knows a node, every query for the serial gets a
  larger one than all queries before, until the largest 32-bit number is reached. (The serial also
  moves when nothing in the registry has changed.)
\<close>

theorem serials_increase:
  assumes "list_all (\<lambda>(t, s). vv_sum (NodeVersionVector s) \<noteq> 0) qs"
  shows "sorted_wrt (\<lambda>a b. a < b \<or> a = mathMaxUint32 \<and> b = mathMaxUint32) (serial_run v qs)"
  using serial_run_sorted [OF assms, of v] by (simp add: serial_after_def [abs_def])

theorem serials_increase_witness:
  "sorted_wrt (\<lambda>a b. a < b \<or> a = mathMaxUint32 \<and> b = mathMaxUint32)
     (serial_run (demo_view (demo_nodes [])) [(0, (demo_nodes [])\<lparr>st_nodeVV := [(''n1'', 7)]\<rparr>),
                                             (0, (demo_nodes [])\<lparr>st_nodeVV := [(''n1'', 7)]\<rparr>)])"
  using serials_increase [of "[(0, (demo_nodes [])\<lparr>st_nodeVV := [(''n1'', 7)]\<rparr>), (0, (demo_nodes [])\<lparr>st_nodeVV := [(''n1'', 7)]\<rparr>)]"
      "demo_view (demo_nodes [])"]
  by (simp add: NodeVersionVector_def vv_Snapshot_def vv_sum_def go_copy_def)

end
