(* ===== verification/Rate_Limiter.thy ===== *)
theory Rate_Limiter
  imports Mesh_Prelude
begin

text \<open>
  \<^verbatim>\<open>pkg/proxy/rate_limiter.go\<close>: one token bucket per client address. The bucket of
  \<^verbatim>\<open>golang.org/x/time/rate\<close> is an argument: how it is made, and what asking it at an instant
  answers and leaves behind. The buckets are kept per client, so a client's answers do not depend on
  the other clients until the table outgrows its limit, and then only a client that has been silent
  for the window loses its bucket.
\<close>

section \<open>The code\<close>

record 'l rate_ops =
  rate_NewLimiter :: "int \<Rightarrow> int \<Rightarrow> 'l"
  rate_Allow :: "'l \<Rightarrow> time \<Rightarrow> 'l \<times> bool"

record 'l clientLimiter =
  cl_limiter :: 'l
  cl_lastSeen :: time

record 'l clientRateLimiter =
  rl_limit :: int
  rl_burst :: int
  rl_window :: duration
  rl_clients :: "(string, 'l clientLimiter) gomap"

definition newClientRateLimiter :: "int \<Rightarrow> int \<Rightarrow> duration \<Rightarrow> 'l clientRateLimiter" where
  "newClientRateLimiter perSecond burst window =
     \<lparr>rl_limit = perSecond, rl_burst = burst, rl_window = window, rl_clients = []\<rparr>"

definition rl_cleanup :: "time \<Rightarrow> 'l clientRateLimiter \<Rightarrow> 'l clientRateLimiter" where
  "rl_cleanup now c =
     (let threshold = now - rl_window c
      in c\<lparr>rl_clients := range_delete (\<lambda>ip entry. cl_lastSeen entry < threshold) (rl_clients c)\<rparr>)"

definition Allow :: "'l rate_ops \<Rightarrow> time \<Rightarrow> 'l clientRateLimiter \<Rightarrow> string \<Rightarrow> 'l clientRateLimiter \<times> bool" where
  "Allow ops now c ip =
     (let entry = (case map_of (rl_clients c) ip of
                     None \<Rightarrow> \<lparr>cl_limiter = rate_NewLimiter ops (rl_limit c) (rl_burst c),
                              cl_lastSeen = zero_time\<rparr>
                   | Some entry \<Rightarrow> entry);
          entry = entry\<lparr>cl_lastSeen := now\<rparr>;
          (limiter, allowed) = rate_Allow ops (cl_limiter entry) now;
          c = c\<lparr>rl_clients := go_set (rl_clients c) ip (entry\<lparr>cl_limiter := limiter\<rparr>)\<rparr>;
          c = (if length (rl_clients c) > 2048 then rl_cleanup now c else c)
      in (c, allowed))"

section \<open>Tables of buckets\<close>

text \<open>The answers of a single bucket to a sequence of instants.\<close>

fun bucket_run :: "('l \<Rightarrow> time \<Rightarrow> 'l \<times> bool) \<Rightarrow> 'l \<Rightarrow> time list \<Rightarrow> 'l \<times> bool list" where
  "bucket_run ask l [] = (l, [])"
| "bucket_run ask l (t # ts) =
     (let (l', a) = ask l t; (l'', as) = bucket_run ask l' ts in (l'', a # as))"

text \<open>A run of a table on calls with instant and client, and the answers to one client.\<close>

fun table_run ::
    "('s \<Rightarrow> time \<Rightarrow> string \<Rightarrow> 's \<times> bool) \<Rightarrow> 's \<Rightarrow> (time \<times> string) list \<Rightarrow> 's \<times> (string \<times> bool) list" where
  "table_run call c [] = (c, [])"
| "table_run call c ((t, ip) # calls) =
     (let (c', a) = call c t ip; (c'', as) = table_run call c' calls in (c'', (ip, a) # as))"

definition instants :: "string \<Rightarrow> (time \<times> string) list \<Rightarrow> time list" where
  "instants ip calls = map fst (filter (\<lambda>(t, i). i = ip) calls)"

definition answers :: "string \<Rightarrow> (string \<times> bool) list \<Rightarrow> bool list" where
  "answers ip as = map snd (filter (\<lambda>(i, a). i = ip) as)"

text \<open>
  The contract of a table that gives every client a bucket of its own: a permitted call is answered
  from the caller's bucket and changes no other.
\<close>

locale bucket_table =
  fixes call :: "'s \<Rightarrow> time \<Rightarrow> string \<Rightarrow> 's \<times> bool"
    and bucket :: "'s \<Rightarrow> string \<Rightarrow> 'l"
    and ask :: "'l \<Rightarrow> time \<Rightarrow> 'l \<times> bool"
    and inv :: "'s \<Rightarrow> bool"
    and permit :: "time \<Rightarrow> string \<Rightarrow> bool"
  assumes call_inv: "inv s \<Longrightarrow> permit t ip \<Longrightarrow> inv (fst (call s t ip))"
    and call_answer: "inv s \<Longrightarrow> permit t ip \<Longrightarrow> snd (call s t ip) = snd (ask (bucket s ip) t)"
    and call_bucket: "inv s \<Longrightarrow> permit t ip \<Longrightarrow>
      bucket (fst (call s t ip)) i = (if i = ip then fst (ask (bucket s ip) t) else bucket s i)"
begin

lemma run_isolated:
  assumes "inv s" and "list_all (\<lambda>(t, i). permit t i) calls"
  shows "answers ip (snd (table_run call s calls)) = snd (bucket_run ask (bucket s ip) (instants ip calls))"
  using assms
proof (induction calls arbitrary: s)
  case (Cons x calls)
  obtain t i where x: "x = (t, i)" by (cases x)
  note step = call_inv [of s t i] call_answer [of s t i] call_bucket [of s t i ip]
  have "answers ip (snd (table_run call (fst (call s t i)) calls)) =
      snd (bucket_run ask (bucket (fst (call s t i)) ip) (instants ip calls))"
    using Cons step x by simp
  with Cons.prems step x show ?case
    by (auto simp: case_prod_unfold answers_def instants_def Let_def)
qed (simp add: answers_def instants_def)

end

section \<open>The table of the proxy\<close>

definition bucket_of :: "'l rate_ops \<Rightarrow> 'l clientRateLimiter \<Rightarrow> string \<Rightarrow> 'l" where
  "bucket_of ops c ip =
     (case map_of (rl_clients c) ip of
        None \<Rightarrow> rate_NewLimiter ops (rl_limit c) (rl_burst c) | Some e \<Rightarrow> cl_limiter e)"

definition rl_wf :: "'l clientRateLimiter \<Rightarrow> bool" where
  "rl_wf c \<longleftrightarrow> go_wf (rl_clients c)"

lemma Allow_wf [wf_intros]: "rl_wf c \<Longrightarrow> rl_wf (fst (Allow ops now c ip))"
  by (simp add: rl_wf_def Allow_def Let_def rl_cleanup_def case_prod_unfold)

lemma Allow_answer: "snd (Allow ops now c ip) = snd (rate_Allow ops (bucket_of ops c ip) now)"
  by (simp add: Allow_def bucket_of_def Let_def case_prod_unfold split: option.split)

text \<open>As long as the table is within its limit, a call changes the caller's bucket only.\<close>

definition rl_keys :: "'l clientRateLimiter \<Rightarrow> string set" where
  "rl_keys c = fst ` set (rl_clients c)"

lemma Allow_small:
  assumes "rl_wf c" and "card (insert ip (rl_keys c)) \<le> 2048"
  shows "rl_limit (fst (Allow ops now c ip)) = rl_limit c"
    and "rl_burst (fst (Allow ops now c ip)) = rl_burst c"
    and "bucket_of ops (fst (Allow ops now c ip)) i =
      (if i = ip then fst (rate_Allow ops (bucket_of ops c ip) now) else bucket_of ops c i)"
    and "rl_keys (fst (Allow ops now c ip)) = insert ip (rl_keys c)"
proof -
  have keys: "fst ` set (go_set (rl_clients c) ip v) = insert ip (rl_keys c)" for v
    by (simp add: rl_keys_def dom_update)
  have "length (go_set (rl_clients c) ip v) = card (insert ip (rl_keys c))" for v
    using distinct_card [OF go_wf_set, of "rl_clients c" ip v] assms(1) keys [of v]
    by (simp add: rl_wf_def)
  then have small: "\<not> length (go_set (rl_clients c) ip v) > 2048" for v
    using assms(2) by simp
  show "rl_limit (fst (Allow ops now c ip)) = rl_limit c" "rl_burst (fst (Allow ops now c ip)) = rl_burst c"
    by (simp_all add: Allow_def Let_def case_prod_unfold rl_cleanup_def)
  show "bucket_of ops (fst (Allow ops now c ip)) i =
      (if i = ip then fst (rate_Allow ops (bucket_of ops c ip) now) else bucket_of ops c i)"
    using small by (simp add: Allow_def Let_def case_prod_unfold bucket_of_def split: option.split)
  show "rl_keys (fst (Allow ops now c ip)) = insert ip (rl_keys c)"
    using small keys by (simp add: Allow_def Let_def case_prod_unfold rl_keys_def)
qed

text \<open>The table within its limit: all clients, past and present, are among the at most 2048 of \<open>K\<close>.\<close>

definition table_within :: "string set \<Rightarrow> 'l clientRateLimiter \<Rightarrow> bool" where
  "table_within K c \<longleftrightarrow> rl_wf c \<and> finite K \<and> card K \<le> 2048 \<and> rl_keys c \<subseteq> K"

lemma within_small: "table_within K c \<Longrightarrow> ip \<in> K \<Longrightarrow> rl_wf c \<and> card (insert ip (rl_keys c)) \<le> 2048"
  unfolding table_within_def by (meson card_mono insert_subset order_trans)

interpretation proxy_table: bucket_table "\<lambda>c now ip. Allow ops now c ip" "bucket_of ops" "rate_Allow ops"
    "table_within K" "\<lambda>t ip. ip \<in> K" for ops K
proof unfold_locales
  fix c :: "'a clientRateLimiter" and t ip i
  assume c: "table_within K c" "ip \<in> K"
  note small = Allow_small [of c ip ops t] within_small [OF c]
  show "table_within K (fst (Allow ops t c ip))"
    using c small(4,5) by (simp add: table_within_def Allow_wf)
  show "snd (Allow ops t c ip) = snd (rate_Allow ops (bucket_of ops c ip) t)" by (rule Allow_answer)
  show "bucket_of ops (fst (Allow ops t c ip)) i =
      (if i = ip then fst (rate_Allow ops (bucket_of ops c ip) t) else bucket_of ops c i)"
    using small(3,5) by simp
qed

section \<open>Properties\<close>


text \<open>A bucket that allows its first \<open>burst\<close> calls.\<close>

definition demo_rate :: "int rate_ops" where
  "demo_rate = \<lparr>rate_NewLimiter = (\<lambda>limit burst. burst), rate_Allow = (\<lambda>n t. (n - 1, 0 < n))\<rparr>"


text \<open>
  An overflowing table forgets only silent clients: after a call at \<open>now\<close>, every other client
  that was seen within the window still has its bucket unchanged, and the caller's bucket is kept.
\<close>

theorem rate_limit_keeps_active:
  assumes "rl_wf c" and "map_of (rl_clients c) i = Some e" and "i \<noteq> ip"
    and "now - rl_window c \<le> cl_lastSeen e" and "0 \<le> rl_window c"
  shows "map_of (rl_clients (fst (Allow ops now c ip))) i = Some e
    \<and> map_of (rl_clients (fst (Allow ops now c ip))) ip =
        Some \<lparr>cl_limiter = fst (rate_Allow ops (bucket_of ops c ip) now), cl_lastSeen = now\<rparr>"
  using assms
  by (simp add: Allow_def Let_def case_prod_unfold rl_cleanup_def rl_wf_def map_of_range_delete
      bucket_of_def del: map_of_eq_Some_iff split: option.split)

theorem rate_limit_keeps_active_witness:
  "map_of (rl_clients (fst (Allow demo_rate 5 \<lparr>rl_limit = 1, rl_burst = 1, rl_window = 10,
      rl_clients = [(''a'', \<lparr>cl_limiter = 0, cl_lastSeen = 1\<rparr>)]\<rparr> ''b''))) ''a'' =
     Some \<lparr>cl_limiter = 0, cl_lastSeen = 1\<rparr>"
  using rate_limit_keeps_active [of "\<lparr>rl_limit = 1, rl_burst = 1, rl_window = 10,
      rl_clients = [(''a'', \<lparr>cl_limiter = 0, cl_lastSeen = 1\<rparr>)]\<rparr>" "''a''"
      "\<lparr>cl_limiter = 0, cl_lastSeen = 1\<rparr>" "''b''" 5 demo_rate]
  by (simp add: rl_wf_def)

end
