(* ===== verification/Dns_Handler.thy ===== *)
theory Dns_Handler
  imports Zone_View Rate_Limiter
begin

text \<open>
  \<^verbatim>\<open>pkg/dnsplugin/plugin.go\<close>: the DNS handler over any zone. The interface \<^verbatim>\<open>ZoneView\<close> is a record of
  its three methods on a state; \<open>registry_zone\<close> is the zone of the registry. Sending a message
  is the message in the result: \<open>None\<close> when the handler returns without writing one. Arguments:
  the functions of \<^verbatim>\<open>miekg/dns\<close> that the code calls and the token bucket. Logging is left out.
\<close>

section \<open>Messages\<close>

datatype rcode =
    RcodeSuccess | RcodeFormatError | RcodeServerFailure | RcodeNameError | RcodeNotImplemented | RcodeRefused

record dns_question =
  qu_Name :: string
  qu_Qtype :: qtype

record dns_msg =
  ms_Question :: "dns_question list"
  ms_Answer :: "RR list"
  ms_Extra :: "RR list"
  ms_Rcode :: rcode
  ms_Authoritative :: bool
  ms_RecursionAvailable :: bool

datatype net_addr = UDPAddr IP | TCPAddr IP | OtherAddr string

section \<open>The zone interface\<close>

record 'z ZoneView =
  zi_EdgeRecords :: "poll \<Rightarrow> 'z \<Rightarrow> ChainID \<Rightarrow> int \<Rightarrow> IP option \<Rightarrow> string + RR list"
  zi_NSRecords :: "poll \<Rightarrow> 'z \<Rightarrow> string + RR list"
  zi_ZoneSerial :: "time \<Rightarrow> 'z \<Rightarrow> 'z \<times> u32"

definition registry_zone :: "dns_env \<Rightarrow> RegistryZoneView ZoneView" where
  "registry_zone de = \<lparr>zi_EdgeRecords = EdgeRecords de, zi_NSRecords = NSRecords de, zi_ZoneSerial = ZoneSerial\<rparr>"

section \<open>The limiter\<close>

record 'l limiterEntry =
  le_limiter :: 'l
  le_lastSeen :: time

record 'l requestLimiter =
  rq_entries :: "(string, 'l limiterEntry) gomap"
  rq_limit :: real
  rq_burst :: int
  rq_ttl :: duration
  rq_lastCleanup :: time
  rq_cleanupPeriod :: duration

record 'l dns_rate =
  dr_NewLimiter :: "real \<Rightarrow> int \<Rightarrow> 'l"
  dr_Allow :: "'l \<Rightarrow> time \<Rightarrow> 'l \<times> bool"

definition newRequestLimiter :: "real \<Rightarrow> int \<Rightarrow> duration \<Rightarrow> 'l requestLimiter" where
  "newRequestLimiter perSecond burst t =
     (let cleanup = (if t \<ge> 0 then t div 2 else - ((- t) div 2));
          cleanup = (if cleanup \<le> 0 then t else cleanup);
          cleanup = (if cleanup \<le> 0 then 60 * second else cleanup)
      in \<lparr>rq_entries = [], rq_limit = perSecond, rq_burst = burst, rq_ttl = t,
          rq_lastCleanup = zero_time, rq_cleanupPeriod = cleanup\<rparr>)"

definition request_Allow ::
    "'l dns_rate \<Rightarrow> time \<Rightarrow> 'l requestLimiter \<Rightarrow> string \<Rightarrow> 'l requestLimiter \<times> bool" where
  "request_Allow ops now r ip =
     (if ip = [] then (r, True)
      else
        let r = (if rq_cleanupPeriod r > 0 \<and>
                   (IsZero (rq_lastCleanup r) \<or> time_Sub now (rq_lastCleanup r) \<ge> rq_cleanupPeriod r)
                 then r\<lparr>rq_entries := range_delete (\<lambda>key entry. le_lastSeen entry < now - rq_ttl r) (rq_entries r),
                        rq_lastCleanup := now\<rparr>
                 else r);
            entry = (case map_of (rq_entries r) ip of
                       None \<Rightarrow> \<lparr>le_limiter = dr_NewLimiter ops (rq_limit r) (rq_burst r), le_lastSeen = zero_time\<rparr>
                     | Some entry \<Rightarrow> entry);
            (limiter, allowed) = dr_Allow ops (le_limiter entry) now
        in (r\<lparr>rq_entries := go_set (rq_entries r) ip \<lparr>le_limiter = limiter, le_lastSeen = now\<rparr>\<rparr>, allowed))"

section \<open>The handler\<close>

record dns_Config =
  dc_Zone :: string
  dc_Chains :: "ChainID list"
  dc_NSLabels :: "string list"
  dc_TTLService :: u32
  dc_TTLNSA :: u32
  dc_MaxAnswers :: int
  dc_EnableECS :: bool
  dc_RRLRate :: real
  dc_RRLBurst :: int
  dc_RRLWindow :: duration

record ('z, 'l) Handler =
  ha_cfg :: dns_Config
  ha_zone :: 'z
  ha_rateLimit :: "'l requestLimiter option"

definition NewHandler :: "dns_Config \<Rightarrow> 'z option \<Rightarrow> string + ('z, 'l) Handler" where
  "NewHandler cfg zone =
     (if dc_Zone cfg = [] then Inl ''dnsplugin: zone required''
      else case zone of
        None \<Rightarrow> Inl ''dnsplugin: zone provider required''
      | Some z \<Rightarrow>
          let cfg = (if dc_MaxAnswers cfg \<le> 0 then cfg\<lparr>dc_MaxAnswers := 4\<rparr> else cfg);
              cfg = (if dc_TTLService cfg = 0 then cfg\<lparr>dc_TTLService := 20\<rparr> else cfg);
              cfg = (if dc_TTLNSA cfg = 0 then cfg\<lparr>dc_TTLNSA := 30\<rparr> else cfg)
          in if dc_RRLRate cfg < 0 then Inl ''dnsplugin: rrl rate cannot be negative''
             else if dc_RRLWindow cfg < 0 then Inl ''dnsplugin: rrl window cannot be negative''
             else
               let limiter =
                     (if dc_RRLRate cfg > 0
                      then let burst = dc_RRLBurst cfg;
                               burst = (if burst \<le> 0
                                        then (let b = trunc_real (dc_RRLRate cfg * 2) in if b < 1 then 1 else b)
                                        else burst);
                               window = (if dc_RRLWindow cfg = 0 then 300 * second else dc_RRLWindow cfg)
                           in Some (newRequestLimiter (dc_RRLRate cfg) burst window)
                      else None)
               in Inr \<lparr>ha_cfg = cfg, ha_zone = z, ha_rateLimit = limiter\<rparr>)"

record ('z, 'l) handler_env =
  he_dns :: dns_env
  he_zone :: "'z ZoneView"
  he_rate :: "'l dns_rate"
  he_SetReply :: "dns_msg \<Rightarrow> dns_msg"

definition extractECS :: "dns_msg \<Rightarrow> IP option" where
  "extractECS msg =
     (let options = concat (map (\<lambda>rr. case rr_Data rr of RR_OPT os \<Rightarrow> os | _ \<Rightarrow> []) (ms_Extra msg));
          addresses = List.map_filter (\<lambda>os. case os of EDNS0_SUBNET ecs \<Rightarrow>
                          if sn_Address ecs = [] then None else Some (sn_Address ecs) | _ \<Rightarrow> None) options
      in case addresses of [] \<Rightarrow> None | ip # _ \<Rightarrow> Some ip)"

definition remoteIP :: "net_addr option \<Rightarrow> string" where
  "remoteIP addr =
     (case addr of
        None \<Rightarrow> []
      | Some (UDPAddr ip) \<Rightarrow> IP_String ip
      | Some (TCPAddr ip) \<Rightarrow> IP_String ip
      | Some (OtherAddr s) \<Rightarrow> (case SplitHostPort s of None \<Rightarrow> s | Some (host, _) \<Rightarrow> host))"

definition soaRecord :: "('z, 'l) handler_env \<Rightarrow> time \<Rightarrow> ('z, 'l) Handler \<Rightarrow> 'z \<times> RR" where
  "soaRecord he now h =
     (case zi_ZoneSerial (he_zone he) now (ha_zone h) of (z, serial) \<Rightarrow>
        let cfg = ha_cfg h;
            fqdn = de_Fqdn (he_dns he);
            nsLabel = (case dc_NSLabels cfg of [] \<Rightarrow> ''ns1.'' @ dc_Zone cfg | l # _ \<Rightarrow> l)
        in (z, \<lparr>rr_Hdr = \<lparr>rh_Name = fqdn (dc_Zone cfg), rh_Rrtype = TypeSOA, rh_Ttl = dc_TTLNSA cfg\<rparr>,
                rr_Data = RR_SOA \<lparr>soa_Ns = fqdn nsLabel, soa_Mbox = fqdn (''hostmaster.'' @ dc_Zone cfg),
                                  soa_Serial = serial, soa_Refresh = 600, soa_Retry = 120,
                                  soa_Expire = 604800, soa_Minttl = 60\<rparr>\<rparr>))"

definition matchServiceName :: "dns_env \<Rightarrow> dns_Config \<Rightarrow> string \<Rightarrow> (ChainID \<times> string) option" where
  "matchServiceName de cfg name =
     (let zone = de_Fqdn de (dc_Zone cfg)
      in if \<not> HasSuffix name zone then None
         else let label = TrimSuffix name zone;
                  parts = Split (TrimSuffix label ''.'') CHR ''.''
              in if length parts < 2 then None
                 else let chain = parts ! (length parts - 1)
                      in if list_ex (\<lambda>c. c = chain) (dc_Chains cfg) then Some (chain, parts ! 0) else None)"

definition allowedService :: "string \<Rightarrow> bool" where
  "allowedService svc \<longleftrightarrow> ToLower svc \<in> {''rpc'', ''lcd'', ''ws''}"

definition filterByType :: "RR list \<Rightarrow> qtype \<Rightarrow> RR list" where
  "filterByType records t = filter (\<lambda>rr. rh_Rrtype (rr_Hdr rr) = t) records"

definition decorateRecords :: "RR list \<Rightarrow> u32 \<Rightarrow> string \<Rightarrow> RR list" where
  "decorateRecords records t name =
     map (\<lambda>rr. rr\<lparr>rr_Hdr := (rr_Hdr rr)\<lparr>rh_Ttl := t, rh_Name := name\<rparr>\<rparr>) records"

definition buildHTTPSRecord :: "dns_Config \<Rightarrow> string \<Rightarrow> RR list \<Rightarrow> RR" where
  "buildHTTPSRecord cfg name hints =
     (let v4Hints = List.map_filter (\<lambda>rr. case rr_Data rr of RR_A ip \<Rightarrow> Some ip | _ \<Rightarrow> None) hints;
          v6Hints = List.map_filter (\<lambda>rr. case rr_Data rr of RR_AAAA ip \<Rightarrow> Some ip | _ \<Rightarrow> None) hints
      in \<lparr>rr_Hdr = \<lparr>rh_Name = name, rh_Rrtype = TypeHTTPS, rh_Ttl = dc_TTLService cfg\<rparr>,
          rr_Data = RR_HTTPS 1 ''.''
            ([SVCBAlpn [''h2'', ''http/1.1'']] @
             (if v4Hints \<noteq> [] then [SVCBIPv4Hint v4Hints] else []) @
             (if v6Hints \<noteq> [] then [SVCBIPv6Hint v6Hints] else []))\<rparr>)"

datatype service_error = errNoChainMatch | errZone string

text \<open>The request is passed by pointer: the second component is what the call leaves of it.\<close>

definition answerService ::
    "('z, 'l) handler_env \<Rightarrow> poll \<Rightarrow> ('z, 'l) Handler \<Rightarrow> string \<Rightarrow> qtype \<Rightarrow> dns_msg \<Rightarrow>
     (service_error + RR list) \<times> dns_msg" where
  "answerService he ctx h name qtype msg =
     (let cfg = ha_cfg h
      in case matchServiceName (he_dns he) cfg name of
           None \<Rightarrow> (Inl errNoChainMatch, msg)
         | Some (chainID, svc) \<Rightarrow>
             if \<not> allowedService svc then (Inl errNoChainMatch, msg)
             else
               let ecsIP = (if dc_EnableECS cfg then extractECS msg else None)
               in case zi_EdgeRecords (he_zone he) ctx (ha_zone h) chainID (dc_MaxAnswers cfg) ecsIP of
                    Inl err \<Rightarrow> (Inl (errZone err), msg)
                  | Inr records \<Rightarrow>
                      if records = [] then (Inl errNoChainMatch, msg)
                      else
                        let records = decorateRecords records (dc_TTLService cfg) name
                        in if qtype = TypeHTTPS
                           then (Inr [buildHTTPSRecord cfg name records], msg\<lparr>ms_Extra := ms_Extra msg @ records\<rparr>)
                           else let filtered = filterByType records qtype
                                in (Inr (if filtered = [] then records else filtered), msg))"

record ('z, 'l) dns_result =
  dn_handler :: "('z, 'l) Handler"
  dn_request :: dns_msg
  dn_written :: "dns_msg option"
  dn_rcode :: rcode
  dn_error :: "string option"

text \<open>The rate limit in front of every query.\<close>

definition limitQuery ::
    "('z, 'l) handler_env \<Rightarrow> time \<Rightarrow> ('z, 'l) Handler \<Rightarrow> net_addr option \<Rightarrow> ('z, 'l) Handler \<times> bool" where
  "limitQuery he now h remote =
     (case ha_rateLimit h of
        None \<Rightarrow> (h, True)
      | Some l \<Rightarrow> (case request_Allow (he_rate he) now l (remoteIP remote) of
                    (l', ok) \<Rightarrow> (h\<lparr>ha_rateLimit := Some l'\<rparr>, ok)))"

definition ServeDNS ::
    "('z, 'l) handler_env \<Rightarrow> time \<Rightarrow> poll \<Rightarrow> ('z, 'l) Handler \<Rightarrow> net_addr option \<Rightarrow> dns_msg \<Rightarrow> ('z, 'l) dns_result" where
  "ServeDNS he now ctx h remote r =
     (case ms_Question r of
        [] \<Rightarrow> \<lparr>dn_handler = h, dn_request = r, dn_written = None, dn_rcode = RcodeFormatError,
              dn_error = Some ''dnsplugin: empty question''\<rparr>
      | q # _ \<Rightarrow>
          let name = ToLower (de_Fqdn (he_dns he) (qu_Name q));
              msg = (he_SetReply he r)\<lparr>ms_Authoritative := True, ms_RecursionAvailable := False\<rparr>;
              (h, allowed) = limitQuery he now h remote
          in if \<not> allowed
             then \<lparr>dn_handler = h, dn_request = r, dn_written = Some (msg\<lparr>ms_Rcode := RcodeRefused\<rparr>),
                   dn_rcode = RcodeRefused, dn_error = None\<rparr>
             else case qu_Qtype q of
                TypeSOA \<Rightarrow>
                  (case soaRecord he now h of (z, rr) \<Rightarrow>
                     \<lparr>dn_handler = h\<lparr>ha_zone := z\<rparr>, dn_request = r,
                      dn_written = Some (msg\<lparr>ms_Answer := ms_Answer msg @ [rr]\<rparr>),
                      dn_rcode = RcodeSuccess, dn_error = None\<rparr>)
              | TypeNS \<Rightarrow>
                  (case zi_NSRecords (he_zone he) ctx (ha_zone h) of
                     Inl err \<Rightarrow> \<lparr>dn_handler = h, dn_request = r, dn_written = None,
                                 dn_rcode = RcodeServerFailure, dn_error = Some err\<rparr>
                   | Inr records \<Rightarrow>
                       \<lparr>dn_handler = h, dn_request = r,
                        dn_written = Some (msg\<lparr>ms_Answer := ms_Answer msg @ records\<rparr>),
                        dn_rcode = RcodeSuccess, dn_error = None\<rparr>)
              | TypeOther _ \<Rightarrow>
                  \<lparr>dn_handler = h, dn_request = r, dn_written = Some (msg\<lparr>ms_Rcode := RcodeNotImplemented\<rparr>),
                   dn_rcode = RcodeNotImplemented, dn_error = None\<rparr>
              | _ \<Rightarrow>
                  (case answerService he ctx h name (qu_Qtype q) r of
                     (Inl errNoChainMatch, r') \<Rightarrow>
                       \<lparr>dn_handler = h, dn_request = r', dn_written = Some (msg\<lparr>ms_Rcode := RcodeNameError\<rparr>),
                        dn_rcode = RcodeNameError, dn_error = None\<rparr>
                   | (Inl (errZone err), r') \<Rightarrow>
                       \<lparr>dn_handler = h, dn_request = r', dn_written = None,
                        dn_rcode = RcodeServerFailure, dn_error = Some err\<rparr>
                   | (Inr rr, r') \<Rightarrow>
                       \<lparr>dn_handler = h, dn_request = r',
                        dn_written = Some (msg\<lparr>ms_Answer := ms_Answer msg @ rr\<rparr>),
                        dn_rcode = RcodeSuccess, dn_error = None\<rparr>))"

lemma newRequestLimiter_fields [simp]:
  "rq_entries (newRequestLimiter perSecond burst t) = []" "rq_limit (newRequestLimiter perSecond burst t) = perSecond"
  "rq_burst (newRequestLimiter perSecond burst t) = burst" "rq_ttl (newRequestLimiter perSecond burst t) = t"
  by (simp_all add: newRequestLimiter_def Let_def)

text \<open>A handler comes out of every configuration whose limits are not negative.\<close>

lemma NewHandler_runs:
  assumes "dc_Zone cfg \<noteq> []" and "0 \<le> dc_RRLRate cfg" and "0 \<le> dc_RRLWindow cfg"
  shows "\<exists>h. NewHandler cfg (Some z) = Inr h \<and> ha_zone h = z \<and> dc_MaxAnswers (ha_cfg h) > 0 \<and> dc_TTLService (ha_cfg h) \<noteq> 0
    \<and> (if dc_RRLRate cfg > 0 then \<exists>l. ha_rateLimit h = Some l \<and> rq_burst l > 0 \<and> rq_ttl l > 0 else ha_rateLimit h = None)"
proof -
  define c1 where "c1 = (if dc_MaxAnswers cfg \<le> 0 then cfg\<lparr>dc_MaxAnswers := 4\<rparr> else cfg)"
  define c2 where "c2 = (if dc_TTLService c1 = 0 then c1\<lparr>dc_TTLService := 20\<rparr> else c1)"
  define c3 where "c3 = (if dc_TTLNSA c2 = 0 then c2\<lparr>dc_TTLNSA := 30\<rparr> else c2)"
  have c1: "dc_MaxAnswers c1 > 0" "dc_RRLRate c1 = dc_RRLRate cfg" "dc_RRLWindow c1 = dc_RRLWindow cfg"
    by (auto simp: c1_def)
  have c2: "dc_MaxAnswers c2 > 0" "dc_TTLService c2 \<noteq> 0" "dc_RRLRate c2 = dc_RRLRate cfg" "dc_RRLWindow c2 = dc_RRLWindow cfg"
    using c1 by (auto simp: c2_def)
  have c3: "dc_MaxAnswers c3 > 0" "dc_TTLService c3 \<noteq> 0" "dc_RRLRate c3 = dc_RRLRate cfg" "dc_RRLWindow c3 = dc_RRLWindow cfg"
    using c2 by (auto simp: c3_def)
  show ?thesis
    unfolding NewHandler_def Let_def option.case c1_def [symmetric] c2_def [symmetric] c3_def [symmetric]
    using assms c3 by (auto simp: second_def)
qed

section \<open>The limiter as a table of buckets\<close>

definition dns_bucket :: "'l dns_rate \<Rightarrow> 'l requestLimiter \<Rightarrow> string \<Rightarrow> 'l" where
  "dns_bucket ops r ip =
     (case map_of (rq_entries r) ip of
        None \<Rightarrow> dr_NewLimiter ops (rq_limit r) (rq_burst r) | Some e \<Rightarrow> le_limiter e)"

text \<open>All clients of the table were seen since \<open>t0\<close>.\<close>

definition recent :: "time \<Rightarrow> duration \<Rightarrow> 'l requestLimiter \<Rightarrow> bool" where
  "recent t0 d r \<longleftrightarrow> go_wf (rq_entries r) \<and> rq_ttl r = d \<and>
     (\<forall>ip e. map_of (rq_entries r) ip = Some e \<longrightarrow> t0 \<le> le_lastSeen e)"

lemma request_Allow_recent:
  assumes "recent t0 d r" and "ip \<noteq> []" and "t0 \<le> now" and "now \<le> t0 + d"
  obtains r' where "request_Allow ops now r ip = (r', snd (dr_Allow ops (dns_bucket ops r ip) now))"
    and "rq_ttl r' = d" and "rq_limit r' = rq_limit r" and "rq_burst r' = rq_burst r"
    and "go_wf (rq_entries r')"
    and "map_of (rq_entries r') =
      (map_of (rq_entries r))(ip \<mapsto> \<lparr>le_limiter = fst (dr_Allow ops (dns_bucket ops r ip) now), le_lastSeen = now\<rparr>)"
proof -
  have wf: "go_wf (rq_entries r)" and tl: "rq_ttl r = d"
    and seen: "\<And>ip e. map_of (rq_entries r) ip = Some e \<Longrightarrow> t0 \<le> le_lastSeen e"
    using assms(1) by (auto simp: recent_def)
  define r1 where "r1 = (if rq_cleanupPeriod r > 0 \<and>
       (IsZero (rq_lastCleanup r) \<or> time_Sub now (rq_lastCleanup r) \<ge> rq_cleanupPeriod r)
     then r\<lparr>rq_entries := range_delete (\<lambda>key entry. le_lastSeen entry < now - rq_ttl r) (rq_entries r),
            rq_lastCleanup := now\<rparr> else r)"
  have r1: "map_of (rq_entries r1) = map_of (rq_entries r)" "rq_ttl r1 = d" "rq_limit r1 = rq_limit r"
    "rq_burst r1 = rq_burst r" "go_wf (rq_entries r1)"
    using wf tl assms(4) seen
    by (fastforce simp: r1_def fun_eq_iff map_of_range_delete split: option.split)+
  show thesis
  proof (rule that)
    show "request_Allow ops now r ip = (r1\<lparr>rq_entries := go_set (rq_entries r1) ip
        \<lparr>le_limiter = fst (dr_Allow ops (dns_bucket ops r ip) now), le_lastSeen = now\<rparr>\<rparr>,
        snd (dr_Allow ops (dns_bucket ops r ip) now))"
      using assms(2) unfolding request_Allow_def r1_def [symmetric]
      by (simp add: Let_def r1 dns_bucket_def case_prod_unfold split: option.split)
  qed (simp_all add: r1)
qed

interpretation dns_table: bucket_table "\<lambda>r now ip. request_Allow ops now r ip" "dns_bucket ops" "dr_Allow ops"
    "recent t0 d" "\<lambda>t ip. ip \<noteq> [] \<and> t0 \<le> t \<and> t \<le> t0 + d" for ops t0 d
proof unfold_locales
  fix r :: "'a requestLimiter" and t :: time and ip i :: string
  assume r: "recent t0 d r" "ip \<noteq> [] \<and> t0 \<le> t \<and> t \<le> t0 + d"
  then obtain r' where r': "request_Allow ops t r ip = (r', snd (dr_Allow ops (dns_bucket ops r ip) t))"
    "rq_ttl r' = d" "rq_limit r' = rq_limit r" "rq_burst r' = rq_burst r" "go_wf (rq_entries r')"
    "map_of (rq_entries r') =
      (map_of (rq_entries r))(ip \<mapsto> \<lparr>le_limiter = fst (dr_Allow ops (dns_bucket ops r ip) t), le_lastSeen = t\<rparr>)"
    using request_Allow_recent by blast
  show "recent t0 d (fst (request_Allow ops t r ip))"
    using r r' by (auto simp: recent_def split: if_splits)
  show "snd (request_Allow ops t r ip) = snd (dr_Allow ops (dns_bucket ops r ip) t)" using r' by simp
  show "dns_bucket ops (fst (request_Allow ops t r ip)) i =
      (if i = ip then fst (dr_Allow ops (dns_bucket ops r ip) t) else dns_bucket ops r i)"
    using r' by (simp add: dns_bucket_def split: option.split)
qed

section \<open>The contract of a zone\<close>

text \<open>
  What the handler relies on: the records of a chain are address records from what the zone has to
  offer, no more than asked for, and the zone answers as long as the context is not cancelled.
\<close>

definition address_record :: "RR \<Rightarrow> bool" where
  "address_record rr \<longleftrightarrow>
     (rh_Rrtype (rr_Hdr rr) = TypeA \<and> (\<exists>ip. rr_Data rr = RR_A ip)) \<or>
     (rh_Rrtype (rr_Hdr rr) = TypeAAAA \<and> (\<exists>ip. rr_Data rr = RR_AAAA ip))"

lemma limitQuery_keeps:
  assumes "limitQuery he now h remote = (h1, ok)"
  shows "ha_cfg h1 = ha_cfg h" and "ha_zone h1 = ha_zone h"
  using assms by (auto simp: limitQuery_def split: option.splits prod.splits)

locale zone_contract =
  fixes zone :: "'z ZoneView" and good :: "'z \<Rightarrow> bool" and offer :: "'z \<Rightarrow> RR set"
  assumes edges_offered: "good z \<Longrightarrow> zi_EdgeRecords zone ctx z chain mx ecs = Inr rs \<Longrightarrow> set rs \<subseteq> offer z"
    and edges_limit: "good z \<Longrightarrow> zi_EdgeRecords zone ctx z chain mx ecs = Inr rs \<Longrightarrow> mx > 0 \<Longrightarrow> int (length rs) \<le> mx"
    and offer_addresses: "good z \<Longrightarrow> rr \<in> offer z \<Longrightarrow> address_record rr"
    and edges_run: "good z \<Longrightarrow> \<exists>rs. zi_EdgeRecords zone (\<lambda>_. None) z chain mx ecs = Inr rs"
    and names_run: "good z \<Longrightarrow> \<exists>rs. zi_NSRecords zone (\<lambda>_. None) z = Inr rs"
begin

lemma answer_addresses:
  assumes "good (ha_zone h)" and "he_zone he = zone" and "dc_MaxAnswers (ha_cfg h) > 0"
    and "answerService he ctx h name t r = (Inr rs, r')" and "t \<noteq> TypeHTTPS"
  obtains chain svc where "matchServiceName (he_dns he) (ha_cfg h) name = Some (chain, svc)"
    and "allowedService svc" and "rs \<noteq> []" and "int (length rs) \<le> dc_MaxAnswers (ha_cfg h)" and "r' = r"
    and "\<forall>rr \<in> set rs. rh_Name (rr_Hdr rr) = name \<and> rh_Ttl (rr_Hdr rr) = dc_TTLService (ha_cfg h)
      \<and> address_record rr \<and> rr_Data rr \<in> rr_Data ` offer (ha_zone h)"
proof -
  obtain chain svc where m: "matchServiceName (he_dns he) (ha_cfg h) name = Some (chain, svc)" "allowedService svc"
    using assms(4) by (auto simp: answerService_def Let_def split: option.splits if_splits)
  define ecs where "ecs = (if dc_EnableECS (ha_cfg h) then extractECS r else None)"
  obtain es where es: "zi_EdgeRecords zone ctx (ha_zone h) chain (dc_MaxAnswers (ha_cfg h)) ecs = Inr es" "es \<noteq> []"
    using assms(4) m by (auto simp: answerService_def Let_def assms(2) ecs_def split: if_splits sum.splits)
  let ?ds = "decorateRecords es (dc_TTLService (ha_cfg h)) name"
  have rs: "rs = (if filterByType ?ds t = [] then ?ds else filterByType ?ds t)" "r' = r"
    using assms(4,5) m es by (auto simp: answerService_def Let_def assms(2) ecs_def [symmetric])
  have sub: "set rs \<subseteq> set ?ds" using rs by (auto simp: filterByType_def)
  have "length rs \<le> length es" using rs by (auto simp: filterByType_def decorateRecords_def intro: order_trans)
  moreover have "rs \<noteq> []" using rs es(2) by (auto simp: decorateRecords_def)
  moreover have "rh_Name (rr_Hdr rr) = name \<and> rh_Ttl (rr_Hdr rr) = dc_TTLService (ha_cfg h)
      \<and> address_record rr \<and> rr_Data rr \<in> rr_Data ` offer (ha_zone h)" if ds: "rr \<in> set ?ds" for rr
  proof -
    obtain rr0 where rr0: "rr0 \<in> set es"
        "rr = rr0\<lparr>rr_Hdr := (rr_Hdr rr0)\<lparr>rh_Ttl := dc_TTLService (ha_cfg h), rh_Name := name\<rparr>\<rparr>"
      using ds by (auto simp: decorateRecords_def)
    have off: "rr0 \<in> offer (ha_zone h)" using edges_offered [OF assms(1) es(1)] rr0(1) by blast
    have "address_record rr0" using offer_addresses [OF assms(1) off] .
    with rr0(2) off show ?thesis by (auto simp: address_record_def)
  qed
  ultimately show thesis
    using m rs sub edges_limit [OF assms(1) es(1) assms(3)] by (intro that [of chain svc]) auto
qed

lemma answer_runs:
  assumes "good (ha_zone h)" and "he_zone he = zone"
  shows "(\<exists>rs r'. answerService he (\<lambda>_. None) h name t r = (Inr rs, r')) \<or>
    (\<exists>r'. answerService he (\<lambda>_. None) h name t r = (Inl errNoChainMatch, r'))"
proof (cases "matchServiceName (he_dns he) (ha_cfg h) name")
  case (Some cs)
  obtain chain svc where cs: "cs = (chain, svc)" by (cases cs)
  obtain rs where "zi_EdgeRecords zone (\<lambda>_. None) (ha_zone h) chain (dc_MaxAnswers (ha_cfg h))
      (if dc_EnableECS (ha_cfg h) then extractECS r else None) = Inr rs"
    using edges_run [OF assms(1)] by blast
  with Some cs show ?thesis by (simp add: answerService_def Let_def assms(2))
qed (simp add: answerService_def Let_def)

lemma serves:
  assumes "good (ha_zone h)" and "he_zone he = zone" and "ms_Question r \<noteq> []"
  shows "dn_written (ServeDNS he now (\<lambda>_. None) h remote r) \<noteq> None
    \<and> dn_error (ServeDNS he now (\<lambda>_. None) h remote r) = None"
proof -
  obtain q qs where q: "ms_Question r = q # qs" using assms(3) by (cases "ms_Question r") auto
  obtain h1 ok where lim: "limitQuery he now h remote = (h1, ok)" by (metis surj_pair)
  have z: "ha_zone h1 = ha_zone h" using limitQuery_keeps(2) [OF lim] .
  obtain ns where ns: "zi_NSRecords zone (\<lambda>_. None) (ha_zone h) = Inr ns"
    using names_run [OF assms(1)] by blast
  have "good (ha_zone h1)" using assms(1) by (simp add: z)
  note ans = answer_runs [OF this assms(2), of "ToLower (de_Fqdn (he_dns he) (qu_Name q))" "qu_Qtype q" r]
  show ?thesis
    unfolding ServeDNS_def q list.case Let_def lim prod.case
    using ans by (cases "qu_Qtype q") (auto simp: assms(2) z ns split: prod.split)
qed

end

text \<open>The zone of the registry keeps the contract, given a sorting routine that keeps its own.\<close>

lemma toRR_address: "toRR ip zone t = Some rr \<Longrightarrow> address_record rr"
  by (auto simp: toRR_def address_record_def split: option.splits)

interpretation registry: zone_contract "registry_zone de" "\<lambda>v. store_wf (zv_store v) \<and> sort_laws (de_sort de)"
    advertised for de
proof unfold_locales
  fix z :: RegistryZoneView and ctx chain mx ecs rs
  assume z: "store_wf (zv_store z) \<and> sort_laws (de_sort de)"
  note exact = EdgeRecords_exact [of z de ctx chain mx ecs rs]
  show "zi_EdgeRecords (registry_zone de) ctx z chain mx ecs = Inr rs \<Longrightarrow> set rs \<subseteq> advertised z"
    using exact z by (simp add: registry_zone_def)
  show "zi_EdgeRecords (registry_zone de) ctx z chain mx ecs = Inr rs \<Longrightarrow> mx > 0 \<Longrightarrow> int (length rs) \<le> mx"
    using exact z by (simp add: registry_zone_def)
  show "rr \<in> advertised z \<Longrightarrow> address_record rr" for rr
    by (auto simp: advertised_def intro: toRR_address)
  show "\<exists>rs. zi_EdgeRecords (registry_zone de) (\<lambda>_. None) z chain mx ecs = Inr rs"
    using EdgeRecords_runs [of "\<lambda>_. None"] by (simp add: registry_zone_def)
  show "\<exists>rs. zi_NSRecords (registry_zone de) (\<lambda>_. None) z = Inr rs"
    by (simp add: registry_zone_def NSRecords_def)
qed

section \<open>Matching of names\<close>

lemma Split_two: "sep \<notin> set a \<Longrightarrow> sep \<notin> set b \<Longrightarrow> Split (a @ sep # b) sep = [a, b]"
  by (simp add: Split_append_sep)

lemma TrimSuffix_other: "s \<noteq> [] \<Longrightarrow> last s \<noteq> c \<Longrightarrow> TrimSuffix s [c] = s"
  by (auto simp: TrimSuffix_def HasSuffix_def suffix_def)

lemma suffix_lower: "suffix z (ToLower n) \<Longrightarrow> ToLower z = z"
  by (auto simp: suffix_def ToLower_def map_eq_append_conv)

lemma lower_TrimSuffix: "ToLower s = s \<Longrightarrow> ToLower (TrimSuffix s p) = TrimSuffix s p"
  by (simp add: TrimSuffix_def ToLower_def take_map [symmetric])

lemma ToLower_fixed: "ToLower s = s \<longleftrightarrow> (\<forall>c \<in> set s. lower_char c = c)"
  by (simp add: ToLower_def map_idI) (metis map_idI map_eq_conv list.map_ident)

lemma Split_part_chars: "w \<in> set (Split s sep) \<Longrightarrow> set w \<subseteq> set s"
proof (induction s arbitrary: w)
  case (Cons c s)
  then show ?case by (cases "Split s sep") (fastforce split: if_splits)+
qed simp

lemma matchServiceName_lower:
  assumes "matchServiceName de cfg (ToLower n) = Some (chain, svc)"
  shows "ToLower (de_Fqdn de (dc_Zone cfg)) = de_Fqdn de (dc_Zone cfg)" and "ToLower chain = chain"
proof -
  let ?z = "de_Fqdn de (dc_Zone cfg)"
  define label where "label = TrimSuffix (TrimSuffix (ToLower n) ?z) ''.''"
  have m: "HasSuffix (ToLower n) ?z" "chain = Split label CHR ''.'' ! (length (Split label CHR ''.'') - 1)"
    using assms by (auto simp: matchServiceName_def Let_def label_def split: if_splits)
  show "ToLower ?z = ?z" using m(1) by (auto simp: HasSuffix_def intro: suffix_lower)
  have "chain \<in> set (Split label CHR ''.'')" using m(2) by simp
  moreover have "ToLower label = label" by (simp add: label_def lower_TrimSuffix)
  ultimately show "ToLower chain = chain" using Split_part_chars by (fastforce simp: ToLower_fixed)
qed

section \<open>Properties\<close>

definition demo_bucket :: "int dns_rate" where
  "demo_bucket = \<lparr>dr_NewLimiter = (\<lambda>limit burst. burst), dr_Allow = (\<lambda>n t. (n - 1, 0 < n))\<rparr>"

definition demo_henv :: "(RegistryZoneView, int) handler_env" where
  "demo_henv = \<lparr>he_dns = demo_dns, he_zone = registry_zone demo_dns, he_rate = demo_bucket,
     he_SetReply = (\<lambda>r. r\<lparr>ms_Answer := [], ms_Extra := [], ms_Rcode := RcodeSuccess\<rparr>)\<rparr>"

definition demo_cfg :: "string \<Rightarrow> dns_Config" where
  "demo_cfg zone = \<lparr>dc_Zone = zone, dc_Chains = [''c1''], dc_NSLabels = [], dc_TTLService = 20, dc_TTLNSA = 30,
     dc_MaxAnswers = 4, dc_EnableECS = True, dc_RRLRate = 0, dc_RRLBurst = 0, dc_RRLWindow = 0\<rparr>"

abbreviation demo_one :: Store where
  "demo_one \<equiv> demo_nodes [demo_node ''n1'' [[10, 0, 0, 1]]]"

definition demo_handler :: "(RegistryZoneView, int) Handler" where
  "demo_handler = \<lparr>ha_cfg = demo_cfg ''mesh'', ha_zone = demo_view demo_one, ha_rateLimit = None\<rparr>"

definition demo_query :: "qtype \<Rightarrow> dns_msg" where
  "demo_query t = \<lparr>ms_Question = [\<lparr>qu_Name = ''RPC.c1.mesh'', qu_Qtype = t\<rparr>], ms_Answer = [], ms_Extra = [],
     ms_Rcode = RcodeSuccess, ms_Authoritative = False, ms_RecursionAvailable = True\<rparr>"

lemma demo_handler_wf: "store_wf (zv_store (ha_zone demo_handler))"
  using demo_nodes_wf [of "[demo_node ''n1'' [[10, 0, 0, 1]]]"]
  by (simp add: demo_handler_def demo_view_def demo_node_def)

lemma demo_edges:
  "\<exists>rr. EdgeRecords demo_dns (\<lambda>_. None) (demo_view demo_one) ''c1'' 4 None = Inr [rr]"
  by (simp add: EdgeRecords_def NodeSnapshot_def lww_Snapshot_def demo_nodes_def demo_node_def demo_view_def
      client_location_def toRR_def To4_def Let_def demo_dns_def insertion_sort_def)

lemma demo_match: "matchServiceName demo_dns (demo_cfg ''mesh'') (ToLower ''RPC.c1.mesh.'') = Some (''c1'', ''rpc'')"
  by code_simp

lemma demo_serves:
  assumes "t \<in> {TypeA, TypeHTTPS}"
  shows "dn_rcode (ServeDNS demo_henv 0 (\<lambda>_. None) demo_handler None (demo_query t)) = RcodeSuccess"
proof -
  have "matchServiceName (he_dns demo_henv) (ha_cfg demo_handler) (ToLower (de_Fqdn (he_dns demo_henv) ''RPC.c1.mesh''))
      = Some (''c1'', ''rpc'')"
    using demo_match by (simp add: demo_henv_def demo_handler_def demo_dns_def)
  moreover obtain rr where "zi_EdgeRecords (he_zone demo_henv) (\<lambda>_. None) (ha_zone demo_handler) ''c1''
      (dc_MaxAnswers (ha_cfg demo_handler)) None = Inr [rr]"
    using demo_edges by (auto simp: demo_henv_def registry_zone_def demo_handler_def demo_cfg_def)
  moreover have "allowedService ''rpc''" by code_simp
  ultimately show ?thesis
    using assms by (auto simp: ServeDNS_def demo_query_def limitQuery_def demo_handler_def [THEN arg_cong [of _ _ ha_rateLimit]]
        answerService_def extractECS_def List.map_filter_simps Let_def)
qed

text \<open>
  C14. Address answers are right. When a query for addresses succeeds on the zone of the registry,
  the name has a configured chain and a known service, and the answer has between one and
  \<^verbatim>\<open>MaxAnswers\<close> address records, all under the name asked for, with the service time to live, and
  with addresses that live name-serving nodes advertise.
\<close>

theorem dns_answers_advertised:
  assumes "store_wf (zv_store (ha_zone h))" and "sort_laws (de_sort (he_dns he))"
    and "he_zone he = registry_zone (he_dns he)" and "dc_MaxAnswers (ha_cfg h) > 0"
    and "ms_Question r = q # qs" and "qu_Qtype q \<in> {TypeA, TypeAAAA}" and "ms_Answer (he_SetReply he r) = []"
    and "dn_rcode (ServeDNS he now ctx h remote r) = RcodeSuccess"
  shows "\<exists>m chain svc. dn_written (ServeDNS he now ctx h remote r) = Some m
    \<and> matchServiceName (he_dns he) (ha_cfg h) (ToLower (de_Fqdn (he_dns he) (qu_Name q))) = Some (chain, svc)
    \<and> allowedService svc \<and> ms_Answer m \<noteq> [] \<and> int (length (ms_Answer m)) \<le> dc_MaxAnswers (ha_cfg h)
    \<and> (\<forall>rr \<in> set (ms_Answer m). rh_Name (rr_Hdr rr) = ToLower (de_Fqdn (he_dns he) (qu_Name q))
        \<and> rh_Ttl (rr_Hdr rr) = dc_TTLService (ha_cfg h) \<and> address_record rr
        \<and> rr_Data rr \<in> rr_Data ` advertised (ha_zone h))"
proof -
  let ?name = "ToLower (de_Fqdn (he_dns he) (qu_Name q))"
  obtain h1 ok where lim: "limitQuery he now h remote = (h1, ok)" by (metis surj_pair)
  note keep = limitQuery_keeps [OF lim]
  obtain out r' where a: "answerService he ctx h1 ?name (qu_Qtype q) r = (out, r')" by (metis surj_pair)
  obtain rs where out: "out = Inr rs" and w: "dn_written (ServeDNS he now ctx h remote r) =
      Some ((he_SetReply he r)\<lparr>ms_Authoritative := True, ms_RecursionAvailable := False, ms_Answer := rs\<rparr>)"
    using assms(6-8) a unfolding ServeDNS_def assms(5) list.case Let_def lim prod.case
    by (auto split: if_splits sum.splits service_error.splits)
  have good: "store_wf (zv_store (ha_zone h1)) \<and> sort_laws (de_sort (he_dns he))" using assms(1,2) by (simp add: keep)
  have mx: "dc_MaxAnswers (ha_cfg h1) > 0" using assms(4) by (simp add: keep)
  have t: "qu_Qtype q \<noteq> TypeHTTPS" using assms(6) by auto
  show ?thesis
    by (rule registry.answer_addresses [OF good assms(3) mx a [unfolded out] t]) (use w in \<open>auto simp: keep\<close>)
qed

theorem dns_answers_advertised_witness:
  "\<exists>m. dn_written (ServeDNS demo_henv 0 (\<lambda>_. None) demo_handler None (demo_query TypeA)) = Some m
    \<and> ms_Answer m \<noteq> [] \<and> int (length (ms_Answer m)) \<le> 4"
  using dns_answers_advertised [of demo_handler demo_henv "demo_query TypeA" _ "[]" 0 "\<lambda>_. None" None]
    demo_handler_wf demo_sort_laws demo_serves [of TypeA]
  by (auto simp: demo_henv_def demo_query_def demo_handler_def demo_cfg_def)

text \<open>
  C15. The server always replies. On the zone of the registry, a query with a question whose context
  is not cancelled is answered with a message and without an error.
\<close>

theorem dns_always_replies:
  assumes "store_wf (zv_store (ha_zone h))" and "sort_laws (de_sort (he_dns he))"
    and "he_zone he = registry_zone (he_dns he)" and "ms_Question r \<noteq> []"
  shows "dn_written (ServeDNS he now (\<lambda>_. None) h remote r) \<noteq> None
    \<and> dn_error (ServeDNS he now (\<lambda>_. None) h remote r) = None"
  using registry.serves [OF _ assms(3,4)] assms(1,2) by simp

theorem dns_always_replies_witness:
  "dn_written (ServeDNS demo_henv 0 (\<lambda>_. None) demo_handler None (demo_query TypeHTTPS)) \<noteq> None"
  using dns_always_replies [of demo_handler demo_henv "demo_query TypeHTTPS" 0 None] demo_handler_wf demo_sort_laws
  by (simp add: demo_henv_def demo_query_def)

text \<open>
  The hints of an HTTPS answer repeat the addresses of the records, but the records themselves
  go to the additional section of the request, and not of the reply: what the server sends has the
  additional section that \<^verbatim>\<open>SetReply\<close> gave it.
\<close>

theorem dns_https_hints_lost:
  assumes "ms_Question r = q # qs" and "qu_Qtype q = TypeHTTPS"
    and "dn_rcode (ServeDNS he now ctx h remote r) = RcodeSuccess"
    and "dn_written (ServeDNS he now ctx h remote r) = Some m"
  shows "ms_Extra m = ms_Extra (he_SetReply he r)
    \<and> ms_Extra (dn_request (ServeDNS he now ctx h remote r)) \<noteq> ms_Extra r"
proof -
  obtain h1 ok where lim: "limitQuery he now h remote = (h1, ok)" by (metis surj_pair)
  show ?thesis
    using assms(3,4) unfolding ServeDNS_def assms(1,2) list.case Let_def lim prod.case
    by (auto simp: answerService_def Let_def decorateRecords_def
        split: if_splits sum.splits service_error.splits option.splits prod.splits)
qed

theorem dns_https_hints_lost_witness:
  "ms_Extra (dn_request (ServeDNS demo_henv 0 (\<lambda>_. None) demo_handler None (demo_query TypeHTTPS))) \<noteq> []"
proof -
  have ok: "dn_rcode (ServeDNS demo_henv 0 (\<lambda>_. None) demo_handler None (demo_query TypeHTTPS)) = RcodeSuccess"
    by (rule demo_serves) simp
  obtain m where "dn_written (ServeDNS demo_henv 0 (\<lambda>_. None) demo_handler None (demo_query TypeHTTPS)) = Some m"
    using demo_handler_wf demo_sort_laws registry.serves [of demo_handler demo_dns demo_henv "demo_query TypeHTTPS"]
    by (auto simp: demo_henv_def demo_query_def)
  with dns_https_hints_lost [OF _ _ ok] show ?thesis by (auto simp: demo_query_def)
qed

text \<open>
  Clients do not share tokens: within one lifetime of the limiter's entries, the answers a client
  gets in any interleaving with the others are those of a bucket of its own.
\<close>

theorem dns_limit_isolated:
  assumes "list_all (\<lambda>(t, i). i \<noteq> [] \<and> t0 \<le> t \<and> t \<le> t0 + d) calls"
  shows "answers ip (snd (table_run (\<lambda>r now i. request_Allow ops now r i) (newRequestLimiter perSecond burst d) calls)) =
    snd (bucket_run (dr_Allow ops) (dr_NewLimiter ops perSecond burst) (instants ip calls))"
proof -
  have "recent t0 d (newRequestLimiter perSecond burst d)" by (simp add: recent_def newRequestLimiter_def Let_def)
  from dns_table.run_isolated [OF this assms, of ip ops] show ?thesis
    by (simp add: dns_bucket_def newRequestLimiter_def Let_def)
qed

theorem dns_limit_isolated_witness:
  "answers ''a'' (snd (table_run (\<lambda>r now i. request_Allow demo_bucket now r i) (newRequestLimiter 1 1 600)
     [(0, ''a''), (1, ''b''), (2, ''b''), (3, ''a'')])) = [True, False]"
  by (subst dns_limit_isolated [of 0]) (simp_all add: demo_bucket_def instants_def)

text \<open>
  The zone is matched without a label boundary: for a chain without dots, the name in which the
  chain runs straight into the zone (a name of another domain) is answered like the name in the zone.
\<close>

theorem dns_no_label_boundary:
  assumes "chain \<in> set (dc_Chains cfg)" and "CHR ''.'' \<notin> set chain" and "chain \<noteq> []"
  shows "matchServiceName de cfg (''rpc.'' @ chain @ ''.'' @ de_Fqdn de (dc_Zone cfg)) = Some (chain, ''rpc'')
    \<and> matchServiceName de cfg (''rpc.'' @ chain @ de_Fqdn de (dc_Zone cfg)) = Some (chain, ''rpc'')"
proof -
  let ?z = "de_Fqdn de (dc_Zone cfg)"
  have sp: "Split (''rpc.'' @ chain) CHR ''.'' = [''rpc'', chain]"
    using Split_two [of "CHR ''.''" "''rpc''" chain] assms(2) by simp
  have last: "last (''rpc.'' @ chain) \<noteq> CHR ''.''"
    using assms(2,3) by (metis append_is_Nil_conv last_append last_in_set)
  have step: "matchServiceName de cfg (l @ ?z) = Some (chain, ''rpc'')"
    if "TrimSuffix l ''.'' = ''rpc.'' @ chain" for l
    using assms(1) sp that by (simp add: matchServiceName_def HasSuffix_def suffix_def Let_def list_ex_iff)
  show ?thesis
    using step [of "(''rpc.'' @ chain) @ ''.''"] step [of "''rpc.'' @ chain"] TrimSuffix_other [OF _ last]
      TrimSuffix_append [of "''rpc.'' @ chain" "''.''"] by simp
qed

theorem dns_no_label_boundary_witness:
  "matchServiceName demo_dns (demo_cfg ''mesh'') ''rpc.c1mesh.'' = Some (''c1'', ''rpc'')"
  using dns_no_label_boundary [of "''c1''" "demo_cfg ''mesh''" demo_dns] by (simp add: demo_cfg_def demo_dns_def)

text \<open>
  Capital letters make a zone or a chain unreachable: names are lowered before they are
  compared, configured zones and chains are not.
\<close>

theorem dns_capitals_never_match:
  assumes "ToLower (de_Fqdn de (dc_Zone cfg)) \<noteq> de_Fqdn de (dc_Zone cfg)
    \<or> (\<forall>chain \<in> set (dc_Chains cfg). ToLower chain \<noteq> chain)"
  shows "matchServiceName de cfg (ToLower n) = None"
proof (rule ccontr)
  assume "matchServiceName de cfg (ToLower n) \<noteq> None"
  then obtain chain svc where m: "matchServiceName de cfg (ToLower n) = Some (chain, svc)" by auto
  then have "chain \<in> set (dc_Chains cfg)" by (auto simp: matchServiceName_def Let_def list_ex_iff split: if_splits)
  with assms matchServiceName_lower [OF m] show False by auto
qed

theorem dns_capitals_never_match_witness:
  "matchServiceName demo_dns (demo_cfg ''Mesh'') (ToLower ''rpc.c1.Mesh.'') = None"
proof (rule dns_capitals_never_match)
  show "ToLower (de_Fqdn demo_dns (dc_Zone (demo_cfg ''Mesh''))) \<noteq> de_Fqdn demo_dns (dc_Zone (demo_cfg ''Mesh''))
    \<or> (\<forall>chain \<in> set (dc_Chains (demo_cfg ''Mesh'')). ToLower chain \<noteq> chain)" by code_simp
qed

end
