(* ===== verification/Client_Subnet.thy ===== *)
theory Client_Subnet
  imports Dns_Handler
begin

text \<open>
  \<^verbatim>\<open>pkg/ecs/ecs.go\<close>: the client subnet option of EDNS and arithmetic on subnets. \<^verbatim>\<open>IsEdns0\<close> and
  \<^verbatim>\<open>SetEdns0\<close> of \<^verbatim>\<open>miekg/dns\<close> are arguments; the first returns a pointer into the additional section,
  here the position in it. The nil address is the empty list, or \<open>None\<close> as a result.
\<close>

unbundle bit_operations_syntax

section \<open>Options\<close>

record ClientSubnet =
  cs_Family :: u16
  cs_SourcePrefix :: u8
  cs_ScopePrefix :: u8
  cs_Address :: IP

record edns_ops =
  eo_IsEdns0 :: "dns_msg \<Rightarrow> nat option"
  eo_SetEdns0 :: "dns_msg \<Rightarrow> dns_msg"

definition opt_options :: "RR \<Rightarrow> edns_option list" where
  "opt_options rr = (case rr_Data rr of RR_OPT os \<Rightarrow> os | _ \<Rightarrow> [])"

fun first_subnet :: "edns_option list \<Rightarrow> ClientSubnet option" where
  "first_subnet [] = None"
| "first_subnet (EDNS0_SUBNET subnet # _) =
     Some \<lparr>cs_Family = sn_Family subnet, cs_SourcePrefix = sn_SourceNetmask subnet, cs_ScopePrefix = 0,
           cs_Address = sn_Address subnet\<rparr>"
| "first_subnet (_ # options) = first_subnet options"

text \<open>The error is always nil.\<close>

definition ParseECS :: "edns_ops \<Rightarrow> dns_msg \<Rightarrow> ClientSubnet option" where
  "ParseECS ops msg =
     (case eo_IsEdns0 ops msg of
        None \<Rightarrow> None
      | Some i \<Rightarrow> first_subnet (opt_options (ms_Extra msg ! i)))"

text \<open>\<open>None\<close> is the panic on a nil pointer, when \<^verbatim>\<open>SetEdns0\<close> did not add the record.\<close>

definition AddECS :: "edns_ops \<Rightarrow> dns_msg \<Rightarrow> ClientSubnet \<Rightarrow> dns_msg option" where
  "AddECS ops msg subnet =
     (let (msg, opt) = (case eo_IsEdns0 ops msg of
                          None \<Rightarrow> (let msg = eo_SetEdns0 ops msg in (msg, eo_IsEdns0 ops msg))
                        | Some i \<Rightarrow> (msg, Some i));
          ecs = EDNS0_SUBNET \<lparr>sn_Family = cs_Family subnet, sn_SourceNetmask = cs_SourcePrefix subnet,
                             sn_SourceScope = cs_ScopePrefix subnet, sn_Address = cs_Address subnet\<rparr>
      in case opt of
           None \<Rightarrow> None
         | Some i \<Rightarrow>
             Some (msg\<lparr>ms_Extra := (ms_Extra msg)[i := (ms_Extra msg ! i)
                         \<lparr>rr_Data := RR_OPT (opt_options (ms_Extra msg ! i) @ [ecs])\<rparr>]\<rparr>))"

definition GetClientIP :: "edns_ops \<Rightarrow> dns_msg \<Rightarrow> net_addr option \<Rightarrow> IP" where
  "GetClientIP ops msg remoteAddr =
     (case ParseECS ops msg of
        Some subnet \<Rightarrow> cs_Address subnet
      | None \<Rightarrow> (case remoteAddr of Some (UDPAddr ip) \<Rightarrow> ip | Some (TCPAddr ip) \<Rightarrow> ip | _ \<Rightarrow> []))"

section \<open>Addresses\<close>

definition TruncateIP :: "IP \<Rightarrow> u8 \<Rightarrow> IP option" where
  "TruncateIP ip prefixLen =
     (if ip = [] then None
      else case To16 ip of
        None \<Rightarrow> None
      | Some ip16 \<Rightarrow>
          let isIPv4 = (To4 ip \<noteq> None);
              maxLen = (if isIPv4 then 32 else 128 :: u8);
              prefixLen = (if prefixLen > maxLen then maxLen else prefixLen);
              msk = CIDRMask (unat prefixLen) (unat maxLen);
              result = map (\<lambda>i. if isIPv4 \<and> i < 12 then ip16 ! i
                                else let idx = (if isIPv4 then i - 12 else i)
                                     in if idx < length msk then ip16 ! i AND msk ! idx else 0)
                         [0..<length ip16]
          in if isIPv4 then To4 result else Some result)"

definition SubnetKey :: "IP \<Rightarrow> u8 \<Rightarrow> string" where
  "SubnetKey ip prefixLen =
     (case TruncateIP ip prefixLen of
        None \<Rightarrow> [] | Some truncated \<Rightarrow> IP_String truncated @ ''/'' @ dec (unat prefixLen))"

definition IPToBytes :: "IP \<Rightarrow> bytes option" where
  "IPToBytes ip = (case To4 ip of Some ip4 \<Rightarrow> Some ip4 | None \<Rightarrow> To16 ip)"

definition BytesToIP :: "bytes \<Rightarrow> IP option" where
  "BytesToIP b =
     (if length b = 4 then Some (IPv4 (b ! 0) (b ! 1) (b ! 2) (b ! 3))
      else if length b = 16 then Some b else None)"

definition IPToUint32 :: "IP \<Rightarrow> u32" where
  "IPToUint32 ip = (case To4 ip of None \<Rightarrow> 0 | Some ip4 \<Rightarrow> be_Uint32 ip4)"

definition Uint32ToIP :: "u32 \<Rightarrow> IP" where
  "Uint32ToIP n = (let b = be_PutUint32 n in IPv4 (b ! 0) (b ! 1) (b ! 2) (b ! 3))"

section \<open>Truncation, bit by bit\<close>

text \<open>Clearing all but the first bits of an address in its shortest form.\<close>

definition trunc_bits :: "nat \<Rightarrow> bytes \<Rightarrow> bytes" where
  "trunc_bits n b = map (\<lambda>i. b ! i AND mask_byte (n - 8 * i)) [0..<length b]"

text \<open>Bit \<open>k\<close> of an address, counted from the most significant bit of the first byte.\<close>

definition addr_bit :: "bytes \<Rightarrow> nat \<Rightarrow> bool" where
  "addr_bit b k \<longleftrightarrow> bit (b ! (k div 8)) (7 - k mod 8)"

lemma length_trunc_bits [simp]: "length (trunc_bits n b) = length b"
  by (simp add: trunc_bits_def)

lemma trunc_bits_nth: "i < length b \<Longrightarrow> trunc_bits n b ! i = b ! i AND mask_byte (n - 8 * i)"
  by (simp add: trunc_bits_def)

lemma bit_trunc_bits:
  "i < length b \<Longrightarrow> bit (trunc_bits n b ! i) j \<longleftrightarrow> bit (b ! i) j \<and> j < 8 \<and> 8 \<le> j + (n - 8 * i)"
  by (simp add: trunc_bits_nth bit_and_iff bit_mask_byte)

lemma trunc_bits_full: "i < length b \<Longrightarrow> 8 * i + 8 \<le> n \<Longrightarrow> trunc_bits n b ! i = b ! i"
  by (rule bit_word_eqI) (auto simp: bit_trunc_bits)

lemma byte_eq_addr:
  assumes "length a = length b"
  shows "a = b \<longleftrightarrow> (\<forall>k < 8 * length a. addr_bit a k = addr_bit b k)"
proof
  assume bits: "\<forall>k < 8 * length a. addr_bit a k = addr_bit b k"
  show "a = b"
  proof (rule nth_equalityI)
    fix i assume i: "i < length a"
    show "a ! i = b ! i"
    proof (rule bit_word_eqI)
      fix j assume "j < LENGTH(8)"
      then have j: "j < 8" by simp
      obtain d where d: "d < 8" "7 - d = j" using j by (intro that [of "7 - j"]) auto
      then have "(8 * i + d) div 8 = i" "(8 * i + d) mod 8 = d" "8 * i + d < 8 * length a" using i by simp_all
      then show "bit (a ! i) j \<longleftrightarrow> bit (b ! i) j"
        using bits [rule_format, of "8 * i + d"] d by (simp add: addr_bit_def)
    qed
  qed (rule assms)
qed simp

lemma addr_bit_trunc:
  assumes "k < 8 * length b"
  shows "addr_bit (trunc_bits n b) k \<longleftrightarrow> addr_bit b k \<and> k < n"
proof -
  have "k div 8 < length b" using assms by (simp add: div_less_iff_less_mult mult.commute)
  moreover have "8 \<le> 7 - k mod 8 + (n - 8 * (k div 8)) \<longleftrightarrow> k < n"
    using mod_less_divisor [of 8 k] div_mult_mod_eq [of k 8] by linarith
  ultimately show ?thesis by (auto simp: addr_bit_def bit_trunc_bits)
qed

lemma trunc_bits_nested: "m \<le> n \<Longrightarrow> trunc_bits m (trunc_bits n b) = trunc_bits m b"
  by (subst byte_eq_addr) (auto simp: addr_bit_trunc)

lemma trunc_bits_agree:
  assumes "length a = length b"
  shows "trunc_bits n a = trunc_bits n b \<longleftrightarrow> (\<forall>k < min n (8 * length a). addr_bit a k = addr_bit b k)"
  using assms by (subst byte_eq_addr) (auto simp: addr_bit_trunc)

text \<open>The source's loop is truncation of the shortest form, for every prefix length.\<close>

lemma mask_byte_clamp: "i < l \<Longrightarrow> 8 * l \<le> n \<Longrightarrow> mask_byte (8 * l - 8 * i) = mask_byte (n - 8 * i)"
  by (simp add: mask_byte_def)

lemma mask_clamped:
  assumes "i < unat mx div 8" and "8 dvd unat mx"
  shows "CIDRMask (unat (if p > mx then mx else p)) (unat (mx :: u8)) ! i = mask_byte (unat p - 8 * i)"
proof (cases "p > mx")
  case True
  then have "unat mx \<le> unat p" by (simp add: word_less_nat_alt)
  with True assms show ?thesis
    using mask_byte_clamp [of i "unat mx div 8" "unat p"] by (simp add: CIDRMask_nth)
qed (use assms in \<open>simp add: CIDRMask_nth\<close>)

lemma TruncateIP_bits: "TruncateIP ip p = map_option (trunc_bits (unat p)) (IPToBytes ip)"
proof (cases "To4 ip")
  case (Some v)
  have v: "length v = 4" "To16 ip = Some (v4InV6Prefix @ v)" using To4_length [OF Some] To4_To16 [OF Some] .
  let ?m = "CIDRMask (unat (if p > 32 then 32 else p)) (unat (32 :: u8))"
  have "map (\<lambda>i. if i < 12 then (v4InV6Prefix @ v) ! i
        else if i - 12 < length ?m then (v4InV6Prefix @ v) ! i AND ?m ! (i - 12) else 0) [0..<16]
      = v4InV6Prefix @ trunc_bits (unat p) v" (is "map ?f _ = _")
  proof (rule nth_equalityI)
    fix i assume "i < length (map ?f [0..<16])"
    then have i: "i < 16" "\<not> i < 12 \<Longrightarrow> i - 12 < 4" by auto
    show "map ?f [0..<16] ! i = (v4InV6Prefix @ trunc_bits (unat p) v) ! i"
      using i v mask_clamped [of "i - 12" 32 p]
      by (cases "i < 12") (simp_all add: nth_append trunc_bits_nth Let_def)
  qed (simp add: v)
  moreover have "ip \<noteq> []" using Some by (auto simp: To4_def)
  then have "TruncateIP ip p = To4 (map ?f [0..<16])" by (simp add: TruncateIP_def Some v Let_def cong: if_cong)
  moreover have "To4 (v4InV6Prefix @ trunc_bits (unat p) v) = Some (trunc_bits (unat p) v)" by (simp add: To4_def v)
  ultimately show ?thesis by (simp add: Some IPToBytes_def)
next
  case None
  show ?thesis
  proof (cases "To16 ip")
    case (Some w)
    have w: "length w = 16" using To16_length [OF Some] .
    let ?m = "CIDRMask (unat (if p > 128 then 128 else p)) (unat (128 :: u8))"
    have "map (\<lambda>i. if i < length ?m then w ! i AND ?m ! i else 0) [0..<16] = trunc_bits (unat p) w"
      using mask_clamped [of _ 128 p] by (auto simp: trunc_bits_def w)
    moreover have "ip \<noteq> []" using Some by (auto simp: To16_def)
    then have "TruncateIP ip p = Some (map (\<lambda>i. if i < length ?m then w ! i AND ?m ! i else 0) [0..<16])"
      by (simp add: TruncateIP_def None Some w Let_def cong: if_cong)
    ultimately show ?thesis by (simp add: None Some IPToBytes_def)
  qed (simp add: TruncateIP_def IPToBytes_def None)
qed

text \<open>Truncating an address that is not IPv4 never yields the mapped form of an IPv4 address.\<close>

lemma trunc_not_v4:
  assumes "length b = 16" and "To4 b = None"
  shows "To4 (trunc_bits n b) = None"
proof (rule ccontr)
  let ?t = "trunc_bits n b"
  assume "To4 ?t \<noteq> None"
  then have pre: "take 12 ?t = v4InV6Prefix" using assms(1) by (auto simp: To4_def split: if_splits)
  have "?t ! 11 = take 12 ?t ! 11" by simp
  then have "?t ! 11 = 255" unfolding pre by (simp add: v4InV6Prefix_def nth_append)
  moreover have "bit (255 :: u8) 0" by simp
  ultimately have "96 \<le> n" using assms(1) bit_trunc_bits [of 11 b n 0] by simp arith
  then have "take 12 ?t = take 12 b"
    using assms(1) by (intro nth_equalityI) (auto simp: trunc_bits_full)
  with pre assms show False by (simp add: To4_def)
qed

lemma IPToBytes_trunc:
  assumes "IPToBytes ip = Some b"
  shows "IPToBytes (trunc_bits n b) = Some (trunc_bits n b)"
proof (cases "To4 ip")
  case (Some v)
  with assms To4_length [OF Some] show ?thesis by (simp add: IPToBytes_def To4_def)
next
  case None
  with assms have b: "To16 ip = Some b" by (simp add: IPToBytes_def)
  have "To4 b = None" using None b by (auto simp: To16_def To4_def split: if_splits)
  with trunc_not_v4 [of b n] To16_length [OF b] show ?thesis by (simp add: IPToBytes_def To16_def)
qed

section \<open>Laws of the library\<close>

text \<open>
  What \<^verbatim>\<open>IsEdns0\<close> and \<^verbatim>\<open>SetEdns0\<close> promise: the pointer is into the additional section, a message
  without the record gets one without options, and changing the options keeps the record.
\<close>

definition edns_laws :: "edns_ops \<Rightarrow> bool" where
  "edns_laws ops \<longleftrightarrow>
     (\<forall>m i. eo_IsEdns0 ops m = Some i \<longrightarrow> i < length (ms_Extra m)) \<and>
     (\<forall>m. eo_IsEdns0 ops m = None \<longrightarrow>
        (\<exists>i. eo_IsEdns0 ops (eo_SetEdns0 ops m) = Some i \<and> opt_options (ms_Extra (eo_SetEdns0 ops m) ! i) = [])) \<and>
     (\<forall>m i os. eo_IsEdns0 ops m = Some i \<longrightarrow>
        eo_IsEdns0 ops (m\<lparr>ms_Extra := (ms_Extra m)[i := (ms_Extra m ! i)\<lparr>rr_Data := RR_OPT os\<rparr>]\<rparr>) = Some i)"

lemma first_subnet_append:
  "first_subnet (os @ [EDNS0_SUBNET s]) =
     (case first_subnet os of Some c \<Rightarrow> Some c | None \<Rightarrow> first_subnet [EDNS0_SUBNET s])"
  by (induction os rule: first_subnet.induct) simp_all

lemma AddECS_at:
  assumes "edns_laws ops" and "eo_IsEdns0 ops m = Some i"
  shows "\<exists>m'. AddECS ops m subnet = Some m' \<and>
    ParseECS ops m' = (case first_subnet (opt_options (ms_Extra m ! i)) of
        Some c \<Rightarrow> Some c | None \<Rightarrow> Some (subnet\<lparr>cs_ScopePrefix := 0\<rparr>))"
proof -
  have "i < length (ms_Extra m)"
    and "eo_IsEdns0 ops (m\<lparr>ms_Extra := (ms_Extra m)[i := (ms_Extra m ! i)\<lparr>rr_Data := RR_OPT os\<rparr>]\<rparr>) = Some i" for os
    using assms unfolding edns_laws_def by blast+
  then show ?thesis
    by (simp add: AddECS_def assms(2) ParseECS_def opt_options_def first_subnet_append split: option.split)
qed

section \<open>Properties\<close>

text \<open>
  C34. A subnet put into a message is read back, without its scope, when the message had none; a
  message that has one already keeps answering with the old one. Adding never fails.
\<close>

theorem ecs_round_trip:
  assumes "edns_laws ops"
  shows "\<exists>m'. AddECS ops m subnet = Some m' \<and>
    ParseECS ops m' = (case ParseECS ops m of Some c \<Rightarrow> Some c | None \<Rightarrow> Some (subnet\<lparr>cs_ScopePrefix := 0\<rparr>))
    \<and> GetClientIP ops m' remote = (case ParseECS ops m of Some c \<Rightarrow> cs_Address c | None \<Rightarrow> cs_Address subnet)"
proof (cases "eo_IsEdns0 ops m")
  case (Some i)
  then have old: "ParseECS ops m = first_subnet (opt_options (ms_Extra m ! i))" by (simp add: ParseECS_def)
  obtain m' where "AddECS ops m subnet = Some m'"
    "ParseECS ops m' = (case ParseECS ops m of Some c \<Rightarrow> Some c | None \<Rightarrow> Some (subnet\<lparr>cs_ScopePrefix := 0\<rparr>))"
    using AddECS_at [OF assms Some, of subnet] unfolding old by blast
  then show ?thesis by (intro exI [of _ m']) (simp add: GetClientIP_def split: option.split)
next
  case None
  then obtain i where i: "eo_IsEdns0 ops (eo_SetEdns0 ops m) = Some i" "opt_options (ms_Extra (eo_SetEdns0 ops m) ! i) = []"
    using assms unfolding edns_laws_def by blast
  have "AddECS ops m subnet = AddECS ops (eo_SetEdns0 ops m) subnet" by (simp add: AddECS_def None i(1))
  moreover have "ParseECS ops m = None" by (simp add: ParseECS_def None)
  ultimately show ?thesis
    using AddECS_at [OF assms i(1), of subnet] by (auto simp: i(2) GetClientIP_def)
qed

text \<open>A concrete pair of operations: the record is looked up in front, and put in front.\<close>

definition demo_edns :: edns_ops where
  "demo_edns = \<lparr>eo_IsEdns0 = (\<lambda>m. case ms_Extra m of [] \<Rightarrow> None
       | rr # _ \<Rightarrow> (case rr_Data rr of RR_OPT _ \<Rightarrow> Some 0 | _ \<Rightarrow> None)),
     eo_SetEdns0 = (\<lambda>m. m\<lparr>ms_Extra := \<lparr>rr_Hdr = \<lparr>rh_Name = ''.'', rh_Rrtype = TypeOther 41, rh_Ttl = 0\<rparr>,
        rr_Data = RR_OPT []\<rparr> # ms_Extra m\<rparr>)\<rparr>"

lemma demo_edns_laws: "edns_laws demo_edns"
  by (auto simp: edns_laws_def demo_edns_def opt_options_def split: list.splits RR_data.splits)

theorem ecs_round_trip_witness:
  "\<exists>m'. AddECS demo_edns (demo_query TypeA) \<lparr>cs_Family = 1, cs_SourcePrefix = 24, cs_ScopePrefix = 24, cs_Address = [10, 0, 0, 0]\<rparr>
      = Some m' \<and> GetClientIP demo_edns m' None = [10, 0, 0, 0]"
  using ecs_round_trip [OF demo_edns_laws, of "demo_query TypeA"
      "\<lparr>cs_Family = 1, cs_SourcePrefix = 24, cs_ScopePrefix = 24, cs_Address = [10, 0, 0, 0]\<rparr>" None]
  by (auto simp: ParseECS_def demo_edns_def demo_query_def)

text \<open>
  Truncation means subnets. An address has a truncation exactly when it is a valid address; two
  addresses of one family have the same truncation exactly when they agree on the first bits of the
  prefix (all bits, for a longer prefix); and truncating twice, first to a longer prefix, is
  truncating once.
\<close>

theorem truncate_subnet:
  assumes "IPToBytes ip = Some a" and "IPToBytes ip' = Some b" and "length a = length b" and "q \<le> p"
  shows "(TruncateIP ip p = TruncateIP ip' p \<longleftrightarrow>
      (\<forall>k < min (unat p) (8 * length a). addr_bit a k = addr_bit b k))
    \<and> (\<exists>t. TruncateIP ip p = Some t \<and> TruncateIP t q = TruncateIP ip q)"
proof
  show "TruncateIP ip p = TruncateIP ip' p \<longleftrightarrow> (\<forall>k < min (unat p) (8 * length a). addr_bit a k = addr_bit b k)"
    by (simp add: TruncateIP_bits assms(1,2) trunc_bits_agree [OF assms(3)])
  show "\<exists>t. TruncateIP ip p = Some t \<and> TruncateIP t q = TruncateIP ip q"
    using assms(4) by (simp add: TruncateIP_bits assms(1) IPToBytes_trunc [OF assms(1)] trunc_bits_nested word_le_nat_alt)
qed

theorem truncate_subnet_witness:
  "TruncateIP [10, 1, 2, 3] 24 = TruncateIP (IPv4 10 1 2 77) 24
   \<and> TruncateIP [10, 1, 2, 3] 32 \<noteq> TruncateIP (IPv4 10 1 2 77) 32"
proof -
  let ?a = "[10, 1, 2, 3] :: bytes" and ?b = "[10, 1, 2, 77] :: bytes"
  have ip: "IPToBytes ?a = Some ?a" "IPToBytes (IPv4 10 1 2 77) = Some ?b" by (simp_all add: IPToBytes_def) (simp add: To4_def)
  have "\<forall>k < 24. addr_bit ?a k = addr_bit ?b k" "\<not> (\<forall>k < 32. addr_bit ?a k = addr_bit ?b k)" by code_simp+
  with truncate_subnet [OF ip, of 24 24] truncate_subnet [OF ip, of 32 32] show ?thesis by simp
qed

text \<open>
  Addresses survive storage: what \<^verbatim>\<open>IPToBytes\<close> stores of a valid address is read back as the same
  address, in the 16-byte form; a 32-bit number is read back from its address; and the number of an
  IPv4 address gives back the address.
\<close>

theorem address_round_trips:
  "(case To16 ip of None \<Rightarrow> IPToBytes ip = None
    | Some ip16 \<Rightarrow> (\<exists>b. IPToBytes ip = Some b \<and> BytesToIP b = Some ip16))
   \<and> IPToUint32 (Uint32ToIP n) = n
   \<and> (case To4 ip of None \<Rightarrow> IPToUint32 ip = 0 | Some v \<Rightarrow> Uint32ToIP (IPToUint32 ip) = v4InV6Prefix @ v)"
proof -
  have v4: "IPv4 (v ! 0) (v ! 1) (v ! 2) (v ! 3) = v4InV6Prefix @ v" if "length v = 4" for v
    using length4 [OF that] by (simp add: IPv4_def)
  have "IPToUint32 (Uint32ToIP n) = n"
    using be_round_trip [of n] by (simp add: IPToUint32_def Uint32ToIP_def Let_def be_PutUint32_def)
  moreover have "case To4 ip of None \<Rightarrow> IPToUint32 ip = 0 | Some v \<Rightarrow> Uint32ToIP (IPToUint32 ip) = v4InV6Prefix @ v"
    using be_Put_Uint32 v4 To4_length [of ip] by (auto simp: IPToUint32_def Uint32ToIP_def Let_def split: option.split)
  moreover have "case To16 ip of None \<Rightarrow> IPToBytes ip = None
      | Some ip16 \<Rightarrow> (\<exists>b. IPToBytes ip = Some b \<and> BytesToIP b = Some ip16)"
  proof (cases "To4 ip")
    case (Some v)
    then show ?thesis
      using To4_To16 [OF Some] To4_length [OF Some] v4 by (simp add: IPToBytes_def BytesToIP_def)
  next
    case None
    then show ?thesis using To16_length [of ip] by (auto simp: IPToBytes_def BytesToIP_def split: option.split)
  qed
  ultimately show ?thesis by simp
qed

text \<open>
  The key of a subnet shows the prefix length asked for, not the one used: a prefix beyond the
  length of an IPv4 address names the very same subnet under a different key.
\<close>

theorem subnet_key_not_clamped:
  assumes "To4 ip \<noteq> None" and "32 \<le> p" and "32 \<le> q" and "p \<noteq> q"
  shows "TruncateIP ip p = TruncateIP ip q \<and> SubnetKey ip p \<noteq> SubnetKey ip q"
proof -
  obtain v where v: "To4 ip = Some v" "length v = 4" using assms(1) To4_length by blast
  have "trunc_bits (unat r) v = v" if "32 \<le> r" for r :: u8
  proof -
    have "32 \<le> unat r" using that by (simp add: word_le_nat_alt)
    then show ?thesis by (intro nth_equalityI) (simp_all add: trunc_bits_full v(2))
  qed
  then have t: "TruncateIP ip p = Some v" "TruncateIP ip q = Some v"
    using assms(2,3) by (simp_all add: TruncateIP_bits IPToBytes_def v(1))
  then show ?thesis using assms(4) by (simp add: SubnetKey_def word_unat_eq_iff)
qed

theorem subnet_key_not_clamped_witness: "SubnetKey [10, 1, 2, 3] 32 \<noteq> SubnetKey [10, 1, 2, 3] 33"
  using subnet_key_not_clamped [of "[10, 1, 2, 3]" 32 33] by (simp add: To4_def)

end
