(* ===== verification/Selector.thy ===== *)
theory Selector
  imports Registry_Store Net_IP Sip_Hash
begin

text \<open>
  \<^verbatim>\<open>pkg/selector\<close>: the filter, the scores, the softmax weights, and the two ways of choosing (by
  the hash of a sticky key, or at random). A \<^verbatim>\<open>float64\<close> is the real number it approximates. The
  randomness is an argument: each draw is the integer below 2^53 that \<^verbatim>\<open>rand.Int\<close> returned, or
  \<open>None\<close> for its error; \<open>nanos\<close> is the clock reading, after 1970, that \<^verbatim>\<open>weightedChoice\<close> falls back to. Heights are
  64-bit and their differences wrap as in the source.
\<close>

unbundle bit_operations_syntax

section \<open>Data\<close>

record RequestContext =
  rq_ChainID :: ChainID
  rq_Method :: string
  rq_Path :: string
  rq_Query :: "(string, string list) gomap"
  rq_NeedWS :: bool
  rq_Height :: "int option"
  rq_ClientIP :: "IP option"
  rq_APIKey :: string
  rq_JWTSub :: string

record Environment =
  BestHeight :: int

record Candidate =
  ca_Meta :: BackendMeta
  ca_Metrics :: BackendMetrics
  ca_GeoPenalty :: real
  ca_Score :: real
  ca_Weight :: real

record ScoreWeights =
  w_RTT :: real
  w_P95 :: real
  w_CPU :: real
  w_Geo :: real
  w_FailRate :: real
  w_HeightLag :: real

record sel_Config =
  Weights :: ScoreWeights
  HeightDelta :: int
  SoftmaxTemperature :: real
  StickinessProbability :: real
  CacheableHeightBias :: real
  StickyFallbackRandomize :: bool

datatype sel_error = ErrNoBackend

definition sel_DefaultConfig :: sel_Config where
  "sel_DefaultConfig =
     \<lparr>Weights = \<lparr>w_RTT = 35 / 100, w_P95 = 25 / 100, w_CPU = 15 / 100, w_Geo = 10 / 100,
                 w_FailRate = 10 / 100, w_HeightLag = 5 / 100\<rparr>,
      HeightDelta = 2, SoftmaxTemperature = 7 / 10, StickinessProbability = 8 / 10,
      CacheableHeightBias = - 2 / 10, StickyFallbackRandomize = True\<rparr>"

section \<open>Filtering\<close>

definition capabilityForRequest :: "RequestContext \<Rightarrow> string" where
  "capabilityForRequest ctx =
     (if rq_NeedWS ctx then ''ws''
      else let path = ToLower (rq_Path ctx)
           in if Contains path ''grpc'' then ''grpc''
              else if HasPrefix path ''/cosmos'' \<or> Contains path ''/lcd'' then ''lcd''
              else ''rpc'')"

fun filter_loop ::
    "RequestContext \<Rightarrow> string \<Rightarrow> int \<Rightarrow> Candidate list \<Rightarrow> Candidate list \<Rightarrow> Candidate list" where
  "filter_loop ctx capNeeded minHeight filtered [] = filtered"
| "filter_loop ctx capNeeded minHeight filtered (candidate # pool) =
     (let metrics = ca_Metrics candidate
      in if bm_ChainID (ca_Meta candidate) \<noteq> rq_ChainID ctx
         then filter_loop ctx capNeeded minHeight filtered pool
         else if capNeeded \<noteq> [] \<and> \<not> go_get False (bm_Caps (ca_Meta candidate)) capNeeded
         then filter_loop ctx capNeeded minHeight filtered pool
         else if ToLower (mx_Health metrics) \<noteq> ''ok''
         then filter_loop ctx capNeeded minHeight filtered pool
         else if mx_CatchingUp metrics
         then filter_loop ctx capNeeded minHeight filtered pool
         else if mx_Height metrics < minHeight \<and> rq_Height ctx = None
         then filter_loop ctx capNeeded minHeight filtered pool
         else if (case rq_Height ctx of None \<Rightarrow> False | Some h \<Rightarrow> mx_Height metrics < h)
         then filter_loop ctx capNeeded minHeight filtered pool
         else filter_loop ctx capNeeded minHeight (filtered @ [candidate]) pool)"

definition filterCandidates ::
    "RequestContext \<Rightarrow> Environment \<Rightarrow> Candidate list \<Rightarrow> sel_Config \<Rightarrow> Candidate list" where
  "filterCandidates ctx env pool cfg =
     filter_loop ctx (capabilityForRequest ctx) (wrap_i64 (BestHeight env - HeightDelta cfg)) [] pool"

section \<open>Scores and weights\<close>

definition isHotMethod :: "string \<Rightarrow> bool" where
  "isHotMethod method = list_ex (HasPrefix method) [''abci_query'', ''tx'', ''tx_search'']"

definition isHeavyMethod :: "string \<Rightarrow> bool" where
  "isHeavyMethod method = list_ex (HasPrefix method) [''block'', ''block_by_hash'', ''validators'']"

definition methodBias :: "RequestContext \<Rightarrow> BackendMetrics \<Rightarrow> real" where
  "methodBias ctx metrics =
     (let method = ToLower (rq_Method ctx)
      in if isHotMethod method then 1 / 10 * mx_RTTms metrics
         else if isHeavyMethod method then 1 / 10 * mx_CPU metrics
         else 0)"

definition maxInt64 :: "int \<Rightarrow> int \<Rightarrow> int" where
  "maxInt64 a b = (if a > b then a else b)"

definition base_score :: "RequestContext \<Rightarrow> Environment \<Rightarrow> sel_Config \<Rightarrow> Candidate \<Rightarrow> real" where
  "base_score ctx env cfg c =
     (let metrics = ca_Metrics c;
          lag = of_int (maxInt64 0 (wrap_i64 (BestHeight env - mx_Height metrics)))
      in w_RTT (Weights cfg) * mx_RTTms metrics + w_P95 (Weights cfg) * mx_P95ms metrics +
         w_CPU (Weights cfg) * mx_CPU metrics + w_Geo (Weights cfg) * ca_GeoPenalty c +
         w_FailRate (Weights cfg) * mx_FailRate metrics + w_HeightLag (Weights cfg) * lag +
         methodBias ctx metrics)"

definition score_candidate :: "RequestContext \<Rightarrow> Environment \<Rightarrow> sel_Config \<Rightarrow> Candidate \<Rightarrow> Candidate" where
  "score_candidate ctx env cfg c =
     c\<lparr>ca_Score := base_score ctx env cfg c +
         (case rq_Height ctx of None \<Rightarrow> 0 | Some _ \<Rightarrow> CacheableHeightBias cfg)\<rparr>"

definition softmaxWeights :: "Candidate list \<Rightarrow> real \<Rightarrow> real list" where
  "softmaxWeights candidates temperature =
     (let temperature = (if temperature \<le> 0 then 1 else temperature);
          minScore = foldl (\<lambda>m c. if ca_Score c < m then ca_Score c else m)
                       (ca_Score (hd candidates)) (tl candidates);
          expScores = map (\<lambda>c. exp (- (ca_Score c - minScore) / temperature)) candidates;
          sm = foldl (+) 0 expScores
      in if sm = 0 then map (\<lambda>_. 1 / real (length candidates)) candidates
         else map (\<lambda>e. e / sm) expScores)"

section \<open>Choosing\<close>

text \<open>A draw of \<^verbatim>\<open>crypto/rand\<close>: an integer below 2^53, or an error.\<close>

type_synonym draw = "int option"

definition randFloat64 :: "draw \<Rightarrow> real option" where
  "randFloat64 d = map_option (\<lambda>n. of_int n / 2 ^ 53) d"

text \<open>The loop over the cumulative weights, shared by both choices: index, running sum.\<close>

fun cum_loop :: "(real \<Rightarrow> bool) \<Rightarrow> nat \<Rightarrow> real \<Rightarrow> real list \<Rightarrow> nat option" where
  "cum_loop hit i cum [] = None"
| "cum_loop hit i cum (w # ws) = (if hit (cum + w) then Some i else cum_loop hit (i + 1) (cum + w) ws)"

definition weightedChoice :: "draw \<Rightarrow> int \<Rightarrow> real list \<Rightarrow> nat" where
  "weightedChoice d nanos weights =
     (if length weights = 1 then 0
      else case randFloat64 d of
        None \<Rightarrow> nat (nanos mod int (length weights))
      | Some r \<Rightarrow>
          (case cum_loop (\<lambda>cum. r \<le> cum) 0 0 weights of
             Some i \<Rightarrow> i | None \<Rightarrow> length weights - 1))"

definition ipBucket :: "IP \<Rightarrow> string" where
  "ipBucket ip =
     (case To4 ip of
        Some v4 \<Rightarrow> IP_String (be_PutUint32 (be_Uint32 v4 AND 0xFFFFFF00))
      | None \<Rightarrow>
          (case To16 ip of None \<Rightarrow> ''unknown''
           | Some v6 \<Rightarrow> IP_String (take 6 v6 @ replicate (length v6 - 6) 0)))"

definition stickyKey :: "RequestContext \<Rightarrow> string" where
  "stickyKey ctx =
     (if rq_APIKey ctx \<noteq> [] then ''key:'' @ rq_APIKey ctx
      else if rq_JWTSub ctx \<noteq> [] then ''jwt:'' @ rq_JWTSub ctx
      else case rq_ClientIP ctx of Some ip \<Rightarrow> ''ip:'' @ ipBucket ip | None \<Rightarrow> [])"

text \<open>\<^verbatim>\<open>stickyChoice\<close> reads only the weights of the candidates.\<close>

definition sticky_point :: "string \<Rightarrow> real" where
  "sticky_point key = real (unat (sipHash24 key mod 1000000)) / 1000000"

definition sticky_index :: "string \<Rightarrow> real list \<Rightarrow> nat option" where
  "sticky_index key weights =
     (let total = foldl (+) 0 weights
      in if total = 0 then (if weights \<noteq> [] then Some 0 else None)
         else let r = sticky_point key
              in case cum_loop (\<lambda>cum. r \<le> cum / total) 0 0 weights of
                   Some i \<Rightarrow> Some i | None \<Rightarrow> Some (length weights - 1))"

definition stickyChoice :: "string \<Rightarrow> Candidate list \<Rightarrow> nat option" where
  "stickyChoice key candidates = sticky_index key (map ca_Weight candidates)"

definition shouldStick :: "draw \<Rightarrow> real \<Rightarrow> bool" where
  "shouldStick d prob =
     (if prob \<le> 0 then False
      else if prob \<ge> 1 then True
      else case randFloat64 d of None \<Rightarrow> True | Some r \<Rightarrow> r < prob)"

section \<open>Pick\<close>

definition Pick ::
    "draw \<Rightarrow> draw \<Rightarrow> int \<Rightarrow> RequestContext \<Rightarrow> Environment \<Rightarrow> Candidate list \<Rightarrow> sel_Config \<Rightarrow>
     sel_error + Candidate" where
  "Pick stickDraw choiceDraw nanos ctx env pool cfg =
     (let cand = filterCandidates ctx env pool cfg
      in if cand = [] then Inl ErrNoBackend
         else
           let cand = map (score_candidate ctx env cfg) cand;
               weights = softmaxWeights cand (SoftmaxTemperature cfg);
               cand = map2 (\<lambda>c w. c\<lparr>ca_Weight := w\<rparr>) cand weights;
               sticky = stickyKey ctx;
               stuck = (if sticky \<noteq> [] \<and>
                           (StickinessProbability cfg \<ge> 1 \<or> shouldStick stickDraw (StickinessProbability cfg))
                        then stickyChoice sticky cand else None)
           in case stuck of
                Some chosen \<Rightarrow> Inr (cand ! chosen)
              | None \<Rightarrow> Inr (cand ! weightedChoice choiceDraw nanos weights))"

section \<open>The loop over cumulative weights\<close>

lemma foldl_plus_sum: "foldl (+) (a :: real) xs = a + sum_list xs"
  by (induction xs arbitrary: a) auto

lemma cum_loop_Some:
  "cum_loop hit i cum ws = Some j \<Longrightarrow>
   \<exists>k < length ws. j = i + k \<and> hit (cum + sum_list (take (Suc k) ws)) \<and>
     (\<forall>m < k. \<not> hit (cum + sum_list (take (Suc m) ws)))"
proof (induction hit i cum ws rule: cum_loop.induct)
  case (2 hit i cum w ws)
  show ?case
  proof (cases "hit (cum + w)")
    case True
    with "2.prems" show ?thesis by (intro exI [of _ 0]) simp
  next
    case False
    with 2 obtain k where k: "k < length ws" "j = i + 1 + k"
        "hit (cum + w + sum_list (take (Suc k) ws))"
        "\<forall>m < k. \<not> hit (cum + w + sum_list (take (Suc m) ws))" by auto
    have "\<not> hit (cum + sum_list (take (Suc m) (w # ws)))" if "m < Suc k" for m
      using that False k(4) by (cases m) (auto simp: add.assoc)
    with k show ?thesis by (intro exI [of _ "Suc k"]) (simp add: add.assoc)
  qed
qed simp

lemma cum_loop_None:
  "cum_loop hit i cum ws = None \<Longrightarrow> k < length ws \<Longrightarrow> \<not> hit (cum + sum_list (take (Suc k) ws))"
proof (induction hit i cum ws arbitrary: k rule: cum_loop.induct)
  case (2 hit i cum w ws)
  then show ?case by (cases k) (auto simp: add.assoc split: if_splits)
qed simp

section \<open>Choosing an index\<close>

text \<open>
  The contract of the two choices: an index into the list of weights. The client is \<^verbatim>\<open>Pick\<close>,
  which reads the candidate at that index.
\<close>

locale index_choice =
  fixes select :: "real list \<Rightarrow> nat"
  assumes select_lt: "ws \<noteq> [] \<Longrightarrow> select ws < length ws"
begin

lemma chosen_in: "xs \<noteq> [] \<Longrightarrow> length ws = length xs \<Longrightarrow> xs ! select ws \<in> set xs"
  using select_lt [of ws] by (cases ws) auto

end

text \<open>
  A choice that is proportional to the weights: a point on the scale from 0 to their sum picks the
  index in whose section of the scale it lies.
\<close>

locale proportional_choice = index_choice select for select :: "real list \<Rightarrow> nat" +
  fixes point :: "real list \<Rightarrow> real"
  assumes select_section:
    "list_all (\<lambda>w. 0 \<le> w) ws \<Longrightarrow> ws \<noteq> [] \<Longrightarrow> 0 < point ws \<Longrightarrow> point ws \<le> sum_list ws \<Longrightarrow>
     sum_list (take (select ws) ws) < point ws \<and> point ws \<le> sum_list (take (Suc (select ws)) ws)"
begin

text \<open>The sections are disjoint, so the point determines the index.\<close>

lemma section_unique:
  assumes nonneg: "list_all (\<lambda>w. 0 \<le> w) ws" and "0 < point ws" and "point ws \<le> sum_list ws"
    and i: "i < length ws"
  shows "select ws = i \<longleftrightarrow>
    sum_list (take i ws) < point ws \<and> point ws \<le> sum_list (take (Suc i) ws)"
proof
  have ne: "ws \<noteq> []" using i by auto
  note sec = select_section [OF nonneg ne assms(2,3)]
  show "select ws = i \<Longrightarrow>
      sum_list (take i ws) < point ws \<and> point ws \<le> sum_list (take (Suc i) ws)" using sec by simp
  assume in_i: "sum_list (take i ws) < point ws \<and> point ws \<le> sum_list (take (Suc i) ws)"
  have mono: "sum_list (take m ws) \<le> sum_list (take n ws)" if "m \<le> n" for m n
  proof -
    obtain d where "n = m + d" using \<open>m \<le> n\<close> le_Suc_ex by blast
    then have "take n ws = take m ws @ take d (drop m ws)" by (simp add: take_add)
    moreover have "0 \<le> sum_list (take d (drop m ws))"
      using nonneg by (intro sum_list_nonneg) (auto simp: list_all_iff dest!: in_set_takeD in_set_dropD)
    ultimately show ?thesis by simp
  qed
  show "select ws = i"
    using mono [of "Suc (select ws)" i] mono [of "Suc i" "select ws"] sec in_i
    by (cases "select ws" i rule: linorder_cases) auto
qed

lemma chosen_has_weight:
  assumes "list_all (\<lambda>w. 0 \<le> w) ws" and "ws \<noteq> []" and "0 < point ws" and "point ws \<le> sum_list ws"
  shows "0 < ws ! select ws"
  using select_section [OF assms] select_lt [OF assms(2)] by (simp add: take_Suc_conv_app_nth)

end

text \<open>Both choices run the loop with a threshold; the loop picks the section of the threshold.\<close>

definition cum_index :: "real \<Rightarrow> real list \<Rightarrow> nat" where
  "cum_index r ws = (case cum_loop (\<lambda>cum. r \<le> cum) 0 0 ws of Some i \<Rightarrow> i | None \<Rightarrow> length ws - 1)"

lemma cum_index_lt: "ws \<noteq> [] \<Longrightarrow> cum_index r ws < length ws"
  by (auto simp: cum_index_def split: option.splits dest!: cum_loop_Some)

lemma cum_index_section:
  assumes "ws \<noteq> []" and "0 < r" and "r \<le> sum_list ws"
  shows "sum_list (take (cum_index r ws) ws) < r \<and> r \<le> sum_list (take (Suc (cum_index r ws)) ws)"
proof (cases "cum_loop (\<lambda>cum. r \<le> cum) 0 0 ws")
  case None
  from cum_loop_None [OF None, of "length ws - 1"] assms show ?thesis by simp
next
  case (Some j)
  from cum_loop_Some [OF Some] obtain k where k: "k < length ws" "j = k"
      "r \<le> sum_list (take (Suc k) ws)" "\<forall>m < k. \<not> r \<le> sum_list (take (Suc m) ws)" by auto
  have "sum_list (take k ws) < r" using k(4) assms(2) by (cases k) auto
  with k Some show ?thesis by (simp add: cum_index_def)
qed

lemma weightedChoice_cum:
  "length ws \<noteq> 1 \<Longrightarrow> weightedChoice (Some n) nanos ws = cum_index (of_int n / 2 ^ 53) ws"
  by (simp only: weightedChoice_def randFloat64_def cum_index_def if_False option.map option.case)

lemma weightedChoice_lt: "ws \<noteq> [] \<Longrightarrow> weightedChoice d nanos ws < length ws"
proof (cases d)
  case None
  then show "ws \<noteq> [] \<Longrightarrow> ?thesis"
    by (auto simp: weightedChoice_def randFloat64_def nat_less_iff)
next
  case (Some n)
  then show "ws \<noteq> [] \<Longrightarrow> ?thesis"
    using cum_index_lt [of ws] weightedChoice_cum [of ws n nanos]
    by (cases "length ws = 1") (auto simp: weightedChoice_def)
qed

interpretation random_choice: index_choice "weightedChoice d nanos" for d nanos
  by unfold_locales (rule weightedChoice_lt)

interpretation fair_choice: proportional_choice "weightedChoice (Some n) nanos"
  "\<lambda>_. of_int n / 2 ^ 53" for n nanos
proof unfold_locales
  fix ws :: "real list"
  assume ws: "ws \<noteq> []" "0 < of_int n / (2 ^ 53 :: real)" "of_int n / 2 ^ 53 \<le> sum_list ws"
  show "sum_list (take (weightedChoice (Some n) nanos ws) ws) < of_int n / 2 ^ 53 \<and>
      of_int n / 2 ^ 53 \<le> sum_list (take (Suc (weightedChoice (Some n) nanos ws)) ws)"
  proof (cases "length ws = 1")
    case True
    with ws show ?thesis by (simp add: weightedChoice_def)
  next
    case False
    with cum_index_section [OF ws] show ?thesis by (simp add: weightedChoice_cum)
  qed
qed

text \<open>Sticky choice: the point is the hash of the key, scaled to the sum of the weights.\<close>

lemma sticky_index_cum:
  assumes "0 < sum_list ws"
  shows "sticky_index key ws = Some (cum_index (sticky_point key * sum_list ws) ws)"
proof -
  have "sticky_point key \<le> cum / sum_list ws \<longleftrightarrow> sticky_point key * sum_list ws \<le> cum" for cum
    using assms by (simp add: field_simps)
  with assms show ?thesis
    by (simp add: sticky_index_def foldl_plus_sum cum_index_def Let_def split: option.split)
qed

lemma sticky_index_Some:
  assumes "ws \<noteq> []"
  shows "\<exists>i < length ws. sticky_index key ws = Some i"
  using assms
  by (auto simp: sticky_index_def Let_def split: option.splits dest!: cum_loop_Some)

interpretation sticky_choice: index_choice "\<lambda>ws. the (sticky_index key ws)" for key
proof unfold_locales
  fix ws :: "real list"
  assume "ws \<noteq> []"
  then obtain i where "i < length ws" "sticky_index key ws = Some i"
    using sticky_index_Some by blast
  then show "the (sticky_index key ws) < length ws" by simp
qed

interpretation fair_sticky: proportional_choice "\<lambda>ws. the (sticky_index key ws)"
  "\<lambda>ws. sticky_point key * sum_list ws" for key
proof unfold_locales
  fix ws :: "real list"
  assume ws: "list_all (\<lambda>w. 0 \<le> w) ws" "ws \<noteq> []" "0 < sticky_point key * sum_list ws"
    "sticky_point key * sum_list ws \<le> sum_list ws"
  have "0 \<le> sum_list ws" using ws(1) by (intro sum_list_nonneg) (auto simp: list_all_iff)
  with ws(3) have "0 < sum_list ws" by (cases "sum_list ws = 0") auto
  with cum_index_section [OF ws(2-4)]
  show "sum_list (take (the (sticky_index key ws)) ws) < sticky_point key * sum_list ws \<and>
      sticky_point key * sum_list ws \<le> sum_list (take (Suc (the (sticky_index key ws))) ws)"
    by (simp add: sticky_index_cum)
qed

section \<open>The filter\<close>

definition eligible :: "RequestContext \<Rightarrow> Environment \<Rightarrow> sel_Config \<Rightarrow> Candidate \<Rightarrow> bool" where
  "eligible ctx env cfg c \<longleftrightarrow>
     bm_ChainID (ca_Meta c) = rq_ChainID ctx \<and>
     map_of (bm_Caps (ca_Meta c)) (capabilityForRequest ctx) = Some True \<and>
     ToLower (mx_Health (ca_Metrics c)) = ''ok'' \<and> \<not> mx_CatchingUp (ca_Metrics c) \<and>
     (case rq_Height ctx of
        None \<Rightarrow> wrap_i64 (BestHeight env - HeightDelta cfg) \<le> mx_Height (ca_Metrics c)
      | Some h \<Rightarrow> h \<le> mx_Height (ca_Metrics c))"

lemma capabilityForRequest_nonempty: "capabilityForRequest ctx \<noteq> []"
  by (simp add: capabilityForRequest_def Let_def)

lemma go_get_True: "go_get False m k \<longleftrightarrow> map_of m k = Some True"
  by (auto simp: go_get_def split: option.splits)

lemma filter_loop_eligible:
  "filter_loop ctx (capabilityForRequest ctx) (wrap_i64 (BestHeight env - HeightDelta cfg)) acc pool =
   acc @ filter (eligible ctx env cfg) pool"
  by (induction pool arbitrary: acc)
    (auto simp: Let_def eligible_def go_get_True capabilityForRequest_nonempty not_less split: option.splits)

lemma filterCandidates_eligible:
  "filterCandidates ctx env pool cfg = filter (eligible ctx env cfg) pool"
  by (simp add: filterCandidates_def filter_loop_eligible)

section \<open>Softmax\<close>

definition min_score :: "Candidate list \<Rightarrow> real" where
  "min_score cs = foldl (\<lambda>m c. if ca_Score c < m then ca_Score c else m) (ca_Score (hd cs)) (tl cs)"

definition temp :: "real \<Rightarrow> real" where
  "temp t = (if t \<le> 0 then 1 else t)"

lemma temp_pos [simp]: "0 < temp t"
  by (simp add: temp_def)

lemma sum_list_exp_pos: "cs \<noteq> [] \<Longrightarrow> 0 < (\<Sum>c \<leftarrow> cs. exp (f c :: real))"
proof (induction cs)
  case (Cons c cs)
  then show ?case by (cases "cs = []") (auto intro: add_pos_pos)
qed simp

text \<open>The normaliser is positive, so the uniform branch is never taken.\<close>

lemma softmax_eq:
  assumes "cs \<noteq> []"
  shows "softmaxWeights cs t =
    map (\<lambda>c. exp (- (ca_Score c - min_score cs) / temp t) /
             (\<Sum>c \<leftarrow> cs. exp (- (ca_Score c - min_score cs) / temp t))) cs"
proof -
  have "0 < (\<Sum>c \<leftarrow> cs. exp (- (ca_Score c - min_score cs) / temp t))"
    using assms by (rule sum_list_exp_pos)
  then show ?thesis
    by (simp add: softmaxWeights_def Let_def foldl_plus_sum min_score_def temp_def comp_def)
qed

lemma softmax_length [simp]: "length (softmaxWeights cs t) = length cs"
  by (simp add: softmaxWeights_def Let_def)

lemma softmax_pos: "cs \<noteq> [] \<Longrightarrow> w \<in> set (softmaxWeights cs t) \<Longrightarrow> 0 < w"
  by (auto simp: softmax_eq intro!: divide_pos_pos sum_list_exp_pos)

lemma sum_list_divide: "(\<Sum>x \<leftarrow> xs. f x / (k :: real)) = sum_list (map f xs) / k"
  by (induction xs) (auto simp: add_divide_distrib)

lemma softmax_sum: "cs \<noteq> [] \<Longrightarrow> sum_list (softmaxWeights cs t) = 1"
  using sum_list_exp_pos [of cs "\<lambda>c. - (ca_Score c - min_score cs) / temp t"]
  by (simp add: softmax_eq sum_list_divide)

text \<open>Adding the same amount to every score changes no weight.\<close>

lemma min_score_shift:
  assumes "cs \<noteq> []" and "\<And>c. ca_Score (f c) = ca_Score c + b"
  shows "min_score (map f cs) = min_score cs + b"
proof -
  have "foldl (\<lambda>m c. if ca_Score c < m then ca_Score c else m) (m + b) (map f xs) =
      foldl (\<lambda>m c. if ca_Score c < m then ca_Score c else m) m xs + b" for m xs
    by (induction xs arbitrary: m) (auto simp: assms(2))
  with assms(1) show ?thesis by (cases cs) (simp_all add: min_score_def assms(2))
qed

lemma softmax_shift:
  assumes "cs \<noteq> []" and "\<And>c. ca_Score (f c) = ca_Score c + b"
  shows "softmaxWeights (map f cs) t = softmaxWeights cs t"
  using assms(1) by (simp add: softmax_eq min_score_shift [OF assms] assms(2) comp_def)

section \<open>Pick as a choice of an index\<close>

definition ranked :: "RequestContext \<Rightarrow> Environment \<Rightarrow> Candidate list \<Rightarrow> sel_Config \<Rightarrow> Candidate list" where
  "ranked ctx env pool cfg =
     (let cand = map (score_candidate ctx env cfg) (filter (eligible ctx env cfg) pool)
      in map2 (\<lambda>c w. c\<lparr>ca_Weight := w\<rparr>) cand (softmaxWeights cand (SoftmaxTemperature cfg)))"

definition pick_index ::
    "draw \<Rightarrow> draw \<Rightarrow> int \<Rightarrow> RequestContext \<Rightarrow> sel_Config \<Rightarrow> real list \<Rightarrow> nat" where
  "pick_index stickDraw choiceDraw nanos ctx cfg ws =
     (if stickyKey ctx \<noteq> [] \<and>
         (StickinessProbability cfg \<ge> 1 \<or> shouldStick stickDraw (StickinessProbability cfg))
      then the (sticky_index (stickyKey ctx) ws) else weightedChoice choiceDraw nanos ws)"

interpretation pick_choice: index_choice "pick_index d d' nanos ctx cfg" for d d' nanos ctx cfg
  by unfold_locales (simp add: pick_index_def sticky_choice.select_lt weightedChoice_lt)

lemma map2_weight: "length cs = length ws \<Longrightarrow> map ca_Weight (map2 (\<lambda>c w. c\<lparr>ca_Weight := w\<rparr>) cs ws) = ws"
  by (induction cs ws rule: list_induct2) simp_all

lemma Pick_index:
  "Pick d d' nanos ctx env pool cfg =
     (if filter (eligible ctx env cfg) pool = [] then Inl ErrNoBackend
      else Inr (ranked ctx env pool cfg !
             pick_index d d' nanos ctx cfg (map ca_Weight (ranked ctx env pool cfg))))"
proof -
  let ?cand = "map (score_candidate ctx env cfg) (filter (eligible ctx env cfg) pool)"
  let ?ws = "softmaxWeights ?cand (SoftmaxTemperature cfg)"
  have ws: "map ca_Weight (ranked ctx env pool cfg) = ?ws"
    unfolding ranked_def Let_def by (rule map2_weight) simp
  show ?thesis
  proof (cases "filter (eligible ctx env cfg) pool = []")
    case False
    then have "?ws \<noteq> []" by (metis length_0_conv length_map softmax_length)
    then obtain i where "sticky_index (stickyKey ctx) ?ws = Some i"
      using sticky_index_Some by blast
    with False ws show ?thesis
      by (simp add: Pick_def filterCandidates_eligible pick_index_def stickyChoice_def Let_def
          ranked_def)
  qed (simp add: Pick_def filterCandidates_eligible)
qed

lemma ranked_nth:
  "i < length (filter (eligible ctx env cfg) pool) \<Longrightarrow>
   ca_Meta (ranked ctx env pool cfg ! i) = ca_Meta (filter (eligible ctx env cfg) pool ! i) \<and>
   ca_Metrics (ranked ctx env pool cfg ! i) = ca_Metrics (filter (eligible ctx env cfg) pool ! i)"
  by (simp add: ranked_def Let_def score_candidate_def)

lemma length_ranked: "length (ranked ctx env pool cfg) = length (filter (eligible ctx env cfg) pool)"
  by (simp add: ranked_def Let_def)

lemma ranked_weights:
  "map ca_Weight (ranked ctx env pool cfg) =
   softmaxWeights (map (score_candidate ctx env cfg) (filter (eligible ctx env cfg) pool))
     (SoftmaxTemperature cfg)"
  unfolding ranked_def Let_def by (rule map2_weight) simp

lemma pick_index_lt:
  assumes "filter (eligible ctx env cfg) pool \<noteq> []"
  shows "pick_index d d' nanos ctx' cfg' (map ca_Weight (ranked ctx env pool cfg)) <
    length (filter (eligible ctx env cfg) pool)"
proof -
  have "map ca_Weight (ranked ctx env pool cfg) \<noteq> []"
    using assms length_ranked [of ctx env pool cfg] by auto
  from pick_choice.select_lt [OF this, of d d' nanos ctx' cfg'] show ?thesis
    by (simp add: length_ranked)
qed

lemma eligible_bias: "eligible ctx env (cfg\<lparr>CacheableHeightBias := b\<rparr>) = eligible ctx env cfg"
  by (auto simp: eligible_def fun_eq_iff split: option.splits)

lemma Pick_Inr:
  assumes "Pick d d' nanos ctx env pool cfg = Inr c"
  obtains c0 where "c0 \<in> set pool" and "eligible ctx env cfg c0" and "ca_Meta c0 = ca_Meta c"
    and "ca_Metrics c0 = ca_Metrics c"
proof -
  let ?r = "ranked ctx env pool cfg" and ?es = "filter (eligible ctx env cfg) pool"
  let ?i = "pick_index d d' nanos ctx cfg (map ca_Weight ?r)"
  have ne: "?es \<noteq> []" and c: "c = ?r ! ?i" using assms by (auto simp: Pick_index split: if_splits)
  have lt: "?i < length ?es" using ne by (rule pick_index_lt)
  then have "?es ! ?i \<in> set ?es" by (rule nth_mem)
  with c ranked_nth [OF lt] show thesis by (intro that [of "?es ! ?i"]) auto
qed

section \<open>Sticky keys\<close>

lemma v4_bucket_bytes: "be_PutUint32 (be_Uint32 [a, b, c, d] AND 0xFFFFFF00) = [a, b, c, 0]"
proof -
  have mask: "bit (0xFFFFFF00 :: u32) n \<longleftrightarrow> 8 \<le> n \<and> n < 32" for n
  proof -
    have "(0xFFFFFF00 :: u32) = push_bit 8 (mask 24)" by (simp add: mask_eq_exp_minus_1)
    also have "bit \<dots> n \<longleftrightarrow> 8 \<le> n \<and> n < 32" by (auto simp: bit_push_bit_iff bit_mask_iff)
    finally show ?thesis .
  qed
  define m where "m = (0xFFFFFF00 :: u32)"
  have m: "bit m n \<longleftrightarrow> 8 \<le> n \<and> n < 32" for n unfolding m_def by (rule mask)
  have bits: "\<not> bit (w :: u8) n" if "8 \<le> n" for w n
    using that by (auto dest: bit_imp_le_length)
  show ?thesis
    unfolding m_def [symmetric]
    by (auto simp: be_Uint32_def be_PutUint32_def bit_eq_iff bit_simps bits m)
qed

lemma ipBucket_v4:
  assumes "To4 ip = Some [a, b, c, d]"
  shows "ipBucket ip = v4_string [a, b, c, 0]"
  using assms by (simp add: ipBucket_def v4_bucket_bytes IP_String_def To4_def)

section \<open>Properties\<close>



definition demo_cand :: "string \<Rightarrow> real \<Rightarrow> Candidate" where
  "demo_cand i sc = \<lparr>ca_Meta = demo_meta i 1 [],
     ca_Metrics = (demo_metrics i 10)\<lparr>mx_Health := ''OK''\<rparr>, ca_GeoPenalty = 0, ca_Score = sc, ca_Weight = 0\<rparr>"


text \<open>
  C27. The random choice is proportional to the weights: with weights that sum to 1 and a draw
  \<open>n > 0\<close>, candidate \<open>i\<close> is chosen exactly when \<open>n / 2^53\<close> lies in its section of the unit
  interval, a section as long as its weight. The fall-through after the loop is never taken.
\<close>

theorem weightedChoice_proportional:
  assumes "list_all (\<lambda>w. 0 \<le> w) ws" and "sum_list ws = 1" and "0 < n" and "n < 2 ^ 53"
    and "i < length ws"
  shows "weightedChoice (Some n) nanos ws = i \<longleftrightarrow>
    sum_list (take i ws) < of_int n / 2 ^ 53 \<and> of_int n / 2 ^ 53 \<le> sum_list (take i ws) + ws ! i"
proof -
  have "(of_int n :: real) < of_int (2 ^ 53)" using assms(4) by (simp only: of_int_less_iff)
  then have "(of_int n :: real) / 2 ^ 53 \<le> sum_list ws" using assms(2) by simp
  with fair_choice.section_unique [OF assms(1) _ _ assms(5), of n nanos] assms(3,5) show ?thesis
    by (simp add: take_Suc_conv_app_nth)
qed

theorem weightedChoice_proportional_witness:
  "weightedChoice (Some (3 * 2 ^ 51)) 0 [1 / 4, 1 / 4, 1 / 2] = 2"
  by (subst weightedChoice_proportional) simp_all

text \<open>
  Sticky routing by network: with stickiness certain, all clients of one IPv4 /24 network are
  sent to the same backend for the same pool, in either representation of their addresses, and no
  random draw has a say.
\<close>

theorem Pick_same_network:
  assumes "1 \<le> StickinessProbability cfg" and "rq_ClientIP ctx = Some ip"
    and "To4 ip = Some [a, b, c, x]" and "To4 ip' = Some [a, b, c, y]"
  shows "Pick d d' nanos ctx env pool cfg =
         Pick e e' nanos' (ctx\<lparr>rq_ClientIP := Some ip'\<rparr>) env pool cfg"
proof -
  let ?ctx = "ctx\<lparr>rq_ClientIP := Some ip'\<rparr>"
  have key: "stickyKey ?ctx = stickyKey ctx" "stickyKey ctx \<noteq> []"
    using assms(2-4) by (simp_all add: stickyKey_def ipBucket_v4)
  have same: "eligible ?ctx = eligible ctx" "score_candidate ?ctx = score_candidate ctx"
    by (simp_all add: fun_eq_iff eligible_def capabilityForRequest_def score_candidate_def
        base_score_def methodBias_def)
  then have "ranked ?ctx env pool cfg = ranked ctx env pool cfg" by (simp add: ranked_def)
  moreover have "pick_index e e' nanos' ?ctx cfg ws = pick_index d d' nanos ctx cfg ws" for ws
    using key assms(1) by (simp add: pick_index_def)
  ultimately show ?thesis by (simp add: Pick_index same(1))
qed

definition demo_ctx :: "IP \<Rightarrow> RequestContext" where
  "demo_ctx ip = \<lparr>rq_ChainID = ''c1'', rq_Method = ''GET'', rq_Path = ''/status'', rq_Query = [],
     rq_NeedWS = False, rq_Height = None, rq_ClientIP = Some ip, rq_APIKey = [], rq_JWTSub = []\<rparr>"

lemma demo_ctx_capability: "capabilityForRequest (demo_ctx ip) = ''rpc''"
proof -
  have "ToLower ''/status'' = ''/status''" "\<not> Contains ''/status'' ''grpc''"
    "\<not> HasPrefix ''/status'' ''/cosmos''" "\<not> Contains ''/status'' ''/lcd''" by code_simp+
  then show ?thesis by (simp add: capabilityForRequest_def demo_ctx_def)
qed

lemma demo_cand_eligible: "eligible (demo_ctx ip) \<lparr>BestHeight = 10\<rparr> sel_DefaultConfig (demo_cand i sc)"
proof -
  have "ToLower ''OK'' = ''ok''" by code_simp
  then show ?thesis
    by (simp add: eligible_def demo_ctx_capability)
      (simp add: demo_cand_def demo_meta_def demo_metrics_def demo_ctx_def sel_DefaultConfig_def wrap_i64_def)
qed

theorem Pick_same_network_witness:
  "Pick None None 0 (demo_ctx [10, 0, 0, 1]) \<lparr>BestHeight = 10\<rparr> [demo_cand ''b1'' 0, demo_cand ''b2'' 0]
     (sel_DefaultConfig\<lparr>StickinessProbability := 1\<rparr>) =
   Pick (Some 7) (Some 9) 5 (demo_ctx (IPv4 10 0 0 200)) \<lparr>BestHeight = 10\<rparr>
     [demo_cand ''b1'' 0, demo_cand ''b2'' 0] (sel_DefaultConfig\<lparr>StickinessProbability := 1\<rparr>)"
  using Pick_same_network [of "sel_DefaultConfig\<lparr>StickinessProbability := 1\<rparr>" "demo_ctx [10, 0, 0, 1]"
      "[10, 0, 0, 1]" 10 0 0 1 "IPv4 10 0 0 200" 200]
  by (simp add: demo_ctx_def To4_def [of "[10, 0, 0, 1]"])

text \<open>
  Stickiness does not survive a reordering of the pool. Two equally scored backends: for every
  key, the client is sent to one of them when the pool lists them in one order and to the other
  when it lists them in the other order. (The callers list the pool in the order of a Go map, which
  changes from request to request.)
\<close>

theorem sticky_depends_on_order:
  assumes "1 \<le> StickinessProbability cfg" and "stickyKey ctx \<noteq> []"
    and "eligible ctx env cfg p" and "eligible ctx env cfg q"
    and "base_score ctx env cfg p = base_score ctx env cfg q" and "ca_Meta p \<noteq> ca_Meta q"
  shows "\<exists>c c'. Pick d d' nanos ctx env [p, q] cfg = Inr c \<and> Pick e e' nanos' ctx env [q, p] cfg = Inr c' \<and>
    ca_Meta c \<noteq> ca_Meta c'"
proof -
  let ?f = "filter (eligible ctx env cfg)"
  have f: "?f [p, q] = [p, q]" "?f [q, p] = [q, p]" using assms(3,4) by simp_all
  have "softmaxWeights [score_candidate ctx env cfg p, score_candidate ctx env cfg q] t =
      softmaxWeights [score_candidate ctx env cfg q, score_candidate ctx env cfg p] t" for t
    using assms(5) by (simp add: softmaxWeights_def score_candidate_def)
  then have ws: "map ca_Weight (ranked ctx env [q, p] cfg) = map ca_Weight (ranked ctx env [p, q] cfg)"
    using assms(3,4) by (simp add: ranked_weights)
  let ?i = "pick_index d d' nanos ctx cfg (map ca_Weight (ranked ctx env [p, q] cfg))"
  have i: "pick_index e e' nanos' ctx cfg (map ca_Weight (ranked ctx env [q, p] cfg)) = ?i"
    using assms(1,2) by (simp add: pick_index_def ws)
  have "?i < 2"
    using pick_index_lt [of ctx env cfg "[p, q]" d d' nanos ctx cfg]
    by (simp add: f(1) numeral_2_eq_2 del: filter.simps)
  then have "ca_Meta ([p, q] ! ?i) \<noteq> ca_Meta ([q, p] ! ?i)"
    using assms(6) by (auto simp: less_2_cases_iff)
  with \<open>?i < 2\<close> show ?thesis
    using ranked_nth [of ?i ctx env cfg "[p, q]"] ranked_nth [of ?i ctx env cfg "[q, p]"]
    by (simp add: Pick_index f i del: filter.simps)
qed

theorem sticky_depends_on_order_witness:
  "\<exists>c c'. Pick None None 0 (demo_ctx [10, 0, 0, 1]) \<lparr>BestHeight = 10\<rparr> [demo_cand ''b1'' 0, demo_cand ''b2'' 0]
        (sel_DefaultConfig\<lparr>StickinessProbability := 1\<rparr>) = Inr c
    \<and> Pick None None 0 (demo_ctx [10, 0, 0, 1]) \<lparr>BestHeight = 10\<rparr> [demo_cand ''b2'' 0, demo_cand ''b1'' 0]
        (sel_DefaultConfig\<lparr>StickinessProbability := 1\<rparr>) = Inr c' \<and> ca_Meta c \<noteq> ca_Meta c'"
proof (rule sticky_depends_on_order)
  have el: "eligible (demo_ctx [10, 0, 0, 1]) \<lparr>BestHeight = 10\<rparr>
      (sel_DefaultConfig\<lparr>StickinessProbability := 1\<rparr>) (demo_cand i 0)" for i
    using demo_cand_eligible [of "[10, 0, 0, 1]" i 0] by (simp add: eligible_def demo_ctx_def)
  show "eligible (demo_ctx [10, 0, 0, 1]) \<lparr>BestHeight = 10\<rparr>
      (sel_DefaultConfig\<lparr>StickinessProbability := 1\<rparr>) (demo_cand ''b1'' 0)" by (rule el)
  show "eligible (demo_ctx [10, 0, 0, 1]) \<lparr>BestHeight = 10\<rparr>
      (sel_DefaultConfig\<lparr>StickinessProbability := 1\<rparr>) (demo_cand ''b2'' 0)" by (rule el)
  show "base_score (demo_ctx [10, 0, 0, 1]) \<lparr>BestHeight = 10\<rparr>
        (sel_DefaultConfig\<lparr>StickinessProbability := 1\<rparr>) (demo_cand ''b1'' 0) =
      base_score (demo_ctx [10, 0, 0, 1]) \<lparr>BestHeight = 10\<rparr>
        (sel_DefaultConfig\<lparr>StickinessProbability := 1\<rparr>) (demo_cand ''b2'' 0)"
    by (simp add: base_score_def methodBias_def demo_cand_def demo_metrics_def Let_def)
qed (simp_all add: stickyKey_def demo_ctx_def demo_cand_def demo_meta_def)

text \<open>
  The cache-height bias has no effect: it is added to every candidate alike, and the softmax
  cancels it. For requests with a height, any two values of \<^verbatim>\<open>CacheableHeightBias\<close> lead to the same
  backend with the same weight.
\<close>

theorem height_bias_has_no_effect:
  "map_sum id (\<lambda>c. (ca_Meta c, ca_Metrics c, ca_Weight c)) (Pick d d' nanos ctx env pool cfg) =
   map_sum id (\<lambda>c. (ca_Meta c, ca_Metrics c, ca_Weight c))
     (Pick d d' nanos ctx env pool (cfg\<lparr>CacheableHeightBias := b\<rparr>))"
proof (cases "filter (eligible ctx env cfg) pool = []")
  case True
  then show ?thesis by (simp add: Pick_index eligible_bias)
next
  case False
  let ?cfg = "cfg\<lparr>CacheableHeightBias := b\<rparr>"
  let ?es = "filter (eligible ctx env cfg) pool"
  let ?shift = "\<lambda>c. c\<lparr>ca_Score := ca_Score c +
    (case rq_Height ctx of None \<Rightarrow> 0 | Some _ \<Rightarrow> b - CacheableHeightBias cfg)\<rparr>"
  have el: "eligible ctx env ?cfg = eligible ctx env cfg" by (rule eligible_bias)
  have "map (score_candidate ctx env ?cfg) ?es = map ?shift (map (score_candidate ctx env cfg) ?es)"
    by (simp add: score_candidate_def base_score_def comp_def split: option.split)
  moreover have "softmaxWeights (map ?shift (map (score_candidate ctx env cfg) ?es)) t =
      softmaxWeights (map (score_candidate ctx env cfg) ?es) t" for t
    using False by (intro softmax_shift) auto
  ultimately have "softmaxWeights (map (score_candidate ctx env ?cfg) ?es) t =
      softmaxWeights (map (score_candidate ctx env cfg) ?es) t" for t
    by (simp only:)
  then have ws: "map ca_Weight (ranked ctx env pool ?cfg) = map ca_Weight (ranked ctx env pool cfg)"
    by (simp add: ranked_weights el)
  let ?i = "pick_index d d' nanos ctx cfg (map ca_Weight (ranked ctx env pool cfg))"
  have i: "pick_index d d' nanos ctx ?cfg (map ca_Weight (ranked ctx env pool ?cfg)) = ?i"
    by (simp add: ws pick_index_def)
  have lt: "?i < length ?es" using False by (rule pick_index_lt)
  have "ca_Weight (ranked ctx env pool ?cfg ! ?i) = ca_Weight (ranked ctx env pool cfg ! ?i)"
    using lt arg_cong [OF ws, of "\<lambda>l. l ! ?i"] by (simp add: length_ranked el)
  with lt False show ?thesis
    using ranked_nth [of ?i ctx env cfg pool] ranked_nth [of ?i ctx env ?cfg pool]
    by (simp add: Pick_index el i)
qed

end
