(* ===== verification/Response_Cache.thy ===== *)
theory Response_Cache
  imports Mesh_Prelude
begin

text \<open>
  \<^verbatim>\<open>pkg/cache\<close>: the response cache with its byte budget. The LRU container of
  \<^verbatim>\<open>hashicorp/golang-lru\<close> is an argument (\<open>lru_ops\<close>); what the cache relies on is the hypothesis
  \<open>lru_laws\<close>, its documented behaviour over the list of its items, oldest first. \<^verbatim>\<open>currentBytes\<close> is
  kept as an integer: a sum of body lengths that leaves the \<^verbatim>\<open>int64\<close> range needs 2^63 bytes of
  responses. The eviction loop is a \<^verbatim>\<open>for\<close> loop over a container the model knows nothing about,
  hence a partial function; its termination is a theorem.
\<close>

section \<open>HTTP responses as the cache sees them\<close>

type_synonym http_header = "(string, string list) gomap"

text \<open>A body: what reading it to the end yields, and the error of closing it, if any.\<close>

record http_body =
  bd_read :: "string + bytes"
  bd_close :: "string option"

record http_response =
  rs_StatusCode :: int
  rs_Header :: "http_header option"
  rs_Body :: "http_body option"
  rs_ContentLength :: int

section \<open>Entries\<close>

record cache_entry =
  en_Status :: int
  en_Header :: "http_header option"
  en_Body :: bytes
  en_StoredAt :: time
  en_ExpiresAt :: time
  en_Size :: int

definition cloneHeader :: "http_header option \<Rightarrow> http_header" where
  "cloneHeader h = (case h of None \<Rightarrow> [] | Some h \<Rightarrow> go_copy h)"

definition Clone :: "cache_entry option \<Rightarrow> cache_entry option" where
  "Clone e =
     (case e of None \<Rightarrow> None
      | Some e \<Rightarrow>
          Some \<lparr>en_Status = en_Status e, en_Header = Some (cloneHeader (en_Header e)),
                en_Body = [] @ en_Body e, en_StoredAt = en_StoredAt e,
                en_ExpiresAt = en_ExpiresAt e, en_Size = en_Size e\<rparr>)"

definition BuildEntry :: "time \<Rightarrow> http_response option \<Rightarrow> bytes \<Rightarrow> duration \<Rightarrow> cache_entry option" where
  "BuildEntry now resp body ttl =
     (case resp of None \<Rightarrow> None
      | Some resp \<Rightarrow>
          let entry = \<lparr>en_Status = rs_StatusCode resp, en_Header = Some (cloneHeader (rs_Header resp)),
                       en_Body = [] @ body, en_StoredAt = now, en_ExpiresAt = zero_time,
                       en_Size = int (length body)\<rparr>
          in Some (if ttl > 0 then entry\<lparr>en_ExpiresAt := en_StoredAt entry + ttl\<rparr> else entry))"

text \<open>
  \<^verbatim>\<open>ReadAndBuffer\<close>: the response afterwards, and an error or the data. A body that was read to
  its end reads as empty from then on.
\<close>

definition ReadAndBuffer ::
    "http_response option \<Rightarrow> int \<Rightarrow> http_response option \<times> (string + bytes option)" where
  "ReadAndBuffer resp limit =
     (case resp of None \<Rightarrow> (None, Inr None)
      | Some r \<Rightarrow>
        (case rs_Body r of None \<Rightarrow> (Some r, Inr None)
         | Some b \<Rightarrow>
           (case bd_read b of
              Inl err \<Rightarrow> (Some r, Inl err)
            | Inr data \<Rightarrow>
                let drained = r\<lparr>rs_Body := Some (b\<lparr>bd_read := Inr []\<rparr>)\<rparr>
                in case bd_close b of
                     Some err \<Rightarrow> (Some drained, Inl err)
                   | None \<Rightarrow>
                       if limit > 0 \<and> int (length data) > limit
                       then (Some drained, Inl ''cache: body exceeds limit'')
                       else (Some (r\<lparr>rs_Body := Some \<lparr>bd_read = Inr data, bd_close = None\<rparr>,
                                     rs_ContentLength := int (length data)\<rparr>), Inr (Some data)))))"

section \<open>The LRU container\<close>

record 's lru_ops =
  lru_New :: "int \<Rightarrow> string + 's"
  lru_Peek :: "'s \<Rightarrow> string \<Rightarrow> cache_entry option"
  lru_Get :: "'s \<Rightarrow> string \<Rightarrow> 's \<times> cache_entry option"
  lru_Add :: "'s \<Rightarrow> string \<Rightarrow> cache_entry \<Rightarrow> 's \<times> bool"
  lru_RemoveOldest :: "'s \<Rightarrow> 's \<times> (string \<times> cache_entry) option"
  lru_Remove :: "'s \<Rightarrow> string \<Rightarrow> 's \<times> bool"
  lru_Purge :: "'s \<Rightarrow> 's"

type_synonym items = "(string, cache_entry) gomap"

text \<open>Adding to the items of an LRU list with capacity \<open>cap\<close>: the item becomes the newest, and a
  new key in a full list pushes out the oldest item.\<close>

definition add_items :: "nat \<Rightarrow> items \<Rightarrow> string \<Rightarrow> cache_entry \<Rightarrow> items" where
  "add_items cap xs k e =
     (let ys = go_delete xs k @ [(k, e)] in if length ys > cap then tl ys else ys)"

definition touch_items :: "items \<Rightarrow> string \<Rightarrow> items" where
  "touch_items xs k = (case map_of xs k of None \<Rightarrow> xs | Some e \<Rightarrow> go_delete xs k @ [(k, e)])"

text \<open>The documented behaviour of the container on the states in \<open>ok\<close>, seen through \<open>its\<close>.\<close>

definition lru_laws :: "'s lru_ops \<Rightarrow> nat \<Rightarrow> ('s \<Rightarrow> bool) \<Rightarrow> ('s \<Rightarrow> items) \<Rightarrow> bool" where
  "lru_laws ops cap ok its \<longleftrightarrow> 0 < cap \<and>
     (\<forall>s. ok s \<longrightarrow>
        go_wf (its s) \<and> length (its s) \<le> cap \<and>
        lru_Peek ops s = map_of (its s) \<and>
        (\<forall>k. snd (lru_Get ops s k) = map_of (its s) k \<and>
             ok (fst (lru_Get ops s k)) \<and> its (fst (lru_Get ops s k)) = touch_items (its s) k) \<and>
        (\<forall>k e. ok (fst (lru_Add ops s k e)) \<and>
               its (fst (lru_Add ops s k e)) = add_items cap (its s) k e) \<and>
        ok (fst (lru_RemoveOldest ops s)) \<and>
        its (fst (lru_RemoveOldest ops s)) = tl (its s) \<and>
        snd (lru_RemoveOldest ops s) = (if its s = [] then None else Some (hd (its s))) \<and>
        (\<forall>k. ok (fst (lru_Remove ops s k)) \<and> its (fst (lru_Remove ops s k)) = go_delete (its s) k) \<and>
        ok (lru_Purge ops s) \<and> its (lru_Purge ops s) = [])"

section \<open>The cache\<close>

record 's ResponseCache =
  rc_store :: 's
  rc_maxBytes :: int
  rc_currentBytes :: int

definition NewResponseCache :: "'s lru_ops \<Rightarrow> int \<Rightarrow> int \<Rightarrow> string + 's ResponseCache" where
  "NewResponseCache ops capacity maxBytes =
     (if capacity \<le> 0 then Inl ''cache: capacity must be positive''
      else case lru_New ops capacity of
        Inl err \<Rightarrow> Inl err
      | Inr store \<Rightarrow> Inr \<lparr>rc_store = store, rc_maxBytes = maxBytes, rc_currentBytes = 0\<rparr>)"

partial_function (option) evict_loop ::
    "'s lru_ops \<Rightarrow> string \<Rightarrow> 's ResponseCache \<Rightarrow> 's ResponseCache option" where
  "evict_loop ops key c =
     (if \<not> rc_currentBytes c > rc_maxBytes c then Some c
      else case lru_RemoveOldest ops (rc_store c) of
        (store, None) \<Rightarrow> Some (c\<lparr>rc_store := store\<rparr>)
      | (store, Some (k, evicted)) \<Rightarrow>
          let c' = c\<lparr>rc_store := store, rc_currentBytes := rc_currentBytes c - en_Size evicted\<rparr>
          in if k = key then Some c' else evict_loop ops key c')"

definition cache_Store ::
    "'s lru_ops \<Rightarrow> 's ResponseCache \<Rightarrow> string \<Rightarrow> cache_entry option \<Rightarrow> 's ResponseCache option" where
  "cache_Store ops c key entry =
     (case entry of None \<Rightarrow> Some c
      | Some e \<Rightarrow>
          let c1 = (case lru_Peek ops (rc_store c) key of
                      None \<Rightarrow> c
                    | Some existing \<Rightarrow> c\<lparr>rc_currentBytes := rc_currentBytes c - en_Size existing\<rparr>);
              c2 = c1\<lparr>rc_store := fst (lru_Add ops (rc_store c1) key e),
                      rc_currentBytes := rc_currentBytes c1 + en_Size e\<rparr>
          in if rc_maxBytes c2 > 0 then evict_loop ops key c2 else Some c2)"

definition cache_Delete :: "'s lru_ops \<Rightarrow> 's ResponseCache \<Rightarrow> string \<Rightarrow> 's ResponseCache" where
  "cache_Delete ops c key =
     (let c1 = (case lru_Peek ops (rc_store c) key of
                  None \<Rightarrow> c
                | Some existing \<Rightarrow> c\<lparr>rc_currentBytes := rc_currentBytes c - en_Size existing\<rparr>)
      in c1\<lparr>rc_store := fst (lru_Remove ops (rc_store c1) key)\<rparr>)"

definition cache_Lookup ::
    "'s lru_ops \<Rightarrow> 's ResponseCache \<Rightarrow> string \<Rightarrow> time \<Rightarrow> 's ResponseCache \<times> cache_entry option" where
  "cache_Lookup ops c key now =
     (case lru_Get ops (rc_store c) key of
        (store, None) \<Rightarrow> (c\<lparr>rc_store := store\<rparr>, None)
      | (store, Some entry) \<Rightarrow>
          let c1 = c\<lparr>rc_store := store\<rparr>
          in if \<not> IsZero (en_ExpiresAt entry) \<and> en_ExpiresAt entry < now
             then (cache_Delete ops c1 key, None)
             else (c1, Clone (Some entry)))"

definition cache_Purge :: "'s lru_ops \<Rightarrow> 's ResponseCache \<Rightarrow> 's ResponseCache" where
  "cache_Purge ops c = c\<lparr>rc_store := lru_Purge ops (rc_store c), rc_currentBytes := 0\<rparr>"

definition ByteSize :: "'s ResponseCache \<Rightarrow> int" where
  "ByteSize c = rc_currentBytes c"

section \<open>Using the laws\<close>

lemma lru_lawsD:
  assumes "lru_laws ops cap ok its" and "ok s"
  shows "go_wf (its s)" and "length (its s) \<le> cap" and "lru_Peek ops s = map_of (its s)"
    and "snd (lru_Get ops s k) = map_of (its s) k" and "ok (fst (lru_Get ops s k))"
    and "its (fst (lru_Get ops s k)) = touch_items (its s) k"
    and "ok (fst (lru_Add ops s k e))" and "its (fst (lru_Add ops s k e)) = add_items cap (its s) k e"
    and "ok (fst (lru_RemoveOldest ops s))" and "its (fst (lru_RemoveOldest ops s)) = tl (its s)"
    and "snd (lru_RemoveOldest ops s) = (if its s = [] then None else Some (hd (its s)))"
    and "ok (fst (lru_Remove ops s k))" and "its (fst (lru_Remove ops s k)) = go_delete (its s) k"
    and "ok (lru_Purge ops s)" and "its (lru_Purge ops s) = []"
  using assms by (simp_all add: lru_laws_def)

section \<open>The eviction loop on the list of items\<close>

fun evict_items :: "string \<Rightarrow> int \<Rightarrow> items \<Rightarrow> int \<Rightarrow> items \<times> int" where
  "evict_items key mx [] cur = ([], cur)"
| "evict_items key mx ((k, e) # xs) cur =
     (if cur \<le> mx then ((k, e) # xs, cur)
      else if k = key then (xs, cur - en_Size e)
      else evict_items key mx xs (cur - en_Size e))"

text \<open>Under the laws the loop ends, and computes \<open>evict_items\<close>.\<close>

lemma evict_loop_items:
  assumes laws: "lru_laws ops cap ok its" and "ok (rc_store c)"
  shows "\<exists>s'. evict_loop ops key c =
      Some (c\<lparr>rc_store := s',
              rc_currentBytes := snd (evict_items key (rc_maxBytes c) (its (rc_store c)) (rc_currentBytes c))\<rparr>)
    \<and> ok s' \<and> its s' = fst (evict_items key (rc_maxBytes c) (its (rc_store c)) (rc_currentBytes c))"
  using assms(2)
proof (induction "its (rc_store c)" arbitrary: c)
  case Nil
  then show ?case
    using lru_lawsD(9-11) [OF laws Nil.prems]
    by (subst evict_loop.simps)
      (auto simp: case_prod_unfold Nil.hyps [symmetric] intro: exI [of _ "rc_store c"])
next
  case (Cons x xs)
  obtain k e where x: "x = (k, e)" by (cases x)
  obtain s' where s: "its s' = xs" "ok s'" "lru_RemoveOldest ops (rc_store c) = (s', Some (k, e))"
    using lru_lawsD(9-11) [OF laws Cons.prems] x
    by (cases "lru_RemoveOldest ops (rc_store c)") (simp add: Cons.hyps(2) [symmetric])
  let ?c = "c\<lparr>rc_store := s', rc_currentBytes := rc_currentBytes c - en_Size e\<rparr>"
  have its: "its (rc_store c) = (k, e) # xs" using Cons.hyps(2) x by simp
  consider "rc_currentBytes c \<le> rc_maxBytes c" | "rc_currentBytes c > rc_maxBytes c" "k = key"
    | "rc_currentBytes c > rc_maxBytes c" "k \<noteq> key" by linarith
  then show ?case
  proof cases
    case 1
    then have "evict_loop ops key c = Some c" by (subst evict_loop.simps) simp
    with 1 Cons.prems show ?thesis by (intro exI [of _ "rc_store c"]) (simp add: its)
  next
    case 2
    then have "evict_loop ops key c = Some ?c"
      by (subst evict_loop.simps) (simp add: s(3) Let_def)
    with 2 s(1,2) show ?thesis by (intro exI [of _ s']) (simp add: its)
  next
    case 3
    then have "evict_loop ops key c = evict_loop ops key ?c"
      by (subst evict_loop.simps) (simp add: s(3) Let_def)
    with Cons.hyps(1) [of ?c] s(1,2) 3 show ?thesis by (simp add: its)
  qed
qed

section \<open>Bytes held and bytes counted\<close>

definition bytes_of :: "items \<Rightarrow> int" where
  "bytes_of xs = sum_list (map (\<lambda>(k, e). en_Size e) xs)"

definition sized :: "items \<Rightarrow> bool" where
  "sized = list_all (\<lambda>(k, e). 0 \<le> en_Size e)"

text \<open>What \<^verbatim>\<open>currentBytes\<close> counts beyond the entries the container holds.\<close>

definition drift :: "('s \<Rightarrow> items) \<Rightarrow> 's ResponseCache \<Rightarrow> int" where
  "drift its c = rc_currentBytes c - bytes_of (its (rc_store c))"

definition size_at :: "items \<Rightarrow> string \<Rightarrow> int" where
  "size_at xs k = (case map_of xs k of None \<Rightarrow> 0 | Some e \<Rightarrow> en_Size e)"

text \<open>The size of the item that a full container pushes out for a new key.\<close>

definition pushed_size :: "nat \<Rightarrow> items \<Rightarrow> string \<Rightarrow> int" where
  "pushed_size cap xs k =
     (if map_of xs k = None \<and> length xs = cap \<and> xs \<noteq> [] then en_Size (snd (hd xs)) else 0)"

lemma bytes_of_simps [simp]:
  "bytes_of [] = 0" "bytes_of ((k, e) # xs) = en_Size e + bytes_of xs"
  "bytes_of (xs @ ys) = bytes_of xs + bytes_of ys"
  by (simp_all add: bytes_of_def)

lemma sized_simps [simp]:
  "sized []" "sized ((k, e) # xs) \<longleftrightarrow> 0 \<le> en_Size e \<and> sized xs" "sized (xs @ ys) \<longleftrightarrow> sized xs \<and> sized ys"
  by (simp_all add: sized_def)

lemma bytes_of_nonneg: "sized xs \<Longrightarrow> 0 \<le> bytes_of xs"
  by (induction xs) (auto simp: sized_def bytes_of_def)

lemma sized_subset: "sized xs \<Longrightarrow> set ys \<subseteq> set xs \<Longrightarrow> sized ys"
  by (auto simp: sized_def list_all_iff)

lemma sized_delete: "sized xs \<Longrightarrow> sized (go_delete xs k)"
  by (rule sized_subset) (auto simp: AList.delete_eq)

lemma bytes_of_delete: "go_wf xs \<Longrightarrow> bytes_of (go_delete xs k) = bytes_of xs - size_at xs k"
proof (induction xs)
  case (Cons x xs)
  obtain k' e where x: "x = (k', e)" by (cases x)
  show ?case
  proof (cases "k' = k")
    case True
    with Cons.prems x have "go_delete (x # xs) k = xs" by simp
    with True x show ?thesis by (simp add: size_at_def)
  next
    case False
    with Cons x show ?thesis by (simp add: size_at_def)
  qed
qed (simp add: size_at_def)

lemma size_at_nonneg: "sized xs \<Longrightarrow> 0 \<le> size_at xs k"
  by (auto simp: size_at_def sized_def list_all_iff split: option.splits dest!: map_of_SomeD)

lemma pushed_size_nonneg: "sized xs \<Longrightarrow> 0 \<le> pushed_size cap xs k"
  by (cases xs) (auto simp: pushed_size_def)

text \<open>Adding puts the entry last and counts everything but the item that is pushed out.\<close>

lemma add_items_last:
  assumes "go_wf xs" and "length xs \<le> cap" and "0 < cap"
  shows "\<exists>ys. add_items cap xs k e = ys @ [(k, e)] \<and> k \<notin> fst ` set ys \<and> set ys \<subseteq> set xs \<and>
    bytes_of ys = bytes_of xs - size_at xs k - pushed_size cap xs k"
proof (cases "map_of xs k")
  case None
  then have k: "k \<notin> fst ` set xs" "go_delete xs k = xs" "size_at xs k = 0"
    by (simp_all add: size_at_def) (simp_all add: map_of_eq_None_iff)
  show ?thesis
  proof (cases "length xs = cap")
    case True
    then obtain x zs where "xs = x # zs" using assms(3) by (cases xs) auto
    with True k None show ?thesis
      by (intro exI [of _ zs]) (cases x, auto simp: add_items_def pushed_size_def)
  next
    case False
    with assms(2) k None show ?thesis
      by (intro exI [of _ xs]) (simp add: add_items_def pushed_size_def)
  qed
next
  case (Some e')
  then have "k \<in> fst ` set xs" by (metis domI dom_map_of_conv_image_fst)
  then have "length (go_delete xs k) < length xs"
    by (auto simp: AList.delete_eq intro: length_filter_less)
  then have "add_items cap xs k e = go_delete xs k @ [(k, e)]"
    using assms(2) by (simp add: add_items_def)
  with Some assms(1) show ?thesis
    using bytes_of_delete [OF assms(1), of k]
    by (intro exI [of _ "go_delete xs k"]) (auto simp: pushed_size_def AList.delete_eq)
qed

lemma evict_items_drift:
  "snd (evict_items key mx xs cur) - bytes_of (fst (evict_items key mx xs cur)) = cur - bytes_of xs"
  by (induction key mx xs cur rule: evict_items.induct) auto

lemma evict_items_subset: "set (fst (evict_items key mx xs cur)) \<subseteq> set xs"
  by (induction key mx xs cur rule: evict_items.induct) auto

text \<open>
  The newest entry survives the loop exactly when it fits into what the drift leaves of the
  budget; otherwise nothing survives.
\<close>

lemma evict_items_newest:
  assumes "sized (ys @ [(key, e)])" and "key \<notin> fst ` set ys"
    and "cur = d + bytes_of (ys @ [(key, e)])"
  shows "if d + en_Size e \<le> mx
    then snd (evict_items key mx (ys @ [(key, e)]) cur) \<le> mx \<and>
         (\<exists>zs. fst (evict_items key mx (ys @ [(key, e)]) cur) = zs @ [(key, e)] \<and> key \<notin> fst ` set zs)
    else fst (evict_items key mx (ys @ [(key, e)]) cur) = []"
  using assms
proof (induction ys arbitrary: cur)
  case (Cons y ys)
  obtain k f where y: "y = (k, f)" by (cases y)
  have "0 \<le> en_Size f + bytes_of ys"
    using Cons.prems(1) y bytes_of_nonneg [of ys] by simp
  show ?case
  proof (cases "cur \<le> mx")
    case True
    with Cons.prems y \<open>0 \<le> en_Size f + bytes_of ys\<close> show ?thesis
      by (auto intro: exI [of _ "(k, f) # ys"])
  next
    case False
    with Cons.IH [of "cur - en_Size f"] Cons.prems y show ?thesis by auto
  qed
qed auto

lemma map_of_snoc: "k \<notin> fst ` set zs \<Longrightarrow> map_of (zs @ [(k, e)]) k = Some e"
  by (induction zs) auto

lemma evict_loop_newest:
  assumes laws: "lru_laws ops cap ok its" and ok: "ok (rc_store c)"
    and ys: "its (rc_store c) = ys @ [(key, e)]" "key \<notin> fst ` set ys" "sized (ys @ [(key, e)])"
  obtains c' where "evict_loop ops key c = Some c'" and "ok (rc_store c')"
    and "rc_maxBytes c' = rc_maxBytes c" and "sized (its (rc_store c'))"
    and "drift its c' = drift its c"
    and "if drift its c + en_Size e \<le> rc_maxBytes c
         then map_of (its (rc_store c')) key = Some e \<and> rc_currentBytes c' \<le> rc_maxBytes c
         else its (rc_store c') = []"
proof -
  let ?r = "evict_items key (rc_maxBytes c) (ys @ [(key, e)]) (rc_currentBytes c)"
  obtain s' where s': "evict_loop ops key c = Some (c\<lparr>rc_store := s', rc_currentBytes := snd ?r\<rparr>)"
      "ok s'" "its s' = fst ?r"
    using evict_loop_items [OF laws ok, of key] by (auto simp: ys(1))
  have cur: "rc_currentBytes c = drift its c + bytes_of (ys @ [(key, e)])"
    by (simp add: drift_def ys(1))
  show thesis
  proof (rule that [OF s'(1)])
    show "sized (its (rc_store (c\<lparr>rc_store := s', rc_currentBytes := snd ?r\<rparr>)))"
      using sized_subset [OF ys(3) evict_items_subset] by (simp add: s'(3))
    show "drift its (c\<lparr>rc_store := s', rc_currentBytes := snd ?r\<rparr>) = drift its c"
      using evict_items_drift [of key "rc_maxBytes c" "ys @ [(key, e)]" "rc_currentBytes c"]
      by (simp add: drift_def s'(3) ys(1))
    show "if drift its c + en_Size e \<le> rc_maxBytes c
        then map_of (its (rc_store (c\<lparr>rc_store := s', rc_currentBytes := snd ?r\<rparr>))) key = Some e \<and>
             rc_currentBytes (c\<lparr>rc_store := s', rc_currentBytes := snd ?r\<rparr>) \<le> rc_maxBytes c
        else its (rc_store (c\<lparr>rc_store := s', rc_currentBytes := snd ?r\<rparr>)) = []"
      using evict_items_newest [OF ys(3,2) cur, of "rc_maxBytes c"]
      by (auto simp: s'(3) map_of_snoc simp del: map_of_append split: if_splits)
  qed (simp_all add: s'(2))
qed

text \<open>\<^verbatim>\<open>Store\<close> returns, keeps the laws, and only grows the drift.\<close>

lemma Store_spec:
  assumes laws: "lru_laws ops cap ok its" and "ok (rc_store c)" and "sized (its (rc_store c))"
    and "0 \<le> en_Size e"
  obtains c' where "cache_Store ops c key (Some e) = Some c'" and "ok (rc_store c')"
    and "rc_maxBytes c' = rc_maxBytes c" and "sized (its (rc_store c'))"
    and "drift its c' = drift its c + pushed_size cap (its (rc_store c)) key"
    and "if rc_maxBytes c \<le> 0 \<or> drift its c' + en_Size e \<le> rc_maxBytes c
         then map_of (its (rc_store c')) key = Some e \<and>
              (0 < rc_maxBytes c \<longrightarrow> rc_currentBytes c' \<le> rc_maxBytes c)
         else its (rc_store c') = []"
proof -
  let ?xs = "its (rc_store c)"
  note laws_c = lru_lawsD [OF laws assms(2)]
  have cap: "0 < cap" using laws by (simp add: lru_laws_def)
  obtain ys where ys: "add_items cap ?xs key e = ys @ [(key, e)]" "key \<notin> fst ` set ys"
      "set ys \<subseteq> set ?xs" "bytes_of ys = bytes_of ?xs - size_at ?xs key - pushed_size cap ?xs key"
    using add_items_last [OF laws_c(1,2) cap, of key e] by blast
  define c2 where "c2 = c\<lparr>rc_store := fst (lru_Add ops (rc_store c) key e),
    rc_currentBytes := rc_currentBytes c - size_at ?xs key + en_Size e\<rparr>"
  have store: "cache_Store ops c key (Some e) =
      (if rc_maxBytes c > 0 then evict_loop ops key c2 else Some c2)"
    by (simp add: cache_Store_def Let_def laws_c(3) size_at_def c2_def split: option.split)
  have c2: "its (rc_store c2) = ys @ [(key, e)]" "ok (rc_store c2)" "rc_maxBytes c2 = rc_maxBytes c"
    "sized (ys @ [(key, e)])" "drift its c2 = drift its c + pushed_size cap ?xs key"
    using laws_c(7,8) ys sized_subset [OF assms(3)] assms(4) by (simp_all add: c2_def drift_def)
  show thesis
  proof (cases "rc_maxBytes c > 0")
    case False
    with c2 ys(2) store show thesis by (intro that [of c2]) (simp_all add: map_of_snoc del: map_of_append)
  next
    case True
    obtain c' where "evict_loop ops key c2 = Some c'" "ok (rc_store c')"
      "rc_maxBytes c' = rc_maxBytes c2" "sized (its (rc_store c'))" "drift its c' = drift its c2"
      "if drift its c2 + en_Size e \<le> rc_maxBytes c2
       then map_of (its (rc_store c')) key = Some e \<and> rc_currentBytes c' \<le> rc_maxBytes c2
       else its (rc_store c') = []"
      by (rule evict_loop_newest [OF laws c2(2,1) ys(2) c2(4)])
    with True c2 store show thesis by (intro that [of c']) auto
  qed
qed

lemma Delete_spec:
  assumes laws: "lru_laws ops cap ok its" and "ok (rc_store c)"
  shows "ok (rc_store (cache_Delete ops c key))"
    and "its (rc_store (cache_Delete ops c key)) = go_delete (its (rc_store c)) key"
    and "drift its (cache_Delete ops c key) = drift its c"
    and "rc_maxBytes (cache_Delete ops c key) = rc_maxBytes c"
  using lru_lawsD(1,3,12,13) [OF assms] bytes_of_delete [of "its (rc_store c)" key]
  by (auto simp: cache_Delete_def Let_def drift_def size_at_def split: option.splits)

lemma touch_items_facts:
  assumes "go_wf xs"
  shows "map_of (touch_items xs k) = map_of xs" and "bytes_of (touch_items xs k) = bytes_of xs"
    and "set (touch_items xs k) = set xs"
proof -
  show "map_of (touch_items xs k) = map_of xs"
    by (auto simp: touch_items_def map_add_def fun_eq_iff split: option.splits)
  show "bytes_of (touch_items xs k) = bytes_of xs"
    using bytes_of_delete [OF assms, of k] by (auto simp: touch_items_def size_at_def split: option.splits)
  have "set (go_delete xs k) \<union> {(k, e)} = set xs" if "map_of xs k = Some e" for e
    using that assms by (auto simp: AList.delete_eq dest: map_of_SomeD) (metis map_of_is_SomeI option.inject)
  then show "set (touch_items xs k) = set xs" by (auto simp: touch_items_def split: option.splits)
qed

definition expired :: "cache_entry \<Rightarrow> time \<Rightarrow> bool" where
  "expired e now \<longleftrightarrow> \<not> IsZero (en_ExpiresAt e) \<and> en_ExpiresAt e < now"

lemma Lookup_spec:
  fixes ops :: "'s lru_ops" and key :: string and now :: time
  assumes laws: "lru_laws ops cap ok its" and ok: "ok (rc_store c)"
  defines "c' \<equiv> fst (cache_Lookup ops c key now)"
  shows "ok (rc_store c')" and "drift its c' = drift its c" and "rc_maxBytes c' = rc_maxBytes c"
    and "set (its (rc_store c')) \<subseteq> set (its (rc_store c))"
    and "snd (cache_Lookup ops c key now) = (case map_of (its (rc_store c)) key of None \<Rightarrow> None
      | Some e \<Rightarrow> if expired e now then None else Clone (Some e))"
    and "map_of (its (rc_store c')) = (case map_of (its (rc_store c)) key of
        None \<Rightarrow> map_of (its (rc_store c))
      | Some e \<Rightarrow> if expired e now then (map_of (its (rc_store c)))(key := None)
                 else map_of (its (rc_store c)))"
proof -
  let ?xs = "its (rc_store c)"
  note get = lru_lawsD(1) [OF laws ok] lru_lawsD(4-6) [OF laws ok, of key] and touch = touch_items_facts [of ?xs key]
  obtain s1 where s1: "lru_Get ops (rc_store c) key = (s1, map_of ?xs key)" "ok s1"
      "its s1 = touch_items ?xs key"
    using get by (cases "lru_Get ops (rc_store c) key") auto
  let ?c1 = "c\<lparr>rc_store := s1\<rparr>"
  have c1: "ok (rc_store ?c1)" "map_of (its (rc_store ?c1)) = map_of ?xs"
    "set (its (rc_store ?c1)) = set ?xs" "drift its ?c1 = drift its c"
    using s1 touch get(1) by (simp_all add: drift_def)
  have "set (go_delete ys key) \<subseteq> set ys" for ys :: items by (auto simp: AList.delete_eq)
  then have sub: "set (go_delete (its s1) key) \<subseteq> set ?xs" using c1(3) by auto
  note del = Delete_spec [OF laws c1(1), of key]
  have look: "cache_Lookup ops c key now = (case map_of ?xs key of None \<Rightarrow> (?c1, None)
      | Some e \<Rightarrow> if expired e now then (cache_Delete ops ?c1 key, None) else (?c1, Clone (Some e)))"
    by (simp add: cache_Lookup_def s1(1) Let_def expired_def split: option.split)
  show "ok (rc_store c')" "drift its c' = drift its c" "rc_maxBytes c' = rc_maxBytes c"
    "set (its (rc_store c')) \<subseteq> set ?xs"
    "snd (cache_Lookup ops c key now) = (case map_of ?xs key of None \<Rightarrow> None
      | Some e \<Rightarrow> if expired e now then None else Clone (Some e))"
    "map_of (its (rc_store c')) = (case map_of ?xs key of None \<Rightarrow> map_of ?xs
      | Some e \<Rightarrow> if expired e now then (map_of ?xs)(key := None) else map_of ?xs)"
    unfolding c'_def look using del c1 sub by (auto split: option.split)
qed

section \<open>Runs\<close>

datatype cache_op =
    OpStore string "cache_entry option"
  | OpLookup string time
  | OpRemove string
  | OpPurge

fun cache_step :: "'s lru_ops \<Rightarrow> 's ResponseCache \<Rightarrow> cache_op \<Rightarrow> 's ResponseCache option" where
  "cache_step ops c (OpStore k e) = cache_Store ops c k e"
| "cache_step ops c (OpLookup k now) = Some (fst (cache_Lookup ops c k now))"
| "cache_step ops c (OpRemove k) = Some (cache_Delete ops c k)"
| "cache_step ops c OpPurge = Some (cache_Purge ops c)"

fun cache_run :: "'s lru_ops \<Rightarrow> 's ResponseCache \<Rightarrow> cache_op list \<Rightarrow> 's ResponseCache option" where
  "cache_run ops c [] = Some c"
| "cache_run ops c (op # rest) =
     (case cache_step ops c op of None \<Rightarrow> None | Some c' \<Rightarrow> cache_run ops c' rest)"

fun op_sized :: "cache_op \<Rightarrow> bool" where
  "op_sized (OpStore k (Some e)) = (0 \<le> en_Size e)"
| "op_sized op = True"

text \<open>The entries held never exceed what is counted, nor the budget.\<close>

definition cache_inv :: "('s \<Rightarrow> bool) \<Rightarrow> ('s \<Rightarrow> items) \<Rightarrow> 's ResponseCache \<Rightarrow> bool" where
  "cache_inv ok its c \<longleftrightarrow>
     ok (rc_store c) \<and> sized (its (rc_store c)) \<and> 0 \<le> drift its c \<and>
     (0 < rc_maxBytes c \<longrightarrow> bytes_of (its (rc_store c)) \<le> rc_maxBytes c)"

lemma cache_inv_Store:
  assumes laws: "lru_laws ops cap ok its" and inv: "cache_inv ok its c" and "0 \<le> en_Size e"
  shows "\<exists>c'. cache_Store ops c key (Some e) = Some c' \<and> cache_inv ok its c' \<and>
    rc_maxBytes c' = rc_maxBytes c"
proof -
  have c: "ok (rc_store c)" "sized (its (rc_store c))" "0 \<le> drift its c"
    using inv by (simp_all add: cache_inv_def)
  obtain c' where c': "cache_Store ops c key (Some e) = Some c'" "ok (rc_store c')"
    "rc_maxBytes c' = rc_maxBytes c" "sized (its (rc_store c'))"
    "drift its c' = drift its c + pushed_size cap (its (rc_store c)) key"
    "if rc_maxBytes c \<le> 0 \<or> drift its c' + en_Size e \<le> rc_maxBytes c
     then map_of (its (rc_store c')) key = Some e \<and>
          (0 < rc_maxBytes c \<longrightarrow> rc_currentBytes c' \<le> rc_maxBytes c)
     else its (rc_store c') = []"
    by (rule Store_spec [OF laws c(1,2) assms(3)])
  have d: "0 \<le> drift its c'" using c'(5) c(2,3) pushed_size_nonneg [OF c(2), of cap key] by simp
  then have "bytes_of (its (rc_store c')) \<le> rc_currentBytes c'" by (simp add: drift_def)
  with c'(6) have "0 < rc_maxBytes c \<longrightarrow> bytes_of (its (rc_store c')) \<le> rc_maxBytes c"
    by (auto split: if_splits)
  with c' d show ?thesis by (auto simp: cache_inv_def)
qed

lemma bytes_of_remove:
  assumes "sized xs" and "go_wf xs"
  shows "bytes_of (go_delete xs k) \<le> bytes_of xs"
  using bytes_of_delete [OF assms(2), of k] size_at_nonneg [OF assms(1), of k] by simp

lemma cache_inv_Delete:
  assumes "lru_laws ops cap ok its" and "cache_inv ok its c"
  shows "cache_inv ok its (cache_Delete ops c key) \<and> rc_maxBytes (cache_Delete ops c key) = rc_maxBytes c"
proof -
  have c: "ok (rc_store c)" "sized (its (rc_store c))" using assms(2) by (simp_all add: cache_inv_def)
  show ?thesis
    using Delete_spec [OF assms(1) c(1), of key] assms(2) sized_delete [OF c(2), of key]
      bytes_of_remove [OF c(2) lru_lawsD(1) [OF assms(1) c(1)], of key]
    by (auto simp: cache_inv_def)
qed

lemma cache_inv_Lookup:
  assumes "lru_laws ops cap ok its" and "cache_inv ok its c"
  shows "cache_inv ok its (fst (cache_Lookup ops c key now)) \<and>
    rc_maxBytes (fst (cache_Lookup ops c key now)) = rc_maxBytes c"
proof -
  have c: "ok (rc_store c)" "sized (its (rc_store c))" using assms(2) by (simp_all add: cache_inv_def)
  let ?s = "fst (lru_Get ops (rc_store c) key)"
  note get = lru_lawsD(5,6) [OF assms(1) c(1), of key]
    and touch = touch_items_facts [OF lru_lawsD(1) [OF assms(1) c(1)], of key]
  have inv: "cache_inv ok its (c\<lparr>rc_store := ?s\<rparr>)"
    using assms(2) get touch sized_subset [OF c(2), of "its ?s"] by (simp add: cache_inv_def drift_def)
  show ?thesis
    using inv cache_inv_Delete [OF assms(1) inv, of key]
    by (auto simp: cache_Lookup_def case_prod_unfold Let_def split: option.split)
qed

lemma cache_inv_step:
  assumes "lru_laws ops cap ok its" and "cache_inv ok its c" and "op_sized op"
  shows "\<exists>c'. cache_step ops c op = Some c' \<and> cache_inv ok its c' \<and> rc_maxBytes c' = rc_maxBytes c"
proof (cases op)
  case (OpStore k e)
  with assms cache_inv_Store [OF assms(1,2)] show ?thesis
    by (cases e) (auto simp: cache_Store_def)
next
  case (OpLookup k now)
  with cache_inv_Lookup [OF assms(1,2)] show ?thesis by simp
next
  case (OpRemove k)
  with cache_inv_Delete [OF assms(1,2)] show ?thesis by simp
next
  case OpPurge
  have "ok (rc_store c)" using assms(2) by (simp add: cache_inv_def)
  with OpPurge lru_lawsD(14,15) [OF assms(1), of "rc_store c"] show ?thesis
    by (simp add: cache_Purge_def cache_inv_def drift_def)
qed

lemma cache_inv_run:
  assumes "lru_laws ops cap ok its" and "cache_inv ok its c" and "list_all op_sized rest"
  shows "\<exists>c'. cache_run ops c rest = Some c' \<and> cache_inv ok its c' \<and> rc_maxBytes c' = rc_maxBytes c"
  using assms(2,3)
proof (induction rest arbitrary: c)
  case (Cons op rest)
  then obtain c1 where "cache_step ops c op = Some c1" "cache_inv ok its c1"
      "rc_maxBytes c1 = rc_maxBytes c"
    using cache_inv_step [OF assms(1), of c op] by auto
  with Cons.IH [of c1] Cons.prems show ?case by auto
qed simp

section \<open>A container that satisfies the laws\<close>

text \<open>The textbook LRU list with its capacity, oldest item first.\<close>

definition list_lru :: "(nat \<times> items) lru_ops" where
  "list_lru =
     \<lparr>lru_New = (\<lambda>cap. Inr (nat cap, [])),
      lru_Peek = (\<lambda>(cap, xs). map_of xs),
      lru_Get = (\<lambda>(cap, xs) k. ((cap, touch_items xs k), map_of xs k)),
      lru_Add = (\<lambda>(cap, xs) k e. ((cap, add_items cap xs k e), map_of xs k = None \<and> length xs = cap)),
      lru_RemoveOldest = (\<lambda>(cap, xs). ((cap, tl xs), if xs = [] then None else Some (hd xs))),
      lru_Remove = (\<lambda>(cap, xs) k. ((cap, go_delete xs k), map_of xs k \<noteq> None)),
      lru_Purge = (\<lambda>(cap, xs). (cap, []))\<rparr>"

definition list_lru_ok :: "nat \<Rightarrow> nat \<times> items \<Rightarrow> bool" where
  "list_lru_ok n = (\<lambda>(cap, xs). cap = n \<and> go_wf xs \<and> length xs \<le> cap)"

lemma add_items_ok:
  assumes "go_wf xs" and "length xs \<le> cap" and "0 < cap"
  shows "go_wf (add_items cap xs k e)" and "length (add_items cap xs k e) \<le> cap"
proof -
  have "go_wf (go_delete xs k @ [(k, e)])" using assms(1) by (auto simp: AList.delete_eq)
  then show "go_wf (add_items cap xs k e)"
    unfolding add_items_def Let_def by (simp only: map_tl distinct_tl simp_thms split: if_split)
  show "length (add_items cap xs k e) \<le> cap"
    using assms(2) length_delete_le [of k xs] by (auto simp: add_items_def Let_def)
qed

lemma touch_items_ok:
  assumes "go_wf xs" and "length xs \<le> cap"
  shows "go_wf (touch_items xs k)" and "length (touch_items xs k) \<le> cap"
proof -
  show "go_wf (touch_items xs k)"
    using assms(1) by (auto simp: touch_items_def AList.delete_eq split: option.split)
  have "length (go_delete xs k) < length xs" if "map_of xs k = Some e" for e
    using map_of_SomeD [OF that] by (auto simp: AList.delete_eq intro: length_filter_less)
  with assms(2) show "length (touch_items xs k) \<le> cap"
    by (fastforce simp: touch_items_def split: option.split)
qed

lemma list_lru_laws: "0 < n \<Longrightarrow> lru_laws list_lru n (list_lru_ok n) snd"
  by (auto simp: lru_laws_def list_lru_def list_lru_ok_def add_items_ok touch_items_ok map_tl distinct_tl
      intro: order_trans [OF length_delete_le])

definition demo_cache :: "nat \<Rightarrow> int \<Rightarrow> items \<Rightarrow> int \<Rightarrow> (nat \<times> items) ResponseCache" where
  "demo_cache cap mx xs cur = \<lparr>rc_store = (cap, xs), rc_maxBytes = mx, rc_currentBytes = cur\<rparr>"

definition demo_entry :: "int \<Rightarrow> cache_entry" where
  "demo_entry n = \<lparr>en_Status = 200, en_Header = None, en_Body = [], en_StoredAt = 0,
     en_ExpiresAt = 100, en_Size = n\<rparr>"

section \<open>Properties\<close>

text \<open>
  C11. The byte budget is never exceeded. From a new cache, every sequence of stores, lookups,
  deletions and purges returns (the eviction loop ends), and the entries held afterwards have at
  most \<^verbatim>\<open>maxBytes\<close> bytes when a budget is set, and never more bytes than \<^verbatim>\<open>ByteSize\<close> reports.
\<close>

theorem cache_within_budget:
  assumes "lru_laws ops cap ok its" and "NewResponseCache ops capacity maxBytes = Inr c"
    and "ok (rc_store c)" and "its (rc_store c) = []" and "list_all op_sized rest"
  shows "\<exists>c'. cache_run ops c rest = Some c' \<and> bytes_of (its (rc_store c')) \<le> ByteSize c' \<and>
    (0 < maxBytes \<longrightarrow> bytes_of (its (rc_store c')) \<le> maxBytes)"
proof -
  have c: "rc_maxBytes c = maxBytes" "rc_currentBytes c = 0"
    using assms(2) by (auto simp: NewResponseCache_def split: if_splits sum.splits)
  then have "cache_inv ok its c" using assms(3,4) by (simp add: cache_inv_def drift_def)
  from cache_inv_run [OF assms(1) this assms(5)] show ?thesis
    using c by (auto simp: cache_inv_def drift_def ByteSize_def)
qed

theorem cache_within_budget_witness:
  "\<exists>c'. cache_run list_lru (demo_cache 2 10 [] 0)
      [OpStore ''a'' (Some (demo_entry 4)), OpStore ''b'' (Some (demo_entry 7)), OpLookup ''a'' 5] = Some c'
    \<and> bytes_of (snd (rc_store c')) \<le> 10"
  using cache_within_budget [OF list_lru_laws [of 2], of 2 10 "demo_cache 2 10 [] 0"
      "[OpStore ''a'' (Some (demo_entry 4)), OpStore ''b'' (Some (demo_entry 7)), OpLookup ''a'' 5]"]
  by (auto simp: NewResponseCache_def list_lru_def demo_cache_def list_lru_ok_def demo_entry_def)

text \<open>
  \<^verbatim>\<open>Store\<close> with exact counting and a free slot: the count stays exact; an entry that fits
  the budget can be looked up afterwards, and an entry larger than the whole budget empties the
  cache.
\<close>

theorem cache_Store_exact:
  assumes "lru_laws ops cap ok its" and "ok (rc_store c)" and "sized (its (rc_store c))"
    and "0 \<le> en_Size e" and "0 < rc_maxBytes c" and "rc_currentBytes c = bytes_of (its (rc_store c))"
    and "map_of (its (rc_store c)) key \<noteq> None \<or> length (its (rc_store c)) < cap"
  shows "\<exists>c'. cache_Store ops c key (Some e) = Some c' \<and>
    rc_currentBytes c' = bytes_of (its (rc_store c')) \<and>
    (if en_Size e \<le> rc_maxBytes c then map_of (its (rc_store c')) key = Some e
     else its (rc_store c') = [])"
proof -
  have "drift its c = 0" "pushed_size cap (its (rc_store c)) key = 0"
    using assms(6,7) by (auto simp: drift_def pushed_size_def)
  with assms(5) show ?thesis
    by (cases rule: Store_spec [OF assms(1-4), of key]) (auto simp: drift_def)
qed

theorem cache_Store_exact_witness:
  "\<exists>c'. cache_Store list_lru (demo_cache 2 10 [(''a'', demo_entry 4)] 4) ''b'' (Some (demo_entry 11)) = Some c'
    \<and> snd (rc_store c') = []"
  using cache_Store_exact [OF list_lru_laws [of 2], of "demo_cache 2 10 [(''a'', demo_entry 4)] 4"
      "demo_entry 11" "''b''"]
  by (auto simp: demo_cache_def list_lru_ok_def demo_entry_def)

text \<open>
  A full container miscounts. When \<^verbatim>\<open>Store\<close> brings a new key into a container at capacity,
  the item pushed out is never deducted: the count drifts above the bytes held by exactly its
  size.
\<close>

theorem cache_capacity_drift:
  assumes "lru_laws ops cap ok its" and "ok (rc_store c)" and "sized (its (rc_store c))"
    and "0 \<le> en_Size e" and "its (rc_store c) = (k, v) # xs" and "length ((k, v) # xs) = cap"
    and "key \<notin> fst ` set ((k, v) # xs)"
  shows "\<exists>c'. cache_Store ops c key (Some e) = Some c' \<and>
    ByteSize c' - bytes_of (its (rc_store c')) = (ByteSize c - bytes_of (its (rc_store c))) + en_Size v"
proof -
  have "map_of (its (rc_store c)) key = None" using assms(5,7) by (simp add: map_of_eq_None_iff)
  then have "pushed_size cap (its (rc_store c)) key = en_Size v"
    using assms(5,6) by (simp add: pushed_size_def)
  then show ?thesis
    by (cases rule: Store_spec [OF assms(1-4), of key]) (auto simp: drift_def ByteSize_def)
qed

theorem cache_capacity_drift_witness:
  "\<exists>c'. cache_Store list_lru (demo_cache 1 10 [(''a'', demo_entry 4)] 4) ''b'' (Some (demo_entry 3)) = Some c'
    \<and> ByteSize c' - bytes_of (snd (rc_store c')) = 4"
  using cache_capacity_drift [OF list_lru_laws [of 1], of "demo_cache 1 10 [(''a'', demo_entry 4)] 4"
      "demo_entry 3" "''a''" "demo_entry 4" "[]" "''b''"]
  by (auto simp: demo_cache_def list_lru_ok_def demo_entry_def ByteSize_def)

text \<open>
  Once the drift has eaten the budget the cache is dead: every further sequence of stores of
  non-empty responses leaves it empty, and this does not heal.
\<close>

theorem cache_drift_kills:
  assumes "lru_laws ops cap ok its" and "ok (rc_store c)" and "sized (its (rc_store c))"
    and "0 < rc_maxBytes c" and "rc_maxBytes c \<le> ByteSize c - bytes_of (its (rc_store c))"
    and "list_all (\<lambda>(k, e). 0 < en_Size e) stores" and "stores \<noteq> []"
  shows "\<exists>c'. cache_run ops c (map (\<lambda>(k, e). OpStore k (Some e)) stores) = Some c' \<and>
    its (rc_store c') = [] \<and> rc_maxBytes c' \<le> ByteSize c'"
  using assms(2-7)
proof (induction stores arbitrary: c)
  case (Cons x stores)
  obtain k e where x: "x = (k, e)" by (cases x)
  have e: "0 < en_Size e" using Cons.prems(5) x by simp
  obtain c1 where c1: "cache_Store ops c k (Some e) = Some c1" "ok (rc_store c1)"
    "rc_maxBytes c1 = rc_maxBytes c" "sized (its (rc_store c1))"
    "drift its c1 = drift its c + pushed_size cap (its (rc_store c)) k"
    "if rc_maxBytes c \<le> 0 \<or> drift its c1 + en_Size e \<le> rc_maxBytes c
     then map_of (its (rc_store c1)) k = Some e \<and>
          (0 < rc_maxBytes c \<longrightarrow> rc_currentBytes c1 \<le> rc_maxBytes c)
     else its (rc_store c1) = []"
    using Store_spec [OF assms(1) Cons.prems(1,2), of e k] e by force
  have d: "rc_maxBytes c1 \<le> drift its c1"
    using c1(3,5) Cons.prems(4) pushed_size_nonneg [OF Cons.prems(2), of cap k]
    by (simp add: drift_def ByteSize_def)
  then have empty: "its (rc_store c1) = []"
    using c1(3,6) e Cons.prems(3) by (auto split: if_splits)
  show ?case
  proof (cases "stores = []")
    case True
    with c1(1) x d empty show ?thesis by (simp add: drift_def ByteSize_def)
  next
    case False
    with Cons.IH [of c1] c1 d Cons.prems(3,5) empty x show ?thesis by (simp add: drift_def ByteSize_def)
  qed
qed simp

theorem cache_drift_kills_witness:
  "\<exists>c'. cache_run list_lru (demo_cache 1 10 [(''a'', demo_entry 4)] 16)
      [OpStore ''b'' (Some (demo_entry 1)), OpStore ''c'' (Some (demo_entry 2))] = Some c'
    \<and> snd (rc_store c') = []"
  using cache_drift_kills [OF list_lru_laws [of 1], of "demo_cache 1 10 [(''a'', demo_entry 4)] 16"
      "[(''b'', demo_entry 1), (''c'', demo_entry 2)]"]
  by (auto simp: demo_cache_def list_lru_ok_def demo_entry_def ByteSize_def)

text \<open>
  \<^verbatim>\<open>Lookup\<close> answers with a copy of the stored entry exactly while the entry has no expiry or
  has not passed it; an expired entry is removed and its bytes are given back, and no other key
  is affected.
\<close>

theorem cache_Lookup_fresh:
  assumes "lru_laws ops cap ok its" and "ok (rc_store c)"
  shows "snd (cache_Lookup ops c key now) =
      (case map_of (its (rc_store c)) key of None \<Rightarrow> None
       | Some e \<Rightarrow> if expired e now then None
                  else Some (e\<lparr>en_Header := Some (cloneHeader (en_Header e))\<rparr>))
    \<and> ByteSize (fst (cache_Lookup ops c key now)) - bytes_of (its (rc_store (fst (cache_Lookup ops c key now))))
        = ByteSize c - bytes_of (its (rc_store c))
    \<and> (\<forall>k. map_of (its (rc_store (fst (cache_Lookup ops c key now)))) k =
          (case map_of (its (rc_store c)) k of None \<Rightarrow> None
           | Some e \<Rightarrow> if k = key \<and> expired e now then None else Some e))"
proof -
  note L = Lookup_spec [OF assms, of key now]
  have "Clone (Some e) = Some (e\<lparr>en_Header := Some (cloneHeader (en_Header e))\<rparr>)" for e
    by (cases e) (simp add: Clone_def)
  with L(5) have "snd (cache_Lookup ops c key now) =
      (case map_of (its (rc_store c)) key of None \<Rightarrow> None
       | Some e \<Rightarrow> if expired e now then None
                  else Some (e\<lparr>en_Header := Some (cloneHeader (en_Header e))\<rparr>))"
    by (simp split: option.split)
  moreover have "\<forall>k. map_of (its (rc_store (fst (cache_Lookup ops c key now)))) k =
      (case map_of (its (rc_store c)) k of None \<Rightarrow> None
       | Some e \<Rightarrow> if k = key \<and> expired e now then None else Some e)"
    unfolding L(6) by (auto split: option.split)
  ultimately show ?thesis using L(2) by (simp add: drift_def ByteSize_def)
qed

theorem cache_Lookup_fresh_witness:
  "snd (cache_Lookup list_lru (demo_cache 1 10 [(''a'', demo_entry 4)] 4) ''a'' 101) = None"
  using cache_Lookup_fresh [OF list_lru_laws [of 1], of "demo_cache 1 10 [(''a'', demo_entry 4)] 4" "''a''" 101]
  by (simp add: demo_cache_def list_lru_ok_def demo_entry_def expired_def IsZero_def zero_time_def)

end
