(* ===== verification/Proxy_Helpers.thy ===== *)
theory Proxy_Helpers
  imports Selector Response_Cache
begin

text \<open>
  \<^verbatim>\<open>pkg/proxy/helpers.go\<close>: what the edge proxy reads from a request and how it rewrites it. A URL
  is given in parsed form, its query as the map that \<^verbatim>\<open>URL.Query()\<close> returns; header maps have
  canonical keys, as \<^verbatim>\<open>net/http\<close> builds them, and \<^verbatim>\<open>Get\<close>, \<^verbatim>\<open>Set\<close>, \<^verbatim>\<open>Add\<close> and \<^verbatim>\<open>Del\<close>
  canonicalise their argument. The decoding of the claims of a JWT (base64 and JSON) is an argument.
\<close>

section \<open>Headers\<close>

text \<open>\<^verbatim>\<open>CanonicalMIMEHeaderKey\<close> on a valid key: a capital at the start and after each hyphen.\<close>

definition upper_char :: "char \<Rightarrow> char" where
  "upper_char c = (let n = of_char c :: nat in if 97 \<le> n \<and> n \<le> 122 then char_of (n - 32) else c)"

fun canonical_key :: "bool \<Rightarrow> string \<Rightarrow> string" where
  "canonical_key up [] = []"
| "canonical_key up (c # s) =
     (if up then upper_char c else lower_char c) # canonical_key (c = CHR ''-'') s"

abbreviation canon :: "string \<Rightarrow> string" where
  "canon k \<equiv> canonical_key True k"

definition header_Get :: "http_header \<Rightarrow> string \<Rightarrow> string" where
  "header_Get h key = (case map_of h (canon key) of None \<Rightarrow> [] | Some [] \<Rightarrow> [] | Some (v # _) \<Rightarrow> v)"

definition header_Set :: "http_header \<Rightarrow> string \<Rightarrow> string \<Rightarrow> http_header" where
  "header_Set h key value = go_set h (canon key) [value]"

definition header_Add :: "http_header \<Rightarrow> string \<Rightarrow> string \<Rightarrow> http_header" where
  "header_Add h key value = go_set h (canon key) (go_get [] h (canon key) @ [value])"

definition header_Del :: "http_header \<Rightarrow> string \<Rightarrow> http_header" where
  "header_Del h key = go_delete h (canon key)"

section \<open>Requests\<close>

record url =
  u_Scheme :: string
  u_Host :: string
  u_Path :: string
  u_Query :: "(string, string list) gomap"

record http_request =
  hr_Method :: string
  hr_Host :: string
  hr_URL :: url
  hr_Header :: http_header
  hr_RemoteAddr :: string
  hr_TLS :: bool
  hr_Body :: "http_body option"

definition stripPort :: "string \<Rightarrow> string" where
  "stripPort host =
     (if host = [] then []
      else
        let plain = (case SplitHostPort host of Some (h, _) \<Rightarrow> h | None \<Rightarrow> host)
        in if HasPrefix host ''[''
           then (case LastIndex host CHR '':'' of Some idx \<Rightarrow> Trim (take idx host) ''[]'' | None \<Rightarrow> plain)
           else plain)"

definition extractChain :: "http_request \<Rightarrow> string + ChainID \<times> string" where
  "extractChain r =
     (let host = stripPort (hr_Host r);
          host = (if host = [] then stripPort (u_Host (hr_URL r)) else host);
          host = TrimSuffix host ''.'';
          parts = Split host CHR ''.''
      in if length parts < 2 then
           (let chain = header_Get (hr_Header r) ''X-Mesh-Chain''
            in if chain = [] then Inl ''no chain in host'' else Inr (chain, []))
         else Inr (parts ! 1, ToLower (parts ! 0)))"

definition clientIPFromRequest :: "http_request \<Rightarrow> string" where
  "clientIPFromRequest r =
     (let xff = header_Get (hr_Header r) ''X-Forwarded-For'';
          direct = (case SplitHostPort (hr_RemoteAddr r) of None \<Rightarrow> hr_RemoteAddr r | Some (h, _) \<Rightarrow> h)
      in if xff \<noteq> [] then
           (let ip = TrimSpace (hd (Split xff CHR '','')) in if ip \<noteq> [] then ip else direct)
         else direct)"

definition isWebsocketRequest :: "http_request \<Rightarrow> bool" where
  "isWebsocketRequest r =
     (let connection = ToLower (header_Get (hr_Header r) ''Connection'');
          upgrade = ToLower (header_Get (hr_Header r) ''Upgrade'')
      in Contains connection ''upgrade'' \<and> upgrade = ''websocket'')"

definition parseHeight :: "(string, string list) gomap \<Rightarrow> int option" where
  "parseHeight values =
     (let raw = (case map_of values ''height'' of None \<Rightarrow> [] | Some [] \<Rightarrow> [] | Some (v # _) \<Rightarrow> v)
      in if raw = [] then None
         else case ParseInt raw of
           Inl _ \<Rightarrow> None
         | Inr height \<Rightarrow> if height \<le> 0 then None else Some height)"

text \<open>\<open>claims\<close> decodes the middle part of a token and returns its \<^verbatim>\<open>sub\<close>; \<open>None\<close> is an error.\<close>

definition extractJWTSubject :: "(string \<Rightarrow> string option) \<Rightarrow> string \<Rightarrow> string" where
  "extractJWTSubject claims header =
     (if header = [] \<or> \<not> HasPrefix header ''Bearer '' then []
      else let token = TrimSpace (drop (length ''Bearer '') header);
               parts = Split token CHR ''.''
           in if length parts \<noteq> 3 then []
              else case claims (parts ! 1) of None \<Rightarrow> [] | Some sub \<Rightarrow> sub)"

definition buildRequestContext ::
    "(string \<Rightarrow> string option) \<Rightarrow> http_request \<Rightarrow> ChainID \<Rightarrow> bool \<Rightarrow> RequestContext" where
  "buildRequestContext claims r chain needWS =
     (let queryCopy = u_Query (hr_URL r);
          ip = clientIPFromRequest r
      in \<lparr>rq_ChainID = chain, rq_Method = hr_Method r, rq_Path = u_Path (hr_URL r),
          rq_Query = queryCopy, rq_NeedWS = needWS, rq_Height = parseHeight queryCopy,
          rq_ClientIP = (if ip \<noteq> [] then ParseIP ip else None),
          rq_APIKey = header_Get (hr_Header r) ''X-Mesh-Key'',
          rq_JWTSub = extractJWTSubject claims (header_Get (hr_Header r) ''Authorization'')\<rparr>)"

text \<open>The body of a request: the data read, and the request with the body restored.\<close>

definition readRequestBody :: "http_request \<Rightarrow> string + (bytes \<times> http_request)" where
  "readRequestBody r =
     (case hr_Body r of None \<Rightarrow> Inr ([], r)
      | Some b \<Rightarrow>
          (case bd_read b of
             Inl err \<Rightarrow> Inl err
           | Inr data \<Rightarrow> Inr (data, r\<lparr>hr_Body := Some \<lparr>bd_read = Inr data, bd_close = None\<rparr>\<rparr>)))"

section \<open>Outbound requests\<close>

record outbound =
  ob_Method :: string
  ob_URL :: url
  ob_Host :: string
  ob_Header :: http_header
  ob_Body :: bytes

definition hopHeaders :: "string list" where
  "hopHeaders = [''Connection'', ''Proxy-Connection'', ''Keep-Alive'', ''Proxy-Authenticate'',
     ''Proxy-Authorization'', ''Te'', ''Trailer'', ''Transfer-Encoding'', ''Upgrade'']"

definition sanitizeHopHeaders :: "http_header \<Rightarrow> http_header" where
  "sanitizeHopHeaders header = foldl header_Del header hopHeaders"

definition proxy_cloneHeader :: "http_header \<Rightarrow> http_header" where
  "proxy_cloneHeader src = go_copy src"

definition requestProto :: "http_request \<Rightarrow> string" where
  "requestProto r =
     (if hr_TLS r then ''https''
      else let proto = header_Get (hr_Header r) ''X-Forwarded-Proto''
           in if proto \<noteq> [] then proto else ''http'')"

definition appendForwardedFor :: "string \<Rightarrow> string \<Rightarrow> string" where
  "appendForwardedFor existing ip =
     (if ip = [] then existing else if existing = [] then ip else existing @ '', '' @ ip)"

text \<open>\<open>valid\<close> stands for the checks of \<^verbatim>\<open>http.NewRequestWithContext\<close> on the method and the URL.\<close>

definition buildOutboundRequest ::
    "(string \<Rightarrow> url \<Rightarrow> string option) \<Rightarrow> http_request \<Rightarrow> bytes \<Rightarrow> string \<Rightarrow> string \<Rightarrow> string + outbound" where
  "buildOutboundRequest valid original body targetHost scheme =
     (let target = (hr_URL original)\<lparr>u_Host := targetHost, u_Scheme := scheme\<rparr>
      in case valid (hr_Method original) target of
           Some err \<Rightarrow> Inl err
         | None \<Rightarrow>
             let h = sanitizeHopHeaders (proxy_cloneHeader (hr_Header original));
                 h = header_Set h ''X-Forwarded-Host'' (stripPort (hr_Host original));
                 h = header_Set h ''X-Forwarded-Proto'' (requestProto original);
                 forwarded = appendForwardedFor (header_Get (hr_Header original) ''X-Forwarded-For'')
                               (clientIPFromRequest original);
                 h = (if forwarded \<noteq> [] then header_Set h ''X-Forwarded-For'' forwarded else h);
                 ip = clientIPFromRequest original;
                 h = (if ip \<noteq> [] then header_Set h ''X-Real-IP'' ip else h)
             in Inr \<lparr>ob_Method = hr_Method original, ob_URL = target, ob_Host = targetHost,
                     ob_Header = h, ob_Body = body\<rparr>)"

section \<open>Cache keys\<close>

definition cacheKey :: "http_request \<Rightarrow> string \<Rightarrow> string" where
  "cacheKey r sfx =
     (let query = u_Query (hr_URL r);
          keys = sort (map fst query);
          part = (\<lambda>key value. ''|'' @ key @ ''='' @ value);
          parts = concat (map (\<lambda>key. concat (map (part key) (sort (go_get [] query key)))) keys)
      in hr_Method r @ ''|'' @ stripPort (hr_Host r) @ ''|'' @ u_Path (hr_URL r) @ parts @
         (if sfx \<noteq> [] then ''|'' @ sfx else []))"

definition negativeCacheKey :: "http_request \<Rightarrow> string" where
  "negativeCacheKey r = cacheKey r ''404''"

definition shouldNegativeCache :: "http_request \<Rightarrow> bool" where
  "shouldNegativeCache r =
     (if hr_Method r \<noteq> ''GET'' then False
      else let path = ToLower (u_Path (hr_URL r))
           in Contains path ''/txs/'' \<or> Contains path ''/tx/'' \<or> Contains path ''tx_search'')"

section \<open>Facts about headers and keys\<close>

lemma header_Del_map [simp]: "map_of (header_Del h k) = (map_of h)(canon k := None)"
  by (simp add: header_Del_def)

lemma header_Set_map [simp]: "map_of (header_Set h k v) = (map_of h)(canon k \<mapsto> [v])"
  by (simp add: header_Set_def)

lemma foldl_Del_map:
  "map_of (foldl header_Del h ks) k = (if k \<in> canon ` set ks then None else map_of h k)"
  by (induction ks arbitrary: h) auto

lemma hopHeaders_canonical: "map canon hopHeaders = hopHeaders"
  unfolding hopHeaders_def by code_simp

lemma sanitize_map:
  "map_of (sanitizeHopHeaders h) k = (if k \<in> set hopHeaders then None else map_of h k)"
proof -
  have "canon ` set hopHeaders = set hopHeaders"
    using arg_cong [OF hopHeaders_canonical, of set] by simp
  then show ?thesis by (simp add: sanitizeHopHeaders_def foldl_Del_map)
qed

lemma cacheKey_header [simp]: "cacheKey (r\<lparr>hr_Header := h\<rparr>) s = cacheKey r s"
  by (simp add: cacheKey_def)

lemma cacheKey_suffix: "sfx \<noteq> [] \<Longrightarrow> \<exists>k. cacheKey r sfx = k @ ''|'' @ sfx"
  by (simp add: cacheKey_def Let_def)

text \<open>Every header of an outbound request.\<close>

lemma outbound_header:
  assumes "go_wf (hr_Header r)" and "buildOutboundRequest valid r body host scheme = Inr out"
  shows "map_of (ob_Header out) k =
    (if k = ''X-Real-Ip'' \<and> clientIPFromRequest r \<noteq> [] then Some [clientIPFromRequest r]
     else if k = ''X-Forwarded-For'' \<and>
       appendForwardedFor (header_Get (hr_Header r) ''X-Forwarded-For'') (clientIPFromRequest r) \<noteq> []
     then Some [appendForwardedFor (header_Get (hr_Header r) ''X-Forwarded-For'') (clientIPFromRequest r)]
     else if k = ''X-Forwarded-Proto'' then Some [requestProto r]
     else if k = ''X-Forwarded-Host'' then Some [stripPort (hr_Host r)]
     else if k \<in> set hopHeaders then None else map_of (hr_Header r) k)"
proof -
  have canon: "canon ''X-Forwarded-Host'' = ''X-Forwarded-Host''"
    "canon ''X-Forwarded-Proto'' = ''X-Forwarded-Proto''" "canon ''X-Forwarded-For'' = ''X-Forwarded-For''"
    "canon ''X-Real-IP'' = ''X-Real-Ip''" by code_simp+
  have copy: "proxy_cloneHeader (hr_Header r) = hr_Header r"
    using assms(1) by (simp add: proxy_cloneHeader_def)
  let ?f = "appendForwardedFor (header_Get (hr_Header r) ''X-Forwarded-For'') (clientIPFromRequest r)"
    and ?ip = "clientIPFromRequest r"
  have "ob_Header out =
    (let h = header_Set (header_Set (sanitizeHopHeaders (hr_Header r)) ''X-Forwarded-Host'' (stripPort (hr_Host r)))
               ''X-Forwarded-Proto'' (requestProto r);
         h = (if ?f \<noteq> [] then header_Set h ''X-Forwarded-For'' ?f else h)
     in if ?ip \<noteq> [] then header_Set h ''X-Real-IP'' ?ip else h)"
    using assms(2) unfolding buildOutboundRequest_def Let_def copy by (auto split: option.splits)
  then show ?thesis
    by (cases "?ip = []"; cases "?f = []")
      (simp_all add: Let_def canon sanitize_map del: canonical_key.simps)
qed

section \<open>Properties\<close>


definition demo_req :: "string \<Rightarrow> http_header \<Rightarrow> http_request" where
  "demo_req host h = \<lparr>hr_Method = ''GET'', hr_Host = host,
     hr_URL = \<lparr>u_Scheme = [], u_Host = [], u_Path = ''/block'', u_Query = [(''height'', [''5''])]\<rparr>,
     hr_Header = h, hr_RemoteAddr = ''10.0.0.1:4000'', hr_TLS = False, hr_Body = None\<rparr>"


text \<open>
  The negative cache is write-only: the key under which a 404 is stored differs from the key of
  every lookup the proxy makes, so no stored 404 is ever served.
\<close>

theorem negative_cache_never_read: "negativeCacheKey r \<noteq> cacheKey r' ''height''"
proof
  assume eq: "negativeCacheKey r = cacheKey r' ''height''"
  obtain k k' where "cacheKey r ''404'' = k @ ''|'' @ ''404''" "cacheKey r' ''height'' = k' @ ''|'' @ ''height''"
    using cacheKey_suffix [of "''404''" r] cacheKey_suffix [of "''height''" r'] by auto
  with eq have "last (k @ ''|404'') = last (k' @ ''|height'')" by (simp add: negativeCacheKey_def)
  then show False by simp
qed

text \<open>
  The cache key does not identify a request. It ignores the header that carries the chain of
  requests to a host without labels, so two such requests for different chains share a key; and
  its separator may occur in values, so requests with different queries share one too.
\<close>

theorem cacheKey_collides:
  "extractChain (demo_req ''edge'' [(''X-Mesh-Chain'', [''c1''])]) = Inr (''c1'', [])
   \<and> extractChain (demo_req ''edge'' [(''X-Mesh-Chain'', [''c2''])]) = Inr (''c2'', [])
   \<and> cacheKey (demo_req ''edge'' [(''X-Mesh-Chain'', [''c1''])]) ''height'' =
     cacheKey (demo_req ''edge'' [(''X-Mesh-Chain'', [''c2''])]) ''height''
   \<and> (\<forall>r s. cacheKey (r\<lparr>hr_URL := (hr_URL r)\<lparr>u_Query := [(''a'', [''1|b=2''])]\<rparr>\<rparr>) s =
            cacheKey (r\<lparr>hr_URL := (hr_URL r)\<lparr>u_Query := [(''a'', [''1'']), (''b'', [''2''])]\<rparr>\<rparr>) s)"
proof (intro conjI allI)
  have "stripPort ''edge'' = ''edge''" "TrimSuffix ''edge'' ''.'' = ''edge''"
    "canon ''X-Mesh-Chain'' = ''X-Mesh-Chain''" by code_simp+
  then have chain: "extractChain (demo_req ''edge'' [(''X-Mesh-Chain'', [c])]) = Inr (c, [])" if "c \<noteq> []" for c
    using that by (simp add: extractChain_def demo_req_def header_Get_def del: canonical_key.simps)
  show "extractChain (demo_req ''edge'' [(''X-Mesh-Chain'', [''c1''])]) = Inr (''c1'', [])"
    "extractChain (demo_req ''edge'' [(''X-Mesh-Chain'', [''c2''])]) = Inr (''c2'', [])"
    by (rule chain; simp)+
  show "cacheKey (demo_req ''edge'' [(''X-Mesh-Chain'', [''c1''])]) ''height'' =
     cacheKey (demo_req ''edge'' [(''X-Mesh-Chain'', [''c2''])]) ''height''"
    by (simp add: cacheKey_def demo_req_def)
  fix r s
  have "sort [''a'', ''b''] = [''a'', ''b'']" by code_simp
  then show "cacheKey (r\<lparr>hr_URL := (hr_URL r)\<lparr>u_Query := [(''a'', [''1|b=2''])]\<rparr>\<rparr>) s =
      cacheKey (r\<lparr>hr_URL := (hr_URL r)\<lparr>u_Query := [(''a'', [''1'']), (''b'', [''2''])]\<rparr>\<rparr>) s"
    by (simp add: cacheKey_def Let_def go_get_def)
qed

end
