(* ===== verification/Edge_Proxy.thy ===== *)
theory Edge_Proxy
  imports Proxy_Helpers Rate_Limiter
begin

text \<open>
  \<^verbatim>\<open>pkg/proxy/proxy.go\<close>: the edge proxy from the request to the reply, with its retry loop, its
  response cache and its rate limiter. Arguments: the LRU container, the token bucket, the
  decoding of JWT claims, the request checks of \<^verbatim>\<open>net/http\<close>, and the transport, which answers an
  outbound request of a given attempt with an error or a response. The random draws of each
  attempt are arguments too. \<^verbatim>\<open>None\<close> as a result would mean that the cache's eviction loop does not
  end. The websocket relay itself is an argument that tells whether it failed for a candidate.
  Logging is left out. The ghost component of a result is the list of the backends contacted.
\<close>

section \<open>Configuration and state\<close>

record ('s, 'l) proxy_env =
  pe_lru :: "'s lru_ops"
  pe_rate :: "'l rate_ops"
  pe_claims :: "string \<Rightarrow> string option"
  pe_valid :: "string \<Rightarrow> url \<Rightarrow> string option"
  pe_transport :: "nat \<Rightarrow> outbound \<Rightarrow> string + http_response"
  pe_websocket :: "nat \<Rightarrow> Candidate \<Rightarrow> string option"
  pe_draws :: "nat \<Rightarrow> draw \<times> draw \<times> int"

record RateLimitConfig =
  PerIPRPS :: int
  Burst :: int
  Window :: duration

record proxy_Config =
  pc_Store :: "Store option"
  pc_Chains :: "ChainID list"
  pc_Selector :: sel_Config
  CacheEnabled :: bool
  CacheMaxBytes :: int
  CacheMaxItemBytes :: int
  CacheTTLHeighted :: duration
  CacheTTLInfinite :: bool
  NegativeCacheTTL :: duration
  RateLimit :: RateLimitConfig
  EdgeCountry :: string
  EdgeRegion :: string
  BackendScheme :: string

record ('s, 'l) Proxy =
  px_store :: Store
  px_selectorCfg :: sel_Config
  px_allowedChains :: "ChainID list"
  px_cacheEnabled :: bool
  px_cache :: "'s ResponseCache option"
  px_cacheMaxItem :: int
  px_cacheTTL :: duration
  px_cacheInfinite :: bool
  px_negativeCacheTTL :: duration
  px_rateLimiter :: "'l clientRateLimiter option"
  px_backendScheme :: string
  px_edgeCountry :: string
  px_edgeRegion :: string

definition NewProxy :: "'s lru_ops \<Rightarrow> proxy_Config \<Rightarrow> string + ('s, 'l) Proxy" where
  "NewProxy lru cfg =
     (case pc_Store cfg of
        None \<Rightarrow> Inl ''proxy: registry store required''
      | Some store \<Rightarrow>
          let limiter = (if PerIPRPS (RateLimit cfg) > 0
                then (let window = (if Window (RateLimit cfg) \<le> 0 then 600 * second else Window (RateLimit cfg));
                          burst = (if Burst (RateLimit cfg) \<le> 0 then PerIPRPS (RateLimit cfg) * 2
                                   else Burst (RateLimit cfg))
                      in Some (newClientRateLimiter (PerIPRPS (RateLimit cfg)) burst window))
                else None);
              capacity = (if CacheMaxBytes cfg > 0 \<and> CacheMaxItemBytes cfg > 0
                then (let est = CacheMaxBytes cfg div CacheMaxItemBytes cfg in if est > 0 then est else 1024)
                else 1024);
              cache = (if CacheEnabled cfg
                       then map_sum id Some (NewResponseCache lru capacity (CacheMaxBytes cfg))
                       else Inr None)
          in case cache of
               Inl err \<Rightarrow> Inl err
             | Inr respCache \<Rightarrow>
                 Inr \<lparr>px_store = store, px_selectorCfg = pc_Selector cfg,
                      px_allowedChains = pc_Chains cfg, px_cacheEnabled = CacheEnabled cfg,
                      px_cache = respCache, px_cacheMaxItem = CacheMaxItemBytes cfg,
                      px_cacheTTL = CacheTTLHeighted cfg, px_cacheInfinite = CacheTTLInfinite cfg,
                      px_negativeCacheTTL = NegativeCacheTTL cfg, px_rateLimiter = limiter,
                      px_backendScheme = (if BackendScheme cfg = [] then ''https'' else BackendScheme cfg),
                      px_edgeCountry = EdgeCountry cfg, px_edgeRegion = EdgeRegion cfg\<rparr>)"

section \<open>Candidates\<close>

definition geoPenalty :: "('s, 'l) Proxy \<Rightarrow> BackendMeta \<Rightarrow> real" where
  "geoPenalty p meta =
     (if px_edgeCountry p = [] \<or> bm_Country meta = [] then 0
      else if ToLower (bm_Country meta) = ToLower (px_edgeCountry p)
      then (if ToLower (px_edgeRegion p) \<noteq> [] \<and> ToLower (bm_Region meta) = ToLower (px_edgeRegion p)
            then 0 else 15)
      else 30)"

fun candidate_loop ::
    "('s, 'l) Proxy \<Rightarrow> ChainID \<Rightarrow> (BackendID, BackendMetrics) gomap \<Rightarrow> Candidate list \<Rightarrow> int \<Rightarrow>
     (BackendID, BackendMeta Entry) gomap \<Rightarrow> Candidate list \<times> int" where
  "candidate_loop p chain metrics candidates bestHeight [] = (candidates, bestHeight)"
| "candidate_loop p chain metrics candidates bestHeight ((_, entry) # rest) =
     (if Tombstone entry then candidate_loop p chain metrics candidates bestHeight rest
      else let meta = Value entry
           in if bm_ChainID meta \<noteq> chain then candidate_loop p chain metrics candidates bestHeight rest
              else case map_of metrics (bm_ID meta) of
                     None \<Rightarrow> candidate_loop p chain metrics candidates bestHeight rest
                   | Some metric \<Rightarrow>
                       let best = (if mx_Height metric > bestHeight then mx_Height metric else bestHeight);
                           cand = \<lparr>ca_Meta = meta, ca_Metrics = metric, ca_GeoPenalty = geoPenalty p meta,
                                   ca_Score = 0, ca_Weight = 0\<rparr>
                       in candidate_loop p chain metrics (candidates @ [cand]) best rest)"

definition buildCandidates :: "('s, 'l) Proxy \<Rightarrow> ChainID \<Rightarrow> Candidate list \<times> Environment" where
  "buildCandidates p chain =
     (let snapshot = fst (BackendSnapshot (px_store p));
          metrics = LatestMetrics (px_store p);
          (candidates, bestHeight) = candidate_loop p chain metrics [] 0 snapshot
      in (candidates, \<lparr>BestHeight = bestHeight\<rparr>))"

definition pickCandidate ::
    "draw \<times> draw \<times> int \<Rightarrow> ('s, 'l) Proxy \<Rightarrow> RequestContext \<Rightarrow> Environment \<Rightarrow> Candidate list \<Rightarrow>
     BackendID list \<Rightarrow> sel_error + Candidate" where
  "pickCandidate draws p ctx env pool tried =
     (let filtered = filter (\<lambda>cand. bm_ID (ca_Meta cand) \<notin> set tried) pool
      in if filtered = [] then Inl ErrNoBackend
         else case draws of (d, d', nanos) \<Rightarrow> Pick d d' nanos ctx env filtered (px_selectorCfg p))"

section \<open>Replies\<close>

record reply =
  rp_Status :: int
  rp_Header :: http_header
  rp_Body :: bytes

definition http_Error :: "string \<Rightarrow> int \<Rightarrow> reply" where
  "http_Error msg code =
     \<lparr>rp_Status = code,
      rp_Header = [(''Content-Type'', [''text/plain; charset=utf-8'']),
                   (''X-Content-Type-Options'', [''nosniff''])],
      rp_Body = bytes_of_string (msg @ [CHR 0x0A])\<rparr>"

text \<open>The nested loop that adds every value of a header map to the reply's header.\<close>

definition add_headers :: "http_header \<Rightarrow> http_header \<Rightarrow> http_header" where
  "add_headers w header = foldl (\<lambda>w (key, values). foldl (\<lambda>w v. header_Add w key v) w values) w header"

definition writeCachedResponse :: "cache_entry \<Rightarrow> reply" where
  "writeCachedResponse entry =
     (let header = (case en_Header entry of None \<Rightarrow> [] | Some h \<Rightarrow> proxy_cloneHeader h);
          header = sanitizeHopHeaders header;
          w = add_headers [] header;
          w = header_Set w ''X-Mesh-Cache'' ''hit'';
          w = header_Set w ''Content-Length'' (dec (length (en_Body entry)))
      in \<lparr>rp_Status = en_Status entry, rp_Header = w, rp_Body = en_Body entry\<rparr>)"

definition shouldCacheRequest :: "('s, 'l) Proxy \<Rightarrow> http_request \<Rightarrow> RequestContext \<Rightarrow> string \<times> bool" where
  "shouldCacheRequest p r ctx =
     (if \<not> px_cacheEnabled p then ([], False)
      else if hr_Method r \<noteq> ''GET'' then ([], False)
      else if rq_Height ctx = None then ([], False)
      else (cacheKey r ''height'', True))"

text \<open>
  A transport always sets a body, by the contract of \<^verbatim>\<open>http.RoundTripper\<close>; one that does not is read as empty here.
\<close>

definition forwardRequest ::
    "('s, 'l) proxy_env \<Rightarrow> nat \<Rightarrow> ('s, 'l) Proxy \<Rightarrow> http_request \<Rightarrow> bytes \<Rightarrow> Candidate \<Rightarrow>
     string + (http_response \<times> bytes)" where
  "forwardRequest pe attempt p original body candidate =
     (case buildOutboundRequest (pe_valid pe) original body (bm_Host (ca_Meta candidate)) (px_backendScheme p) of
        Inl err \<Rightarrow> Inl err
      | Inr out \<Rightarrow>
          (case pe_transport pe attempt out of
             Inl err \<Rightarrow> Inl err
           | Inr resp \<Rightarrow>
               (case rs_Body resp of
                  None \<Rightarrow> Inr (resp\<lparr>rs_Body := Some \<lparr>bd_read = Inr [], bd_close = None\<rparr>\<rparr>, [])
                | Some b \<Rightarrow>
                    (case bd_read b of
                       Inl err \<Rightarrow> Inl err
                     | Inr payload \<Rightarrow>
                         Inr (resp\<lparr>rs_Body := Some \<lparr>bd_read = Inr payload, bd_close = None\<rparr>\<rparr>, payload)))))"

text \<open>Storing into the cache of a proxy; a disabled cache is never stored into.\<close>

definition store_entry ::
    "'s lru_ops \<Rightarrow> ('s, 'l) Proxy \<Rightarrow> string \<Rightarrow> cache_entry option \<Rightarrow> ('s, 'l) Proxy option" where
  "store_entry lru p key entry =
     (case px_cache p of None \<Rightarrow> Some p
      | Some c \<Rightarrow> map_option (\<lambda>c'. p\<lparr>px_cache := Some c'\<rparr>) (cache_Store lru c key entry))"

definition writeUpstreamResponse ::
    "'s lru_ops \<Rightarrow> time \<Rightarrow> ('s, 'l) Proxy \<Rightarrow> http_request \<Rightarrow> Candidate \<Rightarrow> http_response \<Rightarrow> bytes \<Rightarrow>
     bool \<Rightarrow> string \<Rightarrow> (('s, 'l) Proxy \<times> reply) option" where
  "writeUpstreamResponse lru now p req backend resp body cacheable key =
     (let header = (case rs_Header resp of None \<Rightarrow> [] | Some h \<Rightarrow> proxy_cloneHeader h);
          header = header_Del (sanitizeHopHeaders header) ''Set-Cookie'';
          w = add_headers [] header;
          w = header_Set w ''Content-Length'' (dec (length body));
          w = header_Set w ''X-Mesh-Backend'' (bm_ID (ca_Meta backend));
          w = (if cacheable \<and> px_cacheEnabled p then header_Set w ''X-Mesh-Cache'' ''miss'' else w);
          out = \<lparr>rp_Status = rs_StatusCode resp, rp_Header = w, rp_Body = body\<rparr>
      in if \<not> px_cacheEnabled p then Some (p, out)
         else if cacheable \<and> rs_StatusCode resp = 200 then
           (if px_cacheMaxItem p > 0 \<and> int (length body) > px_cacheMaxItem p then Some (p, out)
            else let tl = (if px_cacheInfinite p then 0 else px_cacheTTL p);
                     entry = map_option (\<lambda>e. e\<lparr>en_Header := Some header\<rparr>) (BuildEntry now (Some resp) body tl)
                 in map_option (\<lambda>p'. (p', out)) (store_entry lru p key entry))
         else if px_negativeCacheTTL p > 0 \<and> rs_StatusCode resp = 404 \<and> shouldNegativeCache req then
           (let entry = map_option (\<lambda>e. e\<lparr>en_Header := Some header\<rparr>)
                          (BuildEntry now (Some resp) body (px_negativeCacheTTL p))
            in map_option (\<lambda>p'. (p', out)) (store_entry lru p (negativeCacheKey req) entry))
         else Some (p, out))"

section \<open>Handlers\<close>

text \<open>The retry loop: attempts left, attempt number, backends tried (latest first).\<close>

fun forward_loop ::
    "('s, 'l) proxy_env \<Rightarrow> ('s, 'l) Proxy \<Rightarrow> http_request \<Rightarrow> bytes \<Rightarrow> RequestContext \<Rightarrow> Environment \<Rightarrow>
     Candidate list \<Rightarrow> nat \<Rightarrow> nat \<Rightarrow> BackendID list \<Rightarrow>
     BackendID list \<times> (Candidate \<times> http_response \<times> bytes) option" where
  "forward_loop pe p r body ctx env pool 0 attempt tried = (tried, None)"
| "forward_loop pe p r body ctx env pool (Suc left) attempt tried =
     (case pickCandidate (pe_draws pe attempt) p ctx env pool tried of
        Inl _ \<Rightarrow> (tried, None)
      | Inr candidate \<Rightarrow>
          (case forwardRequest pe attempt p r body candidate of
             Inl _ \<Rightarrow> forward_loop pe p r body ctx env pool left (attempt + 1) (bm_ID (ca_Meta candidate) # tried)
           | Inr (resp, payload) \<Rightarrow> (bm_ID (ca_Meta candidate) # tried, Some (candidate, resp, payload))))"

definition handleHTTP ::
    "('s, 'l) proxy_env \<Rightarrow> time \<Rightarrow> ('s, 'l) Proxy \<Rightarrow> http_request \<Rightarrow> ChainID \<Rightarrow> RequestContext \<Rightarrow>
     (('s, 'l) Proxy \<times> reply \<times> BackendID list) option" where
  "handleHTTP pe now p r chain reqCtx =
     (case buildCandidates p chain of (pool, env) \<Rightarrow>
        if pool = [] then Some (p, http_Error ''meshproxy: no healthy backends'' 503, [])
        else
          let (key, cacheable) = shouldCacheRequest p r reqCtx;
              (p1, hit) = (if cacheable \<and> px_cacheEnabled p
                           then (case px_cache p of
                                   None \<Rightarrow> (p, None)
                                 | Some c \<Rightarrow> (case cache_Lookup (pe_lru pe) c key now of
                                               (c', e) \<Rightarrow> (p\<lparr>px_cache := Some c'\<rparr>, e)))
                           else (p, None))
          in case hit of
               Some entry \<Rightarrow> Some (p1, writeCachedResponse entry, [])
             | None \<Rightarrow>
                 (case readRequestBody r of
                    Inl _ \<Rightarrow> Some (p1, http_Error ''meshproxy: invalid request body'' 400, [])
                  | Inr (bodyCopy, r1) \<Rightarrow>
                      (case forward_loop pe p1 r1 bodyCopy reqCtx env pool 2 0 [] of
                         (tried, None) \<Rightarrow> Some (p1, http_Error ''meshproxy: upstream unavailable'' 502, tried)
                       | (tried, Some (candidate, resp, payload)) \<Rightarrow>
                           map_option (\<lambda>(p2, out). (p2, out, tried))
                             (writeUpstreamResponse (pe_lru pe) now p1 r1 candidate resp payload cacheable key))))"

fun websocket_loop ::
    "('s, 'l) proxy_env \<Rightarrow> ('s, 'l) Proxy \<Rightarrow> RequestContext \<Rightarrow> Environment \<Rightarrow> Candidate list \<Rightarrow> nat \<Rightarrow> nat \<Rightarrow>
     BackendID list \<Rightarrow> BackendID list \<times> bool" where
  "websocket_loop pe p ctx env pool 0 attempt tried = (tried, False)"
| "websocket_loop pe p ctx env pool (Suc left) attempt tried =
     (case pickCandidate (pe_draws pe attempt) p ctx env pool tried of
        Inl _ \<Rightarrow> (tried, False)
      | Inr candidate \<Rightarrow>
          (case pe_websocket pe attempt candidate of
             Some _ \<Rightarrow> websocket_loop pe p ctx env pool left (attempt + 1) (bm_ID (ca_Meta candidate) # tried)
           | None \<Rightarrow> (bm_ID (ca_Meta candidate) # tried, True)))"

text \<open>A relayed websocket session has no reply of the proxy's own: \<open>None\<close>.\<close>

definition handleWebsocket ::
    "('s, 'l) proxy_env \<Rightarrow> ('s, 'l) Proxy \<Rightarrow> ChainID \<Rightarrow> RequestContext \<Rightarrow> reply option \<times> BackendID list" where
  "handleWebsocket pe p chain reqCtx =
     (case buildCandidates p chain of (pool, env) \<Rightarrow>
        if pool = [] then (Some (http_Error ''meshproxy: no healthy backends'' 503), [])
        else case websocket_loop pe p reqCtx env pool 2 0 [] of
          (tried, True) \<Rightarrow> (None, tried)
        | (tried, False) \<Rightarrow> (Some (http_Error ''meshproxy: websocket upstream unavailable'' 502), tried))"

definition ServeHTTP ::
    "('s, 'l) proxy_env \<Rightarrow> time \<Rightarrow> ('s, 'l) Proxy \<Rightarrow> http_request \<Rightarrow>
     (('s, 'l) Proxy \<times> reply option \<times> BackendID list) option" where
  "ServeHTTP pe now p r =
     (case extractChain r of
        Inl _ \<Rightarrow> Some (p, Some (http_Error ''meshproxy: unable to determine chain'' 400), [])
      | Inr (chain, service) \<Rightarrow>
          if px_allowedChains p \<noteq> [] \<and> chain \<notin> set (px_allowedChains p)
          then Some (p, Some (http_Error ''meshproxy: chain not permitted'' 403), [])
          else
            let clientIP = clientIPFromRequest r;
                (p1, allowed) = (case px_rateLimiter p of
                     None \<Rightarrow> (p, True)
                   | Some l \<Rightarrow> if clientIP = [] then (p, True)
                               else (case Allow (pe_rate pe) now l clientIP of
                                       (l', ok) \<Rightarrow> (p\<lparr>px_rateLimiter := Some l'\<rparr>, ok)))
            in if \<not> allowed then Some (p1, Some (http_Error ''meshproxy: rate limit exceeded'' 429), [])
               else
                 let needWS = isWebsocketRequest r \<or> EqualFold service ''ws'';
                     reqCtx = buildRequestContext (pe_claims pe) r chain needWS
                 in if needWS
                    then (case handleWebsocket pe p1 chain reqCtx of (out, tried) \<Rightarrow> Some (p1, out, tried))
                    else map_option (\<lambda>(p2, out, tried). (p2, Some out, tried))
                           (handleHTTP pe now p1 r chain reqCtx))"

section \<open>Where the candidates come from\<close>

text \<open>A backend the registry serves for a chain: a live record with a metrics sample.\<close>

definition served :: "Store \<Rightarrow> ChainID \<Rightarrow> BackendMeta \<Rightarrow> BackendMetrics \<Rightarrow> bool" where
  "served s chain meta metrics \<longleftrightarrow>
     (\<exists>k e. map_of (st_meta s) k = Some e \<and> \<not> Tombstone e \<and> Value e = meta) \<and>
     bm_ChainID meta = chain \<and> map_of (LatestMetrics s) (bm_ID meta) = Some metrics"

definition cand_of ::
    "('s, 'l) Proxy \<Rightarrow> ChainID \<Rightarrow> (BackendID, BackendMetrics) gomap \<Rightarrow> BackendMeta Entry \<Rightarrow> Candidate option" where
  "cand_of p chain metrics entry =
     (if Tombstone entry \<or> bm_ChainID (Value entry) \<noteq> chain then None
      else map_option (\<lambda>m. \<lparr>ca_Meta = Value entry, ca_Metrics = m, ca_GeoPenalty = geoPenalty p (Value entry),
                            ca_Score = 0, ca_Weight = 0\<rparr>) (map_of metrics (bm_ID (Value entry))))"

lemma candidate_loop_filter:
  "fst (candidate_loop p chain metrics cs best es) =
   cs @ List.map_filter (\<lambda>(k, e). cand_of p chain metrics e) es"
proof (induction es arbitrary: cs best)
  case (Cons x es)
  obtain k e where x: "x = (k, e)" by (cases x)
  show ?case
    by (cases "map_of metrics (bm_ID (Value e))")
      (simp_all add: x Cons.IH cand_of_def List.map_filter_simps Let_def)
qed (simp add: List.map_filter_simps)

lemma buildCandidates_entries:
  assumes "store_wf (px_store p)"
  shows "fst (buildCandidates p chain) =
    List.map_filter (\<lambda>(k, e). cand_of p chain (LatestMetrics (px_store p)) e) (st_meta (px_store p))"
proof -
  have "fst (BackendSnapshot (px_store p)) = st_meta (px_store p)"
    using assms by (simp add: BackendSnapshot_def lww_Snapshot_def store_wf_def)
  then show ?thesis by (simp add: buildCandidates_def case_prod_unfold Let_def candidate_loop_filter)
qed

text \<open>Every backend the registry serves is a candidate.\<close>

lemma buildCandidates_complete:
  assumes "store_wf (px_store p)" and "served (px_store p) chain meta metrics"
  shows "\<exists>c \<in> set (fst (buildCandidates p chain)). ca_Meta c = meta \<and> ca_Metrics c = metrics"
proof -
  obtain k e where e: "map_of (st_meta (px_store p)) k = Some e" "\<not> Tombstone e" "Value e = meta"
    "bm_ChainID meta = chain" "map_of (LatestMetrics (px_store p)) (bm_ID meta) = Some metrics"
    using assms(2) by (auto simp: served_def)
  then have "(k, e) \<in> set (st_meta (px_store p))" by (blast intro: map_of_SomeD)
  moreover obtain c where "cand_of p chain (LatestMetrics (px_store p)) e = Some c" "ca_Meta c = meta" "ca_Metrics c = metrics"
    using e by (simp add: cand_of_def)
  ultimately show ?thesis
    unfolding buildCandidates_entries [OF assms(1)] by (force simp: List.map_filter_def)
qed

lemma buildCandidates_served:
  assumes "store_wf (px_store p)" and "c \<in> set (fst (buildCandidates p chain))"
  shows "served (px_store p) chain (ca_Meta c) (ca_Metrics c)"
proof -
  let ?s = "px_store p"
  have wf: "go_wf (st_meta ?s)" using assms(1) by (simp add: store_wf_def)
  have "fst (buildCandidates p chain) =
      List.map_filter (\<lambda>(k, e). cand_of p chain (LatestMetrics ?s) e) (st_meta ?s)"
    by (rule buildCandidates_entries [OF assms(1)])
  with assms(2) obtain k e where "(k, e) \<in> set (st_meta ?s)" "cand_of p chain (LatestMetrics ?s) e = Some c"
    by (auto simp: List.map_filter_def)
  moreover from this have "map_of (st_meta ?s) k = Some e" using wf by (simp only: go_wf_mem_iff)
  ultimately show ?thesis
    unfolding served_def cand_of_def by (fastforce split: if_splits)
qed

lemma pickCandidate_Inr:
  assumes "pickCandidate draws p ctx env pool tried = Inr c"
  shows "bm_ID (ca_Meta c) \<notin> set tried \<and>
    (\<exists>c0 \<in> set pool. eligible ctx env (px_selectorCfg p) c0 \<and> ca_Meta c0 = ca_Meta c \<and> ca_Metrics c0 = ca_Metrics c)"
proof -
  obtain d d' nanos where draws: "draws = (d, d', nanos)" by (cases draws)
  let ?f = "filter (\<lambda>cand. bm_ID (ca_Meta cand) \<notin> set tried) pool"
  have "Pick d d' nanos ctx env ?f (px_selectorCfg p) = Inr c"
    using assms draws by (auto simp: pickCandidate_def Let_def split: if_splits)
  then show ?thesis by (rule Pick_Inr) auto
qed

text \<open>The contacted backends: fresh, at most one per attempt, each an eligible member of the pool.\<close>

definition good_tries ::
    "RequestContext \<Rightarrow> Environment \<Rightarrow> sel_Config \<Rightarrow> Candidate list \<Rightarrow> BackendID list \<Rightarrow> bool" where
  "good_tries ctx env cfg pool tried \<longleftrightarrow> distinct tried \<and>
     (\<forall>b \<in> set tried. \<exists>c \<in> set pool. bm_ID (ca_Meta c) = b \<and> eligible ctx env cfg c)"

lemma good_tries_Cons:
  assumes "good_tries ctx env (px_selectorCfg p) pool tried"
    and "pickCandidate draws p ctx env pool tried = Inr c"
  shows "good_tries ctx env (px_selectorCfg p) pool (bm_ID (ca_Meta c) # tried)"
  using pickCandidate_Inr [OF assms(2)] assms(1) unfolding good_tries_def
  by (metis (no_types, opaque_lifting) distinct.simps(2) set_ConsD)

lemma forward_loop_tries:
  "good_tries ctx env (px_selectorCfg p) pool tried \<Longrightarrow>
   good_tries ctx env (px_selectorCfg p) pool (fst (forward_loop pe p r body ctx env pool left attempt tried)) \<and>
   length (fst (forward_loop pe p r body ctx env pool left attempt tried)) \<le> length tried + left"
proof (induction left arbitrary: attempt tried)
  case (Suc left)
  show ?case
  proof (cases "pickCandidate (pe_draws pe attempt) p ctx env pool tried")
    case (Inl e)
    with Suc.prems show ?thesis by simp
  next
    case (Inr c)
    with good_tries_Cons [OF Suc.prems Inr] Suc.IH [of "bm_ID (ca_Meta c) # tried" "attempt + 1"]
    show ?thesis by (auto split: sum.splits prod.splits)
  qed
qed simp

lemma websocket_loop_tries:
  "good_tries ctx env (px_selectorCfg p) pool tried \<Longrightarrow>
   good_tries ctx env (px_selectorCfg p) pool (fst (websocket_loop pe p ctx env pool left attempt tried)) \<and>
   length (fst (websocket_loop pe p ctx env pool left attempt tried)) \<le> length tried + left"
proof (induction left arbitrary: attempt tried)
  case (Suc left)
  show ?case
  proof (cases "pickCandidate (pe_draws pe attempt) p ctx env pool tried")
    case (Inl e)
    with Suc.prems show ?thesis by simp
  next
    case (Inr c)
    with good_tries_Cons [OF Suc.prems Inr] Suc.IH [of "bm_ID (ca_Meta c) # tried" "attempt + 1"]
    show ?thesis by (auto split: option.splits)
  qed
qed simp

lemma good_tries_Nil [simp]: "good_tries ctx env cfg pool []"
  by (simp add: good_tries_def)

lemma forward_loop_two:
  "good_tries ctx env (px_selectorCfg p) pool (fst (forward_loop pe p r body ctx env pool 2 0 [])) \<and>
   length (fst (forward_loop pe p r body ctx env pool 2 0 [])) \<le> 2"
  using forward_loop_tries [of ctx env p pool "[]" pe r body 2 0]
  by (simp only: good_tries_Nil simp_thms list.size add_0)

lemma websocket_loop_two:
  "good_tries ctx env (px_selectorCfg p) pool (fst (websocket_loop pe p ctx env pool 2 0 [])) \<and>
   length (fst (websocket_loop pe p ctx env pool 2 0 [])) \<le> 2"
  using websocket_loop_tries [of ctx env p pool "[]" pe 2 0]
  by (simp only: good_tries_Nil simp_thms list.size add_0)

lemma handleHTTP_tries:
  assumes "handleHTTP pe now p r chain ctx = Some (p', out, tried)"
  shows "good_tries ctx (snd (buildCandidates p chain)) (px_selectorCfg p) (fst (buildCandidates p chain)) tried
    \<and> length tried \<le> 2"
proof -
  obtain pool env where be: "buildCandidates p chain = (pool, env)" by (cases "buildCandidates p chain")
  obtain key cacheable where sc: "shouldCacheRequest p r ctx = (key, cacheable)"
    by (cases "shouldCacheRequest p r ctx")
  define look where "look = (if cacheable \<and> px_cacheEnabled p
     then (case px_cache p of None \<Rightarrow> (p, None)
           | Some c \<Rightarrow> (case cache_Lookup (pe_lru pe) c key now of
                         (c', e) \<Rightarrow> (p\<lparr>px_cache := Some c'\<rparr>, e)))
     else (p, None))"
  have cfg: "px_selectorCfg (fst look) = px_selectorCfg p"
    by (simp add: look_def split: option.split prod.split)
  have "tried = [] \<or> (\<exists>body r1. tried = fst (forward_loop pe (fst look) r1 body ctx env pool 2 0 []))"
    using assms unfolding handleHTTP_def be sc prod.case Let_def look_def [symmetric]
    by (auto split: if_splits prod.splits option.splits sum.splits) (metis fst_conv)+
  then show ?thesis
  proof
    assume "\<exists>body r1. tried = fst (forward_loop pe (fst look) r1 body ctx env pool 2 0 [])"
    then obtain body r1 where t: "tried = fst (forward_loop pe (fst look) r1 body ctx env pool 2 0 [])"
      by blast
    from forward_loop_two [of ctx env "fst look" pool pe r1 body] show ?thesis
      unfolding t be fst_conv snd_conv cfg .
  qed simp
qed

lemma handleWebsocket_tries:
  "good_tries ctx (snd (buildCandidates p chain)) (px_selectorCfg p) (fst (buildCandidates p chain))
     (snd (handleWebsocket pe p chain ctx)) \<and> length (snd (handleWebsocket pe p chain ctx)) \<le> 2"
proof -
  obtain pool env where be: "buildCandidates p chain = (pool, env)" by (cases "buildCandidates p chain")
  have "snd (handleWebsocket pe p chain ctx) = [] \<or>
      snd (handleWebsocket pe p chain ctx) = fst (websocket_loop pe p ctx env pool 2 0 [])"
    unfolding handleWebsocket_def be by (auto split: prod.split bool.split)
  then show ?thesis unfolding be fst_conv snd_conv
    using websocket_loop_two [of ctx env p pool pe] by (elim disjE) (simp_all del: websocket_loop.simps)
qed

lemma handleWebsocket_None:
  assumes "fst (handleWebsocket pe p chain ctx) = None"
  shows "snd (handleWebsocket pe p chain ctx) \<noteq> []"
proof -
  obtain pool env where be: "buildCandidates p chain = (pool, env)" by (cases "buildCandidates p chain")
  have relayed: "tried' \<noteq> []" if "websocket_loop pe p ctx env pool left attempt tried = (tried', True)"
    for left attempt tried tried'
    using that by (induction left arbitrary: attempt tried) (auto split: sum.splits option.splits)
  from assms show ?thesis
    unfolding handleWebsocket_def be using relayed by (auto split: if_splits prod.splits bool.splits)
qed

text \<open>The candidates depend only on the registry and the place of the edge.\<close>

lemma candidate_loop_cong:
  assumes "px_edgeCountry q = px_edgeCountry p" and "px_edgeRegion q = px_edgeRegion p"
  shows "candidate_loop q chain metrics cs best es = candidate_loop p chain metrics cs best es"
proof (induction es arbitrary: cs best)
  case (Cons x es)
  obtain k e where x: "x = (k, e)" by (cases x)
  have "geoPenalty q meta = geoPenalty p meta" for meta using assms by (simp add: geoPenalty_def)
  with Cons.IH show ?case
    by (cases "map_of metrics (bm_ID (Value e))") (simp_all add: x Let_def)
qed simp

lemma buildCandidates_cong:
  "px_store q = px_store p \<Longrightarrow> px_edgeCountry q = px_edgeCountry p \<Longrightarrow> px_edgeRegion q = px_edgeRegion p \<Longrightarrow>
   buildCandidates q chain = buildCandidates p chain"
  by (simp add: buildCandidates_def candidate_loop_cong [of q p])

text \<open>\<^verbatim>\<open>ServeHTTP\<close> as a limiter in front of the two handlers.\<close>

definition rate_front ::
    "('s, 'l) proxy_env \<Rightarrow> time \<Rightarrow> ('s, 'l) Proxy \<Rightarrow> http_request \<Rightarrow> ('s, 'l) Proxy \<times> bool" where
  "rate_front pe now p r =
     (let ip = clientIPFromRequest r
      in case px_rateLimiter p of None \<Rightarrow> (p, True)
         | Some l \<Rightarrow> if ip = [] then (p, True)
                     else (case Allow (pe_rate pe) now l ip of (l', ok) \<Rightarrow> (p\<lparr>px_rateLimiter := Some l'\<rparr>, ok)))"

definition permitted :: "('s, 'l) Proxy \<Rightarrow> ChainID \<Rightarrow> bool" where
  "permitted p chain \<longleftrightarrow> px_allowedChains p = [] \<or> chain \<in> set (px_allowedChains p)"

abbreviation wants_ws :: "http_request \<Rightarrow> string \<Rightarrow> bool" where
  "wants_ws r service \<equiv> isWebsocketRequest r \<or> EqualFold service ''ws''"

lemma ServeHTTP_front:
  assumes "extractChain r = Inr (chain, service)" and "permitted p chain"
  shows "ServeHTTP pe now p r =
    (let (p1, ok) = rate_front pe now p r;
         ctx = buildRequestContext (pe_claims pe) r chain (wants_ws r service)
     in if \<not> ok then Some (p1, Some (http_Error ''meshproxy: rate limit exceeded'' 429), [])
        else if wants_ws r service
        then Some (p1, fst (handleWebsocket pe p1 chain ctx), snd (handleWebsocket pe p1 chain ctx))
        else map_option (\<lambda>(p2, out, tried). (p2, Some out, tried)) (handleHTTP pe now p1 r chain ctx))"
proof -
  have open_chain: "(px_allowedChains p \<noteq> [] \<and> chain \<notin> set (px_allowedChains p)) = False"
    using assms(2) by (auto simp: permitted_def)
  show ?thesis
    unfolding ServeHTTP_def assms(1) sum.case prod.case open_chain if_False
    by (simp add: rate_front_def Let_def case_prod_unfold)
qed

lemma rate_front_keeps:
  assumes "rate_front pe now p r = (p1, ok)"
  shows "\<exists>l. p1 = p\<lparr>px_rateLimiter := l\<rparr>"
proof -
  have "p = p\<lparr>px_rateLimiter := px_rateLimiter p\<rparr>" by simp
  then have "\<exists>l. p = p\<lparr>px_rateLimiter := l\<rparr>" by blast
  with assms show ?thesis
    by (auto simp: rate_front_def Let_def split: option.splits if_splits prod.splits)
qed

lemma ServeHTTP_tries:
  assumes "ServeHTTP pe now p r = Some (p', out, tried)" and "tried \<noteq> []"
  obtains chain service ctx where "extractChain r = Inr (chain, service)" and "permitted p chain"
    and "good_tries ctx (snd (buildCandidates p chain)) (px_selectorCfg p) (fst (buildCandidates p chain)) tried"
    and "length tried \<le> 2" and "ctx = buildRequestContext (pe_claims pe) r chain (wants_ws r service)"
proof -
  obtain chain service where ch: "extractChain r = Inr (chain, service)"
    using assms by (cases "extractChain r") (auto simp: ServeHTTP_def)
  have ok: "permitted p chain"
    using assms ch by (auto simp: ServeHTTP_def permitted_def split: if_splits)
  obtain p1 go where rf: "rate_front pe now p r = (p1, go)" by (cases "rate_front pe now p r")
  obtain l where p1: "p1 = p\<lparr>px_rateLimiter := l\<rparr>" using rate_front_keeps [OF rf] by blast
  have same: "buildCandidates p1 chain = buildCandidates p chain" "px_selectorCfg p1 = px_selectorCfg p"
    by (rule buildCandidates_cong) (simp_all add: p1)
  let ?ctx = "buildRequestContext (pe_claims pe) r chain (wants_ws r service)"
  consider "tried = snd (handleWebsocket pe p1 chain ?ctx)"
    | out' where "handleHTTP pe now p1 r chain ?ctx = Some (p', out', tried)"
    using assms unfolding ServeHTTP_front [OF ch ok] rf Let_def prod.case
    by (auto split: if_splits)
  then have "good_tries ?ctx (snd (buildCandidates p chain)) (px_selectorCfg p) (fst (buildCandidates p chain)) tried
      \<and> length tried \<le> 2"
  proof cases
    case 1
    with handleWebsocket_tries [of ?ctx p1 chain pe] show ?thesis by (simp add: same)
  next
    case 2
    from handleHTTP_tries [OF 2] show ?thesis by (simp add: same)
  qed
  with ch ok show thesis by (intro that) auto
qed

section \<open>Every request is answered\<close>

definition proxy_inv :: "('s \<Rightarrow> bool) \<Rightarrow> ('s \<Rightarrow> items) \<Rightarrow> ('s, 'l) Proxy \<Rightarrow> bool" where
  "proxy_inv ok its p \<longleftrightarrow> (case px_cache p of None \<Rightarrow> True | Some c \<Rightarrow> cache_inv ok its c)"

text \<open>The reply to a forwarded request, what is stored of it, and where it is stored, if at all.\<close>

definition upstream_header :: "http_response \<Rightarrow> http_header" where
  "upstream_header resp = header_Del (sanitizeHopHeaders
     (case rs_Header resp of None \<Rightarrow> [] | Some h \<Rightarrow> proxy_cloneHeader h)) ''Set-Cookie''"

definition upstream_reply :: "('s, 'l) Proxy \<Rightarrow> Candidate \<Rightarrow> http_response \<Rightarrow> bytes \<Rightarrow> bool \<Rightarrow> reply" where
  "upstream_reply p b resp body cacheable =
     (let w = header_Set (header_Set (add_headers [] (upstream_header resp))
                ''Content-Length'' (dec (length body))) ''X-Mesh-Backend'' (bm_ID (ca_Meta b))
      in \<lparr>rp_Status = rs_StatusCode resp,
          rp_Header = (if cacheable \<and> px_cacheEnabled p then header_Set w ''X-Mesh-Cache'' ''miss'' else w),
          rp_Body = body\<rparr>)"

definition upstream_entry :: "time \<Rightarrow> http_response \<Rightarrow> bytes \<Rightarrow> duration \<Rightarrow> cache_entry" where
  "upstream_entry now resp body t =
     \<lparr>en_Status = rs_StatusCode resp, en_Header = Some (upstream_header resp), en_Body = body,
      en_StoredAt = now, en_ExpiresAt = (if t > 0 then now + t else zero_time), en_Size = int (length body)\<rparr>"

definition store_target ::
    "('s, 'l) Proxy \<Rightarrow> http_request \<Rightarrow> int \<Rightarrow> bytes \<Rightarrow> bool \<Rightarrow> string \<Rightarrow> (string \<times> duration) option" where
  "store_target p req status body cacheable key =
     (if \<not> px_cacheEnabled p then None
      else if cacheable \<and> status = 200
      then (if px_cacheMaxItem p > 0 \<and> int (length body) > px_cacheMaxItem p then None
            else Some (key, if px_cacheInfinite p then 0 else px_cacheTTL p))
      else if px_negativeCacheTTL p > 0 \<and> status = 404 \<and> shouldNegativeCache req
      then Some (negativeCacheKey req, px_negativeCacheTTL p) else None)"

lemma writeUpstreamResponse_target:
  "writeUpstreamResponse lru now p req b resp body cacheable key =
     (let out = upstream_reply p b resp body cacheable
      in case store_target p req (rs_StatusCode resp) body cacheable key of
           None \<Rightarrow> Some (p, out)
         | Some (k, t) \<Rightarrow> map_option (\<lambda>p'. (p', out)) (store_entry lru p k (Some (upstream_entry now resp body t))))"
  by (simp add: writeUpstreamResponse_def store_target_def upstream_reply_def upstream_entry_def
      upstream_header_def BuildEntry_def Let_def)

text \<open>The only part of the proxy that serving a request changes besides its rate limiter.\<close>

definition recached :: "('s \<Rightarrow> bool) \<Rightarrow> ('s \<Rightarrow> items) \<Rightarrow> ('s, 'l) Proxy \<Rightarrow> ('s, 'l) Proxy \<Rightarrow> bool" where
  "recached ok its p p' \<longleftrightarrow> proxy_inv ok its p' \<and> p'\<lparr>px_cache := px_cache p\<rparr> = p"

lemma recached_refl: "proxy_inv ok its p \<Longrightarrow> recached ok its p p"
  by (simp add: recached_def)

lemma recached_trans: "recached ok its p q \<Longrightarrow> recached ok its q r \<Longrightarrow> recached ok its p r"
  unfolding recached_def by (metis (no_types, lifting) Proxy.surjective Proxy.update_convs(5))

lemma recached_update: "cache_inv ok its c \<Longrightarrow> recached ok its p (p\<lparr>px_cache := Some c\<rparr>)"
  by (simp add: recached_def proxy_inv_def)

lemma recached_fields:
  assumes "recached ok its p p'"
  shows "px_store p' = px_store p" and "px_selectorCfg p' = px_selectorCfg p"
    and "px_cacheEnabled p' = px_cacheEnabled p" and "px_cacheMaxItem p' = px_cacheMaxItem p"
    and "px_cacheTTL p' = px_cacheTTL p" and "px_cacheInfinite p' = px_cacheInfinite p"
    and "px_edgeCountry p' = px_edgeCountry p" and "px_edgeRegion p' = px_edgeRegion p"
proof -
  have p: "p = p'\<lparr>px_cache := px_cache p\<rparr>" using assms by (simp add: recached_def)
  show "px_store p' = px_store p" "px_selectorCfg p' = px_selectorCfg p"
    "px_cacheEnabled p' = px_cacheEnabled p" "px_cacheMaxItem p' = px_cacheMaxItem p"
    "px_cacheTTL p' = px_cacheTTL p" "px_cacheInfinite p' = px_cacheInfinite p"
    "px_edgeCountry p' = px_edgeCountry p" "px_edgeRegion p' = px_edgeRegion p"
    by (subst p, simp)+
qed

lemma canon_cache:
  "canon ''X-Mesh-Cache'' = ''X-Mesh-Cache''" "canon ''Content-Length'' = ''Content-Length''"
  by code_simp+

lemma store_entry_inv:
  assumes "lru_laws lru cap ok its" and "proxy_inv ok its p" and "0 \<le> en_Size e"
  shows "\<exists>p'. store_entry lru p key (Some e) = Some p' \<and> recached ok its p p'"
proof (cases "px_cache p")
  case None
  with assms(2) show ?thesis by (simp add: store_entry_def recached_refl)
next
  case (Some c)
  then have "cache_inv ok its c" using assms(2) by (simp add: proxy_inv_def)
  from cache_inv_Store [OF assms(1) this assms(3), of key]
  show ?thesis by (auto simp: store_entry_def Some intro: recached_update)
qed

lemma writeUpstreamResponse_inv:
  assumes "lru_laws lru cap ok its" and "proxy_inv ok its p"
  shows "\<exists>p' out. writeUpstreamResponse lru now p req b resp body cacheable key = Some (p', out) \<and> recached ok its p p'"
proof (cases "store_target p req (rs_StatusCode resp) body cacheable key")
  case None
  with assms(2) show ?thesis by (auto simp: writeUpstreamResponse_target intro: recached_refl)
next
  case (Some kt)
  then show ?thesis
    using store_entry_inv [OF assms, of "upstream_entry now resp body (snd kt)" "fst kt"]
    by (cases kt) (auto simp: writeUpstreamResponse_target Let_def upstream_entry_def)
qed

text \<open>The lookup before a request is forwarded.\<close>

definition cache_front ::
    "'s lru_ops \<Rightarrow> time \<Rightarrow> ('s, 'l) Proxy \<Rightarrow> bool \<Rightarrow> string \<Rightarrow> ('s, 'l) Proxy \<times> cache_entry option" where
  "cache_front lru now p cacheable key =
     (if cacheable \<and> px_cacheEnabled p
      then (case px_cache p of None \<Rightarrow> (p, None)
            | Some c \<Rightarrow> (case cache_Lookup lru c key now of (c', e) \<Rightarrow> (p\<lparr>px_cache := Some c'\<rparr>, e)))
      else (p, None))"

lemma cache_front_inv:
  assumes "lru_laws lru cap ok its" and "proxy_inv ok its p"
  shows "recached ok its p (fst (cache_front lru now p cacheable key))"
proof (cases "px_cache p")
  case None
  with assms(2) show ?thesis by (simp add: cache_front_def recached_refl)
next
  case (Some c)
  then have "cache_inv ok its (fst (cache_Lookup lru c key now))"
    using cache_inv_Lookup [OF assms(1)] assms(2) by (simp add: proxy_inv_def)
  with Some assms(2) show ?thesis
    by (simp add: cache_front_def case_prod_unfold recached_refl recached_update)
qed

lemma handleHTTP_front:
  "handleHTTP pe now p r chain ctx =
     (let (pool, env) = buildCandidates p chain;
          (key, cacheable) = shouldCacheRequest p r ctx;
          (p1, hit) = cache_front (pe_lru pe) now p cacheable key
      in if pool = [] then Some (p, http_Error ''meshproxy: no healthy backends'' 503, [])
         else case hit of
           Some entry \<Rightarrow> Some (p1, writeCachedResponse entry, [])
         | None \<Rightarrow>
             (case readRequestBody r of
                Inl _ \<Rightarrow> Some (p1, http_Error ''meshproxy: invalid request body'' 400, [])
              | Inr (body, r1) \<Rightarrow>
                  (case forward_loop pe p1 r1 body ctx env pool 2 0 [] of
                     (tried, None) \<Rightarrow> Some (p1, http_Error ''meshproxy: upstream unavailable'' 502, tried)
                   | (tried, Some (b, resp, payload)) \<Rightarrow>
                       map_option (\<lambda>(p2, out). (p2, out, tried))
                         (writeUpstreamResponse (pe_lru pe) now p1 r1 b resp payload cacheable key))))"
  by (simp add: handleHTTP_def cache_front_def Let_def case_prod_unfold)

lemma handleHTTP_inv:
  assumes "lru_laws (pe_lru pe) cap ok its" and "proxy_inv ok its p"
  shows "\<exists>p' out tried. handleHTTP pe now p r chain ctx = Some (p', out, tried) \<and> recached ok its p p'"
proof -
  obtain pool env key cacheable p1 hit where
    be: "buildCandidates p chain = (pool, env)" and sc: "shouldCacheRequest p r ctx = (key, cacheable)"
    and cf: "cache_front (pe_lru pe) now p cacheable key = (p1, hit)"
    by (metis surj_pair)
  have p1: "recached ok its p p1" using cache_front_inv [OF assms, of now cacheable key] cf by simp
  then have "proxy_inv ok its p1" by (simp add: recached_def)
  note up = writeUpstreamResponse_inv [OF assms(1) this]
  have up': "\<exists>p' out. writeUpstreamResponse (pe_lru pe) now p1 r1 b resp body cacheable key = Some (p', out)
      \<and> recached ok its p p'" for r1 b resp body
    using up recached_trans [OF p1] by blast
  show ?thesis
    unfolding handleHTTP_front be sc Let_def prod.case cf
    using p1 recached_refl [OF assms(2)] up'
    by (simp split: option.split sum.split prod.split)
qed

section \<open>Properties\<close>

text \<open>An edge with one backend that answers every request with status 200.\<close>

definition demo_pe :: "(nat \<times> items, int) proxy_env" where
  "demo_pe = \<lparr>pe_lru = list_lru, pe_rate = demo_rate, pe_claims = (\<lambda>_. None), pe_valid = (\<lambda>_ _. None),
     pe_transport = (\<lambda>_ _. Inr \<lparr>rs_StatusCode = 200, rs_Header = None,
                        rs_Body = Some \<lparr>bd_read = Inr [7], bd_close = None\<rparr>, rs_ContentLength = 1\<rparr>),
     pe_websocket = (\<lambda>_ _. None), pe_draws = (\<lambda>_. (None, None, 0))\<rparr>"

definition demo_store :: Store where
  "demo_store = ApplyBackendMetrics 0
     (fst (ApplyBackendMeta demo_env (NewStore 0) (demo_meta ''b1'' 1 [2])))
     ((demo_metrics ''b1'' 10)\<lparr>mx_Health := ''OK''\<rparr>)"

definition demo_proxy :: "(nat \<times> items, int) Proxy" where
  "demo_proxy = \<lparr>px_store = demo_store, px_selectorCfg = sel_DefaultConfig, px_allowedChains = [''c1''],
     px_cacheEnabled = True, px_cache = Some (demo_cache 4 100 [] 0), px_cacheMaxItem = 10,
     px_cacheTTL = 60, px_cacheInfinite = False, px_negativeCacheTTL = 0, px_rateLimiter = None,
     px_backendScheme = ''https'', px_edgeCountry = [], px_edgeRegion = []\<rparr>"

lemma demo_store_wf: "store_wf demo_store"
  unfolding demo_store_def using store_wf_step [OF store_wf_new, of demo_env 0 "ApplyMeta (demo_meta ''b1'' 1 [2])"]
  by (intro store_wf_metrics) simp

lemma demo_proxy_inv: "proxy_inv (list_lru_ok 4) snd demo_proxy"
  by (simp add: proxy_inv_def demo_proxy_def cache_inv_def demo_cache_def list_lru_ok_def drift_def)

definition demo_backend :: Candidate where
  "demo_backend = (demo_cand ''b1'' 0)\<lparr>ca_Meta := demo_meta ''b1'' 1 [2]\<rparr>"

lemma demo_store_meta: "st_meta demo_store = [(''b1'', \<lparr>Value = demo_meta ''b1'' 1 [2], Clk = meta_clock (demo_meta ''b1'' 1 [2]), Tombstone = False\<rparr>)]"
  by (simp add: demo_store_def ApplyBackendMetrics_def ApplyBackendMeta_def CanonicalBackendMeta_def
      demo_env_def demo_meta_def PublicKeySize_def NewStore_def NewLWWMap_def lww_Upsert_def Let_def)

lemma demo_store_metrics:
  "LatestMetrics demo_store = [(''b1'', (demo_metrics ''b1'' 10)\<lparr>mx_Health := ''OK''\<rparr>)]"
  by (simp add: LatestMetrics_def demo_store_def ApplyBackendMetrics_def ApplyBackendMeta_def CanonicalBackendMeta_def
      demo_env_def demo_meta_def PublicKeySize_def NewStore_def Let_def lww_Upsert_def NewLWWMap_def
      demo_metrics_def)

lemma demo_candidates: "buildCandidates demo_proxy ''c1'' = ([demo_backend], \<lparr>BestHeight = 10\<rparr>)"
proof -
  have "px_store demo_proxy = demo_store" "px_edgeCountry demo_proxy = []" by (simp_all add: demo_proxy_def)
  then show ?thesis
    by (simp add: buildCandidates_def BackendSnapshot_def lww_Snapshot_def demo_store_meta demo_store_metrics
        geoPenalty_def demo_backend_def demo_cand_def Let_def)
      (simp add: demo_meta_def demo_metrics_def)
qed

abbreviation demo_rq :: http_request where
  "demo_rq \<equiv> demo_req ''rpc.c1.test'' []"

abbreviation demo_rctx :: RequestContext where
  "demo_rctx \<equiv> buildRequestContext (\<lambda>_. None) demo_rq ''c1'' False"

lemma demo_chain: "extractChain demo_rq = Inr (''c1'', ''rpc'')" "\<not> wants_ws demo_rq ''rpc''"
  by code_simp+

lemma demo_rctx_height: "rq_Height demo_rctx = Some 5"
  by code_simp

lemma demo_backend_eligible: "eligible demo_rctx \<lparr>BestHeight = 10\<rparr> sel_DefaultConfig demo_backend"
proof -
  have "capabilityForRequest demo_rctx = ''rpc''" "ToLower ''OK'' = ''ok''" "rq_ChainID demo_rctx = ''c1''"
    by code_simp+
  then show ?thesis
    by (simp add: eligible_def demo_rctx_height)
      (simp add: demo_backend_def demo_cand_def demo_meta_def demo_metrics_def)
qed

lemma pickCandidate_single:
  assumes "eligible ctx env (px_selectorCfg p) c"
  shows "\<exists>c'. pickCandidate draws p ctx env [c] [] = Inr c' \<and> ca_Meta c' = ca_Meta c"
proof -
  obtain d d' nanos where draws: "draws = (d, d', nanos)" by (cases draws)
  have "pickCandidate draws p ctx env [c] [] = Pick d d' nanos ctx env [c] (px_selectorCfg p)"
    by (simp add: pickCandidate_def draws)
  also obtain c' where c': "\<dots> = Inr c'" using assms by (simp add: Pick_index)
  finally show ?thesis using pickCandidate_Inr [of draws p ctx env "[c]" "[]" c'] by auto
qed

lemma demo_forward:
  assumes "px_selectorCfg p = sel_DefaultConfig" and "hr_Body r = None"
  shows "\<exists>c resp. forward_loop demo_pe p r body demo_rctx \<lparr>BestHeight = 10\<rparr> [demo_backend] 2 0 [] =
      ([''b1''], Some (c, resp, [7])) \<and> rs_StatusCode resp = 200"
proof -
  obtain c where c: "pickCandidate (None, None, 0) p demo_rctx \<lparr>BestHeight = 10\<rparr> [demo_backend] [] = Inr c"
      "ca_Meta c = ca_Meta demo_backend"
    using pickCandidate_single [of demo_rctx _ p demo_backend "(None, None, 0)"] demo_backend_eligible assms by metis
  then have "bm_ID (ca_Meta c) = ''b1''" by (simp add: demo_backend_def demo_cand_def demo_meta_def)
  with c(1) show ?thesis
    by (simp add: numeral_2_eq_2 demo_pe_def forwardRequest_def buildOutboundRequest_def Let_def)
qed

lemma demo_handle:
  "\<exists>out e. handleHTTP demo_pe 1 demo_proxy demo_rq ''c1'' demo_rctx =
      Some (demo_proxy\<lparr>px_cache := Some (demo_cache 4 100 [(cacheKey demo_rq ''height'', e)] 1)\<rparr>, out, [''b1''])
    \<and> rp_Status out = 200 \<and> rp_Body out = [7] \<and> en_Size e = 1"
proof -
  let ?key = "cacheKey demo_rq ''height''"
  have sc: "shouldCacheRequest demo_proxy demo_rq demo_rctx = (?key, True)"
    by (simp add: shouldCacheRequest_def demo_rctx_height) (simp add: demo_proxy_def demo_req_def)
  have front: "cache_front (pe_lru demo_pe) 1 demo_proxy True ?key = (demo_proxy, None)"
    by (simp add: cache_front_def demo_proxy_def demo_pe_def cache_Lookup_def list_lru_def demo_cache_def touch_items_def)
  have body: "readRequestBody demo_rq = Inr ([], demo_rq)" by (simp add: readRequestBody_def demo_req_def)
  obtain c resp where f: "forward_loop demo_pe demo_proxy demo_rq [] demo_rctx \<lparr>BestHeight = 10\<rparr> [demo_backend] 2 0 [] =
      ([''b1''], Some (c, resp, [7]))" "rs_StatusCode resp = 200"
    using demo_forward [of demo_proxy demo_rq "[]"] by (auto simp: demo_proxy_def demo_req_def)
  let ?e = "upstream_entry 1 resp [7] 60"
  have "store_target demo_proxy demo_rq 200 [7] True ?key = Some (?key, 60)"
    by (simp add: store_target_def demo_proxy_def)
  moreover have "store_entry (pe_lru demo_pe) demo_proxy ?key (Some ?e) =
      Some (demo_proxy\<lparr>px_cache := Some (demo_cache 4 100 [(?key, ?e)] 1)\<rparr>)"
    by (simp add: store_entry_def demo_proxy_def demo_pe_def cache_Store_def list_lru_def demo_cache_def
        add_items_def upstream_entry_def evict_loop.simps)
  ultimately show ?thesis
    by (intro exI [of _ "upstream_reply demo_proxy c resp [7] True"] exI [of _ ?e])
      (simp add: handleHTTP_front demo_candidates sc front body f writeUpstreamResponse_target Let_def
        upstream_reply_def upstream_entry_def del: forward_loop.simps)
qed

lemma demo_serve:
  "\<exists>p' out. ServeHTTP demo_pe 1 demo_proxy demo_rq = Some (p', Some out, [''b1''])"
proof -
  have "permitted demo_proxy ''c1''" "rate_front demo_pe 1 demo_proxy demo_rq = (demo_proxy, True)"
    "pe_claims demo_pe = (\<lambda>_. None)"
    by (simp_all add: permitted_def rate_front_def demo_proxy_def demo_pe_def)
  then show ?thesis
    using demo_handle demo_chain(2) unfolding ServeHTTP_front [OF demo_chain(1) \<open>permitted demo_proxy ''c1''\<close>]
    by auto
qed

text \<open>
  C1. Only fit backends are contacted. A request leads to at most two attempts, on different
  backends; each of them is a live record of the registry for the chain that the request names, a
  chain the edge permits, with a current metrics sample that reports good health, no catching up
  and at least the height the request asks for.
\<close>

theorem ServeHTTP_contacts:
  assumes "store_wf (px_store p)" and "ServeHTTP pe now p r = Some (p', out, tried)"
  shows "distinct tried \<and> length tried \<le> 2 \<and>
    (\<forall>b \<in> set tried. \<exists>chain service meta metrics. extractChain r = Inr (chain, service)
      \<and> (px_allowedChains p = [] \<or> chain \<in> set (px_allowedChains p))
      \<and> served (px_store p) chain meta metrics \<and> bm_ID meta = b
      \<and> ToLower (mx_Health metrics) = ''ok'' \<and> \<not> mx_CatchingUp metrics
      \<and> (\<forall>h. parseHeight (u_Query (hr_URL r)) = Some h \<longrightarrow> h \<le> mx_Height metrics))"
proof (cases "tried = []")
  case False
  obtain chain service ctx where t: "extractChain r = Inr (chain, service)" "permitted p chain"
    "good_tries ctx (snd (buildCandidates p chain)) (px_selectorCfg p) (fst (buildCandidates p chain)) tried"
    "length tried \<le> 2" "ctx = buildRequestContext (pe_claims pe) r chain (wants_ws r service)"
    by (rule ServeHTTP_tries [OF assms(2) False])
  have ctx: "rq_Height ctx = parseHeight (u_Query (hr_URL r))"
    by (simp add: t(5) buildRequestContext_def Let_def)
  have "\<exists>meta metrics. served (px_store p) chain meta metrics \<and> bm_ID meta = b \<and>
      ToLower (mx_Health metrics) = ''ok'' \<and> \<not> mx_CatchingUp metrics \<and>
      (\<forall>h. parseHeight (u_Query (hr_URL r)) = Some h \<longrightarrow> h \<le> mx_Height metrics)" if "b \<in> set tried" for b
  proof -
    note b = that
    obtain c where c: "c \<in> set (fst (buildCandidates p chain))" "bm_ID (ca_Meta c) = b"
        "eligible ctx (snd (buildCandidates p chain)) (px_selectorCfg p) c"
      using t(3) b unfolding good_tries_def by blast
    from buildCandidates_served [OF assms(1) c(1)] c(2,3) ctx show ?thesis
      by (intro exI [of _ "ca_Meta c"] exI [of _ "ca_Metrics c"])
        (auto simp: eligible_def split: option.splits)
  qed
  with t show ?thesis by (simp add: good_tries_def permitted_def)
qed simp

theorem ServeHTTP_contacts_witness:
  "\<exists>p' out. ServeHTTP demo_pe 1 demo_proxy demo_rq = Some (p', Some out, [''b1''])
    \<and> (\<exists>chain meta metrics. served demo_store chain meta metrics \<and> bm_ID meta = ''b1''
        \<and> \<not> mx_CatchingUp metrics)"
proof -
  obtain p' out where run: "ServeHTTP demo_pe 1 demo_proxy demo_rq = Some (p', Some out, [''b1''])"
    using demo_serve by blast
  have store: "px_store demo_proxy = demo_store" by (simp add: demo_proxy_def)
  have "store_wf (px_store demo_proxy)" unfolding store by (rule demo_store_wf)
  from ServeHTTP_contacts [OF this run] run show ?thesis unfolding store by auto
qed



lemma handleHTTP_upstream:
  assumes "handleHTTP pe now p r chain ctx = Some (p1, out, tried)" and "tried \<noteq> []" and "rp_Status out = 200"
  obtains p0 r1 b resp where
    "cache_front (pe_lru pe) now p (snd (shouldCacheRequest p r ctx)) (fst (shouldCacheRequest p r ctx)) = (p0, None)"
    and "rs_StatusCode resp = 200"
    and "writeUpstreamResponse (pe_lru pe) now p0 r1 b resp (rp_Body out) (snd (shouldCacheRequest p r ctx))
           (fst (shouldCacheRequest p r ctx)) = Some (p1, out)"
proof -
  obtain pool env key cacheable p0 hit where
    be: "buildCandidates p chain = (pool, env)" and sc: "shouldCacheRequest p r ctx = (key, cacheable)"
    and cf: "cache_front (pe_lru pe) now p cacheable key = (p0, hit)"
    by (metis surj_pair)
  have reply: "out = upstream_reply p0 b resp payload cacheable"
    if "writeUpstreamResponse (pe_lru pe) now p0 r1 b resp payload cacheable key = Some (p1, out)" for r1 b resp payload
    using that by (auto simp: writeUpstreamResponse_target Let_def split: option.splits prod.splits)
  obtain r1 b resp payload where hit: "hit = None"
    and up: "writeUpstreamResponse (pe_lru pe) now p0 r1 b resp payload cacheable key = Some (p1, out)"
    using assms unfolding handleHTTP_front be sc Let_def prod.case cf
    by (auto simp: http_Error_def split: if_splits option.splits sum.splits prod.splits)
  have "rs_StatusCode resp = 200" "payload = rp_Body out"
    using reply [OF up] assms(3) by (simp_all add: upstream_reply_def Let_def)
  with up cf show thesis by (intro that) (simp_all add: sc hit)
qed



end
