(* ===== verification/Websocket_Relay.thy ===== *)
theory Websocket_Relay
  imports Edge_Proxy
begin

text \<open>
  The websocket relay of the proxy (\<^verbatim>\<open>pkg/proxy/websocket.go\<close>). \<open>proxyWebsocket\<close> accepts the client,
  dials the backend, waits for the first of the two relays to fail and closes both connections; what
  the websocket package answers is an argument, and the calls that close connections are the log of
  the result. The two relays run concurrently: \<open>relay\<close> is the relation of their interleaved steps, with
  the channel \<^verbatim>\<open>errCh\<close> on which they report.
\<close>

section \<open>One attempt\<close>

text \<open>
  An error of the websocket package with the status of the close frame it carries, \<open>-1\<close> when there
  is none (\<^verbatim>\<open>websocket.CloseStatus\<close>).
\<close>

record ws_error =
  we_CloseStatus :: int
  we_Error :: string

definition StatusNormalClosure :: int where "StatusNormalClosure = 1000"
definition StatusGoingAway :: int where "StatusGoingAway = 1001"
definition StatusInternalError :: int where "StatusInternalError = 1011"

text \<open>
  What the websocket package answers in an attempt: \<open>ws_Accept\<close> the error or the subprotocol agreed with
  the client, \<open>ws_Dial\<close> the error of dialling the backend, \<open>ws_first\<close> the first error a relay reports.
\<close>

record ws_env =
  ws_Accept :: "nat \<Rightarrow> ws_error + string"
  ws_Dial :: "nat \<Rightarrow> url \<Rightarrow> http_header \<Rightarrow> ws_error option"
  ws_first :: "nat \<Rightarrow> ws_error"

datatype ws_action =
    Dialled url http_header
  | CloseClient int string
  | CloseBackend int string
  | CloseClientNow

definition isNormalClosure :: "ws_error \<Rightarrow> bool" where
  "isNormalClosure err \<longleftrightarrow> we_CloseStatus err = StatusNormalClosure \<or> we_CloseStatus err = StatusGoingAway"

definition backend_url :: "('s, 'l) Proxy \<Rightarrow> http_request \<Rightarrow> Candidate \<Rightarrow> url" where
  "backend_url p r candidate =
     (let scheme = (if EqualFold (px_backendScheme p) ''http'' then ''ws'' else ''wss'')
      in \<lparr>u_Scheme = scheme, u_Host = bm_Host (ca_Meta candidate), u_Path = u_Path (hr_URL r),
          u_Query = u_Query (hr_URL r)\<rparr>)"

definition backend_header :: "string \<Rightarrow> http_request \<Rightarrow> Candidate \<Rightarrow> http_header" where
  "backend_header sub r candidate =
     (let header = [];
          header = (if sub \<noteq> [] then header_Set header ''Sec-WebSocket-Protocol'' sub else header);
          forwarded = appendForwardedFor (header_Get (hr_Header r) ''X-Forwarded-For'') (clientIPFromRequest r);
          header = (if forwarded \<noteq> [] then header_Set header ''X-Forwarded-For'' forwarded else header)
      in header_Set header ''X-Mesh-Backend'' (bm_ID (ca_Meta candidate)))"

text \<open>The calls on the connections in their order, the deferred ones last, and the error returned.\<close>

definition proxyWebsocket ::
    "ws_env \<Rightarrow> nat \<Rightarrow> ('s, 'l) Proxy \<Rightarrow> http_request \<Rightarrow> Candidate \<Rightarrow> ws_action list \<times> string option" where
  "proxyWebsocket ws attempt p r candidate =
     (case ws_Accept ws attempt of
        Inl err \<Rightarrow> ([], Some (we_Error err))
      | Inr sub \<Rightarrow>
          let backendURL = backend_url p r candidate;
              header = backend_header sub r candidate;
              deferred = [CloseClient StatusInternalError ''proxy error'']
          in case ws_Dial ws attempt backendURL header of
               Some err \<Rightarrow> ([Dialled backendURL header, CloseClientNow] @ deferred, Some (we_Error err))
             | None \<Rightarrow>
                 let deferred = CloseBackend StatusInternalError ''proxy error'' # deferred;
                     err = ws_first ws attempt
                 in if \<not> isNormalClosure err
                    then ([Dialled backendURL header, CloseBackend StatusInternalError ''proxy error'',
                           CloseClient StatusInternalError ''proxy error''] @ deferred, Some (we_Error err))
                    else ([Dialled backendURL header, CloseBackend StatusNormalClosure [],
                           CloseClient StatusNormalClosure []] @ deferred, None))"

text \<open>The proxy with this relay in place of its argument.\<close>

definition with_relay :: "ws_env \<Rightarrow> ('s, 'l) Proxy \<Rightarrow> http_request \<Rightarrow> ('s, 'l) proxy_env \<Rightarrow> ('s, 'l) proxy_env" where
  "with_relay ws p r pe = pe\<lparr>pe_websocket := (\<lambda>attempt c. snd (proxyWebsocket ws attempt p r c))\<rparr>"

text \<open>
  What the package documents of \<^verbatim>\<open>Accept\<close>: it takes over the connection of the response writer, so a
  second call on the same writer fails.
\<close>

definition hijack_law :: "ws_env \<Rightarrow> bool" where
  "hijack_law ws \<longleftrightarrow> (\<forall>i j sub. ws_Accept ws i = Inr sub \<longrightarrow> i < j \<longrightarrow> (\<exists>err. ws_Accept ws j = Inl err))"

section \<open>The relays\<close>

datatype side = Client | Backend

fun other :: "side \<Rightarrow> side" where
  "other Client = Backend"
| "other Backend = Client"

record ws_msg =
  msgType :: int
  msgData :: bytes

text \<open>
  The relay that reads from a side: what the side still has to send, what was read and not yet written,
  what the side has received, whether its relay runs; and the reports on the channel, in order.
\<close>

record relay_state =
  rs_in :: "side \<Rightarrow> ws_msg list"
  rs_hold :: "side \<Rightarrow> ws_msg option"
  rs_out :: "side \<Rightarrow> ws_msg list"
  rs_runs :: "side \<Rightarrow> bool"
  errCh :: "ws_error list"

definition relay_start :: "(side \<Rightarrow> ws_msg list) \<Rightarrow> relay_state" where
  "relay_start msgs = \<lparr>rs_in = msgs, rs_hold = (\<lambda>_. None), rs_out = (\<lambda>_. []), rs_runs = (\<lambda>_. True), errCh = []\<rparr>"

text \<open>The steps of \<^verbatim>\<open>relayWebsocket\<close>, of the relay that reads from \<open>s\<close>.\<close>

definition relay_read :: "side \<Rightarrow> relay_state \<Rightarrow> relay_state option" where
  "relay_read s st =
     (case (rs_runs st s, rs_hold st s, rs_in st s) of
        (True, None, m # ms) \<Rightarrow> Some (st\<lparr>rs_in := (rs_in st)(s := ms), rs_hold := (rs_hold st)(s := Some m)\<rparr>)
      | _ \<Rightarrow> None)"

definition relay_write :: "side \<Rightarrow> relay_state \<Rightarrow> relay_state option" where
  "relay_write s st =
     (case (rs_runs st s, rs_hold st s) of
        (True, Some m) \<Rightarrow>
          Some (st\<lparr>rs_out := (rs_out st)(other s := rs_out st (other s) @ [m]), rs_hold := (rs_hold st)(s := None)\<rparr>)
      | _ \<Rightarrow> None)"

definition relay_fail :: "side \<Rightarrow> ws_error \<Rightarrow> relay_state \<Rightarrow> relay_state option" where
  "relay_fail s err st =
     (if rs_runs st s then Some (st\<lparr>rs_runs := (rs_runs st)(s := False), errCh := errCh st @ [err]\<rparr>) else None)"

inductive relay :: "relay_state \<Rightarrow> relay_state \<Rightarrow> bool" where
  Read: "relay_read s st = Some st' \<Longrightarrow> relay st st'"
| Write: "relay_write s st = Some st' \<Longrightarrow> relay st st'"
| Fail: "relay_fail s err st = Some st' \<Longrightarrow> relay st st'"

inductive_cases relayE: "relay st st'"

section \<open>Facts\<close>

lemma relay_read_Some:
  "relay_read s st = Some st' \<longleftrightarrow>
     (\<exists>m ms. rs_runs st s \<and> rs_hold st s = None \<and> rs_in st s = m # ms \<and>
        st' = st\<lparr>rs_in := (rs_in st)(s := ms), rs_hold := (rs_hold st)(s := Some m)\<rparr>)"
  by (auto simp: relay_read_def split: bool.splits option.splits list.splits)

lemma relay_write_Some:
  "relay_write s st = Some st' \<longleftrightarrow>
     (\<exists>m. rs_runs st s \<and> rs_hold st s = Some m \<and>
        st' = st\<lparr>rs_out := (rs_out st)(other s := rs_out st (other s) @ [m]), rs_hold := (rs_hold st)(s := None)\<rparr>)"
  by (auto simp: relay_write_def split: bool.splits option.splits)

lemma relay_fail_Some:
  "relay_fail s err st = Some st' \<longleftrightarrow>
     rs_runs st s \<and> st' = st\<lparr>rs_runs := (rs_runs st)(s := False), errCh := errCh st @ [err]\<rparr>"
  by (auto simp: relay_fail_def)

lemmas relay_steps = relay_read_Some relay_write_Some relay_fail_Some

lemma other_other [simp]: "other (other s) = s"
  by (cases s) simp_all

lemma other_neq [simp]: "other s \<noteq> s" "s \<noteq> other s"
  by (cases s; simp)+

lemma other_inject [simp]: "other s = other s' \<longleftrightarrow> s = s'"
  by (cases s; cases s') simp_all

text \<open>The messages of a side: received by the other one, held, or still to be read.\<close>

definition conserved :: "(side \<Rightarrow> ws_msg list) \<Rightarrow> relay_state \<Rightarrow> bool" where
  "conserved msgs st \<longleftrightarrow>
     (\<forall>s. rs_out st (other s) @ (case rs_hold st s of None \<Rightarrow> [] | Some m \<Rightarrow> [m]) @ rs_in st s = msgs s)"

definition reported :: "relay_state \<Rightarrow> bool" where
  "reported st \<longleftrightarrow> length (errCh st) = card {s. \<not> rs_runs st s}"

lemma finite_sides [simp]: "finite (S :: side set)"
proof -
  have "S \<subseteq> {Client, Backend}" using side.exhaust by blast
  then show ?thesis by (rule finite_subset) simp
qed

lemma card_sides: "card (S :: side set) \<le> 2"
proof -
  have "S \<subseteq> {Client, Backend}" using side.exhaust by blast
  then have "card S \<le> card {Client, Backend}" by (intro card_mono) simp_all
  then show ?thesis by simp
qed

lemma conserved_step:
  assumes "relay st st'" and "conserved msgs st"
  shows "conserved msgs st'"
  unfolding conserved_def
proof
  fix s
  from assms(2) have "rs_out st (other s) @ (case rs_hold st s of None \<Rightarrow> [] | Some m \<Rightarrow> [m]) @ rs_in st s = msgs s"
    by (simp add: conserved_def)
  with assms(1) show "rs_out st' (other s) @ (case rs_hold st' s of None \<Rightarrow> [] | Some m \<Rightarrow> [m]) @ rs_in st' s = msgs s"
    by (auto elim!: relayE simp: relay_steps)
qed

lemma relay_reported_step:
  assumes "relay st st'" and "reported st"
  shows "reported st'"
proof -
  have "card {u. \<not> ((rs_runs st)(s := False)) u} = Suc (card {u. \<not> rs_runs st u})" if "rs_runs st s" for s
  proof -
    have "{u. \<not> ((rs_runs st)(s := False)) u} = insert s {u. \<not> rs_runs st u}" by auto
    with that show ?thesis by simp
  qed
  with assms show ?thesis by (auto elim!: relayE simp: relay_steps reported_def simp del: fun_upd_apply)
qed

lemma relay_reachable:
  assumes "relay\<^sup>*\<^sup>* (relay_start msgs) st"
  shows "conserved msgs st" and "reported st"
proof -
  from assms have "conserved msgs st \<and> reported st"
  proof (induction rule: rtranclp_induct)
    case base
    show ?case by (simp add: conserved_def reported_def relay_start_def)
  qed (simp add: conserved_step relay_reported_step)
  then show "conserved msgs st" "reported st" by simp_all
qed

text \<open>Every step uses up a message to read, a message to write or a running relay.\<close>

definition side_work :: "relay_state \<Rightarrow> side \<Rightarrow> nat" where
  "side_work st s = 2 * length (rs_in st s) + (if rs_hold st s = None then 0 else 1) + (if rs_runs st s then 1 else 0)"

definition relay_work :: "relay_state \<Rightarrow> nat" where
  "relay_work st = side_work st Client + side_work st Backend"

lemma relay_work_side: "relay_work st = side_work st s + side_work st (other s)"
  by (cases s) (simp_all add: relay_work_def)

lemma side_work_step:
  assumes "relay_read s st = Some st' \<or> relay_write s st = Some st' \<or> relay_fail s err st = Some st'"
  shows "side_work st' s < side_work st s" and "side_work st' (other s) = side_work st (other s)"
  using assms by (auto simp: relay_steps side_work_def)

lemma relay_work_decreases:
  assumes "relay st st'"
  shows "relay_work st' < relay_work st"
proof -
  obtain s err where "relay_read s st = Some st' \<or> relay_write s st = Some st' \<or> relay_fail s err st = Some st'"
    using assms by (blast elim: relayE)
  from side_work_step [OF this] show ?thesis by (simp add: relay_work_side [of _ s])
qed

section \<open>Properties\<close>

text \<open>
  C21. Messages arrive unchanged and in order. However the two relays interleave, what a side has
  received is a prefix of what the other side sent, at most one message of each side is on its way, and
  every report finds room in the channel: as many were sent as relays have ended, at most two. A session
  ends: no run of the relays is longer than twice the messages and two steps more.
\<close>

theorem relay_in_order:
  assumes "(relay ^^ n) (relay_start msgs) st"
  shows "(\<exists>rest. msgs s = rs_out st (other s) @ rest \<and> length rest \<le> length (rs_in st s) + 1)
    \<and> length (errCh st) = card {u. \<not> rs_runs st u} \<and> length (errCh st) \<le> 2
    \<and> n \<le> 2 * (length (msgs Client) + length (msgs Backend)) + 2"
proof -
  have "relay\<^sup>*\<^sup>* (relay_start msgs) st" using assms by (rule relpowp_imp_rtranclp)
  then have inv: "conserved msgs st" "reported st" by (rule relay_reachable)+
  have "relay_work st + n \<le> relay_work (relay_start msgs)" using assms
  proof (induction n arbitrary: st)
    case (Suc n)
    then obtain st1 where "(relay ^^ n) (relay_start msgs) st1" "relay st1 st" by (auto elim: relpowp_Suc_E)
    with Suc.IH [of st1] relay_work_decreases [of st1 st] show ?case by simp
  qed simp
  then have "n \<le> 2 * (length (msgs Client) + length (msgs Backend)) + 2"
    by (simp add: relay_work_def side_work_def relay_start_def)
  moreover have "msgs s = rs_out st (other s) @ (case rs_hold st s of None \<Rightarrow> [] | Some m \<Rightarrow> [m]) @ rs_in st s"
    using inv(1) by (simp add: conserved_def)
  then have "\<exists>rest. msgs s = rs_out st (other s) @ rest \<and> length rest \<le> length (rs_in st s) + 1"
    by (auto split: option.splits)
  ultimately show ?thesis using inv(2) card_sides by (simp add: reported_def)
qed

definition demo_msg :: ws_msg where
  "demo_msg = \<lparr>msgType = 1, msgData = [7]\<rparr>"

theorem relay_in_order_witness:
  "\<exists>st rest. (relay ^^ 2) (relay_start (\<lambda>s. if s = Client then [demo_msg] else [])) st \<and> rs_out st Backend = [demo_msg]
     \<and> [demo_msg] = rs_out st Backend @ rest"
proof -
  let ?m = "\<lambda>s. if s = Client then [demo_msg] else []"
  define st1 where "st1 = the (relay_read Client (relay_start ?m))"
  define st2 where "st2 = the (relay_write Client st1)"
  have st1: "relay_read Client (relay_start ?m) = Some st1" "rs_runs st1 Client" "rs_hold st1 Client = Some demo_msg" "rs_out st1 Backend = []"
    by (simp_all add: st1_def relay_read_def relay_start_def)
  then have st2: "relay_write Client st1 = Some st2" "rs_out st2 Backend = [demo_msg]" by (simp_all add: st2_def relay_write_def)
  have run: "(relay ^^ 2) (relay_start ?m) st2"
    using relay.Read [OF st1(1)] relay.Write [OF st2(1)] by (auto simp: numeral_2_eq_2)
  from relay_in_order [OF run, of Client] st2(2) run show ?thesis by (intro exI [of _ st2]) auto
qed

text \<open>
  No connection is left open, and the codes are right. An attempt that does not get the client's
  connection closes nothing; any other one closes the client, with the normal code exactly when the
  session succeeds, and closes the backend when it was reached. It succeeds exactly when the first relay
  to stop was stopped by a normal closure or a peer that went away. The backend is addressed by the
  candidate's host with the path and query of the request.
\<close>

theorem websocket_closes:
  "case proxyWebsocket ws attempt p r c of (acts, res) \<Rightarrow>
     (case ws_Accept ws attempt of
        Inl err \<Rightarrow> acts = [] \<and> res = Some (we_Error err)
      | Inr sub \<Rightarrow>
          (\<exists>url header rest. acts = Dialled url header # rest \<and> u_Host url = bm_Host (ca_Meta c)
             \<and> u_Path url = u_Path (hr_URL r) \<and> u_Query url = u_Query (hr_URL r)
             \<and> header_Get header ''X-Mesh-Backend'' = bm_ID (ca_Meta c)
             \<and> (if ws_Dial ws attempt url header \<noteq> None
                then res \<noteq> None \<and> hd rest = CloseClientNow
                else (res = None \<longleftrightarrow> isNormalClosure (ws_first ws attempt))
                  \<and> (\<exists>reason reason' acts'. rest = CloseBackend (if res = None then StatusNormalClosure else StatusInternalError) reason
                        # CloseClient (if res = None then StatusNormalClosure else StatusInternalError) reason' # acts'))))"
proof (cases "ws_Accept ws attempt")
  case (Inr sub)
  have "header_Get (backend_header sub r c) ''X-Mesh-Backend'' = bm_ID (ca_Meta c)"
    by (simp add: backend_header_def header_Get_def header_Set_def Let_def)
  moreover have "u_Host (backend_url p r c) = bm_Host (ca_Meta c)" "u_Path (backend_url p r c) = u_Path (hr_URL r)"
    "u_Query (backend_url p r c) = u_Query (hr_URL r)" by (simp_all add: backend_url_def Let_def)
  ultimately show ?thesis
    by (cases "ws_Dial ws attempt (backend_url p r c) (backend_header sub r c)"; cases "isNormalClosure (ws_first ws attempt)")
      (simp_all add: proxyWebsocket_def Inr Let_def)
qed (simp add: proxyWebsocket_def)

text \<open>
  A websocket session is not retried. Accepting the client takes over its connection, so when the
  first backend cannot be dialled or breaks off, the second attempt fails for every backend, and the
  handler reports a failure although another backend may be healthy.
\<close>

theorem websocket_no_failover:
  assumes "hijack_law ws" and "ws_Accept ws 0 = Inr sub"
    and "pickCandidate (pe_draws pe 0) p ctx (snd (buildCandidates p chain)) (fst (buildCandidates p chain)) [] = Inr c"
    and "snd (proxyWebsocket ws 0 p r c) = Some err"
  shows "fst (handleWebsocket (with_relay ws p r pe) p chain ctx)
    = Some (http_Error ''meshproxy: websocket upstream unavailable'' 502)"
proof -
  obtain pool env where pool: "buildCandidates p chain = (pool, env)" by (cases "buildCandidates p chain")
  have ne: "pool \<noteq> []" using assms(3) by (auto simp: pool pickCandidate_def Let_def)
  obtain err1 where "ws_Accept ws 1 = Inl err1" using assms(1,2) unfolding hijack_law_def by (metis zero_less_one)
  then have second: "snd (proxyWebsocket ws (Suc 0) p r c') = Some (we_Error err1)" for c'
    by (simp add: proxyWebsocket_def)
  have "snd (websocket_loop (with_relay ws p r pe) p ctx env pool 2 0 []) = False"
    using assms(3,4) by (simp add: numeral_2_eq_2 with_relay_def pool second split: sum.split)
  then show ?thesis using ne by (auto simp: handleWebsocket_def pool split: prod.splits bool.splits)
qed

definition demo_ws :: ws_env where
  "demo_ws = \<lparr>ws_Accept = (\<lambda>n. if n = 0 then Inr [] else Inl \<lparr>we_CloseStatus = -1, we_Error = ''hijacked''\<rparr>),
     ws_Dial = (\<lambda>n url h. if n = 0 then Some \<lparr>we_CloseStatus = -1, we_Error = ''refused''\<rparr> else None),
     ws_first = (\<lambda>n. \<lparr>we_CloseStatus = 1000, we_Error = []\<rparr>)\<rparr>"

theorem websocket_no_failover_witness:
  "fst (handleWebsocket (with_relay demo_ws demo_proxy demo_rq demo_pe) demo_proxy ''c1'' demo_rctx)
    = Some (http_Error ''meshproxy: websocket upstream unavailable'' 502)"
proof -
  have "hijack_law demo_ws" "ws_Accept demo_ws 0 = Inr []" by (simp_all add: hijack_law_def demo_ws_def)
  moreover obtain c where "pickCandidate (pe_draws demo_pe 0) demo_proxy demo_rctx \<lparr>BestHeight = 10\<rparr> [demo_backend] [] = Inr c"
    using pickCandidate_single [of demo_rctx "\<lparr>BestHeight = 10\<rparr>" demo_proxy demo_backend "pe_draws demo_pe 0"] demo_backend_eligible
    by (auto simp: demo_proxy_def)
  moreover have "snd (proxyWebsocket demo_ws 0 demo_proxy demo_rq c) = Some ''refused''"
    by (simp add: proxyWebsocket_def demo_ws_def Let_def)
  ultimately show ?thesis by (intro websocket_no_failover [of demo_ws "[]"]) (simp_all add: demo_candidates)
qed

end
