(* ===== verification/Go_Base64.thy ===== *)
theory Go_Base64
  imports Go_Strings
begin

text \<open>
  \<^verbatim>\<open>base64.StdEncoding\<close> as the source uses it: \<open>EncodeToString\<close> groups three bytes to four characters and
  pads the last group; \<open>DecodeString\<close> drops line ends, wants complete groups and padding at the end
  only, and ignores unused low bits of a padded group.
\<close>

section \<open>The alphabet\<close>

definition b64_char :: "nat \<Rightarrow> char" where
  "b64_char n =
     char_of (if n < 26 then n + 65 else if n < 52 then n + 71 else if n < 62 then n - 4 else if n = 62 then 43 else 47)"

definition b64_val :: "char \<Rightarrow> nat option" where
  "b64_val c =
     (let n = of_char c :: nat
      in if 65 \<le> n \<and> n \<le> 90 then Some (n - 65)
         else if 97 \<le> n \<and> n \<le> 122 then Some (n - 71)
         else if 48 \<le> n \<and> n \<le> 57 then Some (n + 4)
         else if n = 43 then Some 62 else if n = 47 then Some 63 else None)"

section \<open>Encoding and decoding\<close>

fun EncodeToString :: "bytes \<Rightarrow> string" where
  "EncodeToString [] = []"
| "EncodeToString [a] = [b64_char (unat a div 4), b64_char (unat a mod 4 * 16), CHR ''='', CHR ''='']"
| "EncodeToString [a, b] =
     [b64_char (unat a div 4), b64_char (unat a mod 4 * 16 + unat b div 16), b64_char (unat b mod 16 * 4), CHR ''='']"
| "EncodeToString (a # b # c # bs) =
     [b64_char (unat a div 4), b64_char (unat a mod 4 * 16 + unat b div 16),
      b64_char (unat b mod 16 * 4 + unat c div 64), b64_char (unat c mod 64)] @ EncodeToString bs"

text \<open>The three bytes of four values.\<close>

definition octet1 :: "nat \<Rightarrow> nat \<Rightarrow> u8" where
  "octet1 v1 v2 = of_nat (v1 * 4 + v2 div 16)"

definition octet2 :: "nat \<Rightarrow> nat \<Rightarrow> u8" where
  "octet2 v2 v3 = of_nat (v2 mod 16 * 16 + v3 div 4)"

definition octet3 :: "nat \<Rightarrow> nat \<Rightarrow> u8" where
  "octet3 v3 v4 = of_nat (v3 mod 4 * 64 + v4)"

fun decode_groups :: "string \<Rightarrow> bytes option" where
  "decode_groups [] = Some []"
| "decode_groups (c1 # c2 # c3 # c4 # cs) =
     (case (b64_val c1, b64_val c2) of
        (Some v1, Some v2) \<Rightarrow>
          if c3 = CHR ''='' then
            (if c4 = CHR ''='' \<and> cs = [] then Some [octet1 v1 v2] else None)
          else
            (case b64_val c3 of
               None \<Rightarrow> None
             | Some v3 \<Rightarrow>
                 if c4 = CHR ''='' then
                   (if cs = [] then Some [octet1 v1 v2, octet2 v2 v3] else None)
                 else
                   (case (b64_val c4, decode_groups cs) of
                      (Some v4, Some bs) \<Rightarrow>
                        Some ([octet1 v1 v2, octet2 v2 v3, octet3 v3 v4] @ bs)
                    | _ \<Rightarrow> None))
      | _ \<Rightarrow> None)"
| "decode_groups _ = None"

definition line_end :: "char \<Rightarrow> bool" where
  "line_end c \<longleftrightarrow> c = CHR 0x0A \<or> c = CHR 0x0D"

definition DecodeString :: "string \<Rightarrow> string + bytes" where
  "DecodeString s =
     (case decode_groups (filter (\<lambda>c. \<not> line_end c) s) of
        None \<Rightarrow> Inl ''illegal base64 data'' | Some bs \<Rightarrow> Inr bs)"

section \<open>Round trip\<close>

lemma b64_char_val [simp]:
  assumes "n < 64"
  shows "b64_val (b64_char n) = Some n" "b64_char n \<noteq> CHR ''=''" "\<not> line_end (b64_char n)" "\<not> is_space (b64_char n)"
proof -
  define m where "m = (if n < 26 then n + 65 else if n < 52 then n + 71 else if n < 62 then n - 4 else if n = 62 then 43 else 47)"
  have m: "of_char (b64_char n) = m" using assms by (auto simp: b64_char_def m_def)
  then show "b64_val (b64_char n) = Some n" using assms by (auto simp: b64_val_def m_def Let_def split: if_splits)
  have "of_char (b64_char n) \<notin> {61 :: nat, 10, 13, 32} \<and> (of_char (b64_char n) :: nat) > 13"
    using assms by (auto simp: m m_def)
  then show "b64_char n \<noteq> CHR ''=''" "\<not> line_end (b64_char n)" "\<not> is_space (b64_char n)"
    by (auto simp: line_end_def is_space_def Let_def)
qed

lemma byte_less [simp]: "unat (a :: u8) < 256"
  by (rule less_le_trans [OF unsigned_less]) simp

lemma byte_high [simp]:
  "unat (a :: u8) div 4 < 64" "unat a div 16 < 16" "unat a div 64 < 4" "unat a div 16 div 16 = 0" "unat a div 64 div 4 = 0"
  by (simp_all add: less_mult_imp_div_less flip: div_mult2_eq)

lemma byte_parts [simp]:
  "unat (a :: u8) mod 4 * 16 < 64" "unat a mod 16 * 4 < 64"
  "unat a mod 4 * 16 + unat (b :: u8) div 16 < 64" "unat a mod 16 * 4 + unat b div 64 < 64"
proof -
  have "unat a mod 4 < 4" "unat a mod 16 < 16" by simp_all
  moreover have "unat b div 16 < 16" "unat b div 64 < 4" by simp_all
  ultimately show "unat a mod 4 * 16 < 64" "unat a mod 16 * 4 < 64"
    "unat a mod 4 * 16 + unat b div 16 < 64" "unat a mod 16 * 4 + unat b div 64 < 64" by linarith+
qed

lemma octets_join [simp]:
  "octet1 (unat (a :: u8) div 4) (unat a mod 4 * 16 + unat (b :: u8) div 16) = a"
  "octet1 (unat a div 4) (unat a mod 4 * 16) = a"
  "octet2 (unat a mod 4 * 16 + unat b div 16) (unat b mod 16 * 4 + unat (c :: u8) div 64) = b"
  "octet2 (unat a mod 4 * 16 + unat b div 16) (unat b mod 16 * 4) = b"
  "octet3 (unat b mod 16 * 4 + unat c div 64) (unat c mod 64) = c"
proof -
  have "unat a div 4 * 4 + (unat a mod 4 * 16 + unat b div 16) div 16 = unat a"
    "unat a div 4 * 4 + unat a mod 4 * 16 div 16 = unat a"
    "(unat a mod 4 * 16 + unat b div 16) mod 16 * 16 + (unat b mod 16 * 4 + unat c div 64) div 4 = unat b"
    "(unat a mod 4 * 16 + unat b div 16) mod 16 * 16 + unat b mod 16 * 4 div 4 = unat b"
    "(unat b mod 16 * 4 + unat c div 64) mod 4 * 64 + unat c mod 64 = unat c"
    by simp_all
  then show "octet1 (unat a div 4) (unat a mod 4 * 16 + unat b div 16) = a"
    "octet1 (unat a div 4) (unat a mod 4 * 16) = a"
    "octet2 (unat a mod 4 * 16 + unat b div 16) (unat b mod 16 * 4 + unat c div 64) = b"
    "octet2 (unat a mod 4 * 16 + unat b div 16) (unat b mod 16 * 4) = b"
    "octet3 (unat b mod 16 * 4 + unat c div 64) (unat c mod 64) = c"
    unfolding octet1_def octet2_def octet3_def by simp_all
qed

lemma EncodeToString_chars: "c \<in> set (EncodeToString bs) \<Longrightarrow> \<not> line_end c \<and> \<not> is_space c"
  by (induction bs rule: EncodeToString.induct) (auto simp: line_end_def [of "CHR ''=''"] is_space_def [of "CHR ''=''"])

lemma decode_EncodeToString: "decode_groups (EncodeToString bs) = Some bs"
  by (induction bs rule: EncodeToString.induct) (simp_all del: One_nat_def)

lemma base64_round_trip [simp]: "DecodeString (EncodeToString bs) = Inr bs"
proof -
  have "filter (\<lambda>c. \<not> line_end c) (EncodeToString bs) = EncodeToString bs"
    using EncodeToString_chars by (auto intro!: filter_True)
  then show ?thesis by (simp add: DecodeString_def decode_EncodeToString)
qed

lemma EncodeToString_inject: "EncodeToString a = EncodeToString b \<longleftrightarrow> a = b"
  using base64_round_trip by (metis sum.inject(2))

lemma EncodeToString_empty [simp]: "EncodeToString bs = [] \<longleftrightarrow> bs = []"
  by (cases bs rule: EncodeToString.cases) simp_all

lemma TrimSpace_EncodeToString [simp]: "TrimSpace (EncodeToString bs) = EncodeToString bs"
proof -
  have keep: "dropWhile is_space xs = xs" if "\<forall>c \<in> set xs. \<not> is_space c" for xs using that by (cases xs) simp_all
  have "\<forall>c \<in> set (EncodeToString bs). \<not> is_space c" using EncodeToString_chars by blast
  with keep [of "EncodeToString bs"] keep [of "rev (EncodeToString bs)"] show ?thesis by (simp add: TrimSpace_def)
qed

end
