(* ===== verification/Mesh_Pki.thy ===== *)
theory Mesh_Pki
  imports Go_Base64
begin

text \<open>
  Certificates: the authority of the mesh (\<^verbatim>\<open>pkg/pki/pki.go\<close>), its HTTP interface
  (\<^verbatim>\<open>cmd/meshpki/main.go\<close>) and the TLS configurations (\<^verbatim>\<open>pkg/tls/tls.go\<close>). Keys, randomness, X.509 and files
  are arguments; the templates, the guards and the replies are the code's.
\<close>

section \<open>Certificates\<close>

datatype key_usage = KeyUsageCertSign | KeyUsageCRLSign | KeyUsageDigitalSignature | KeyUsageKeyEncipherment

datatype ext_usage = ExtKeyUsageServerAuth | ExtKeyUsageClientAuth

record template =
  SerialNumber :: int
  CommonName :: string
  Organization :: "string list"
  NotBefore :: time
  NotAfter :: time
  KeyUsage :: "key_usage list"
  ExtKeyUsage :: "ext_usage list"
  IsCA :: bool
  BasicConstraintsValid :: bool

text \<open>
  A parsed certificate: its fields, the name of the issuer, the key it certifies and the key that signed
  it. A private key stands for the pair.
\<close>

record 'k certificate =
  c_fields :: template
  c_Issuer :: "string \<times> string list"
  c_key :: 'k
  c_signer :: 'k
  c_Raw :: bytes

text \<open>
  The packages \<^verbatim>\<open>ecdsa\<close>, \<^verbatim>\<open>rand\<close> and \<^verbatim>\<open>x509\<close>, and the decoding of PEM; the draws of an operation are numbered.
\<close>

record 'k x509 =
  x_GenerateKey :: "nat \<Rightarrow> string + 'k"
  x_Serial :: "nat \<Rightarrow> string + int"
  x_Create :: "template \<Rightarrow> template \<Rightarrow> 'k \<Rightarrow> 'k \<Rightarrow> string + bytes"
  x_Parse :: "bytes \<Rightarrow> string + 'k certificate"
  x_MarshalEC :: "'k \<Rightarrow> string + bytes"
  x_Verify :: "'k certificate \<Rightarrow> 'k certificate list \<Rightarrow> time \<Rightarrow> ext_usage list \<Rightarrow> string option"
  x_pemDecode :: "string \<Rightarrow> (string \<times> bytes) option"

text \<open>\<^verbatim>\<open>pem.EncodeToMemory\<close> of a block without headers: lines of 64 characters between the marks
  (as many rounds as there are characters are enough).\<close>

fun pem_lines :: "nat \<Rightarrow> string \<Rightarrow> string" where
  "pem_lines 0 s = []"
| "pem_lines (Suc n) s = (if s = [] then [] else take 64 s @ [CHR 0x0A] @ pem_lines n (drop 64 s))"

definition pem_encode :: "string \<Rightarrow> bytes \<Rightarrow> string" where
  "pem_encode typ der =
     ''-----BEGIN '' @ typ @ ''-----'' @ [CHR 0x0A] @ pem_lines (length (EncodeToString der)) (EncodeToString der)
       @ ''-----END '' @ typ @ ''-----'' @ [CHR 0x0A]"

section \<open>The authority\<close>

record 'k CA =
  ca_Cert :: "'k certificate"
  ca_PrivateKey :: 'k

definition NewCA :: "'k x509 \<Rightarrow> nat \<Rightarrow> time \<Rightarrow> string \<Rightarrow> duration \<Rightarrow> string + 'k CA" where
  "NewCA x n now cn validity =
     (case x_GenerateKey x n of
        Inl err \<Rightarrow> Inl err
      | Inr priv \<Rightarrow>
          (case x_Serial x n of
             Inl err \<Rightarrow> Inl err
           | Inr serial \<Rightarrow>
               let template = \<lparr>SerialNumber = serial, CommonName = cn, Organization = [''MeshCA''], NotBefore = now,
                               NotAfter = now + validity, KeyUsage = [KeyUsageCertSign, KeyUsageCRLSign],
                               ExtKeyUsage = [ExtKeyUsageServerAuth, ExtKeyUsageClientAuth], IsCA = True,
                               BasicConstraintsValid = True\<rparr>
               in case x_Create x template template priv priv of
                    Inl err \<Rightarrow> Inl err
                  | Inr derBytes \<Rightarrow>
                      (case x_Parse x derBytes of
                         Inl err \<Rightarrow> Inl err
                       | Inr cert \<Rightarrow> Inr \<lparr>ca_Cert = cert, ca_PrivateKey = priv\<rparr>)))"

definition SignNodeCert :: "'k x509 \<Rightarrow> nat \<Rightarrow> time \<Rightarrow> 'k CA \<Rightarrow> string \<Rightarrow> duration \<Rightarrow> string + string \<times> string" where
  "SignNodeCert x n now ca cn validity =
     (case x_GenerateKey x n of
        Inl err \<Rightarrow> Inl err
      | Inr priv \<Rightarrow>
          (case x_Serial x n of
             Inl err \<Rightarrow> Inl err
           | Inr serial \<Rightarrow>
               let template = \<lparr>SerialNumber = serial, CommonName = cn, Organization = [''MeshNode''], NotBefore = now,
                               NotAfter = now + validity, KeyUsage = [KeyUsageDigitalSignature, KeyUsageKeyEncipherment],
                               ExtKeyUsage = [ExtKeyUsageServerAuth, ExtKeyUsageClientAuth], IsCA = False,
                               BasicConstraintsValid = False\<rparr>
               in case x_Create x template (c_fields (ca_Cert ca)) priv (ca_PrivateKey ca) of
                    Inl err \<Rightarrow> Inl err
                  | Inr derBytes \<Rightarrow>
                      let certPEM = pem_encode ''CERTIFICATE'' derBytes
                      in case x_MarshalEC x priv of
                           Inl err \<Rightarrow> Inl err
                         | Inr keyBytes \<Rightarrow> Inr (certPEM, pem_encode ''EC PRIVATE KEY'' keyBytes)))"

definition ParseCABundle :: "(string \<Rightarrow> 'k certificate list) \<Rightarrow> string \<Rightarrow> string + 'k certificate list" where
  "ParseCABundle certs bundle =
     (let pool = certs bundle in if pool = [] then Inl ''no valid certificates in CA bundle'' else Inr pool)"

definition VerifyNodeCert :: "'k x509 \<Rightarrow> time \<Rightarrow> string \<Rightarrow> 'k certificate list \<Rightarrow> string option" where
  "VerifyNodeCert x now certPEM caPool =
     (case x_pemDecode x certPEM of
        None \<Rightarrow> Some ''invalid PEM certificate''
      | Some (typ, der) \<Rightarrow>
          if typ \<noteq> ''CERTIFICATE'' then Some ''invalid PEM certificate''
          else case x_Parse x der of
            Inl err \<Rightarrow> Some err
          | Inr cert \<Rightarrow> x_Verify x cert caPool now [ExtKeyUsageClientAuth, ExtKeyUsageServerAuth])"

section \<open>The signing server\<close>

record pki_reply =
  pr_Code :: int
  pr_ContentType :: string
  pr_Body :: string

definition pki_error :: "string \<Rightarrow> int \<Rightarrow> pki_reply" where
  "pki_error msg code = \<lparr>pr_Code = code, pr_ContentType = ''text/plain; charset=utf-8'', pr_Body = msg @ [CHR 0x0A]\<rparr>"

definition hour :: duration where "hour = 3600 * second"

definition sign_handler :: "'k x509 \<Rightarrow> nat \<Rightarrow> time \<Rightarrow> 'k CA \<Rightarrow> string \<Rightarrow> string \<Rightarrow> pki_reply" where
  "sign_handler x n now ca meth nodeID =
     (if meth \<noteq> ''POST'' then pki_error ''Method not allowed'' 405
      else if nodeID = [] then pki_error ''node_id required'' 400
      else case SignNodeCert x n now ca nodeID (365 * 24 * hour) of
        Inl err \<Rightarrow> pki_error ''Internal server error'' 500
      | Inr (cert, key) \<Rightarrow>
          \<lparr>pr_Code = 200, pr_ContentType = ''application/json'',
           pr_Body = ''{\"cert\":\"'' @ cert @ ''\",\"key\":\"'' @ key @ ''\"}''\<rparr>)"

definition ca_handler :: "('k certificate \<Rightarrow> string) \<Rightarrow> 'k CA \<Rightarrow> pki_reply" where
  "ca_handler raw ca =
     \<lparr>pr_Code = 200, pr_ContentType = ''application/x-pem-file'', pr_Body = raw (ca_Cert ca)\<rparr>"

text \<open>
  \<^verbatim>\<open>main\<close>: the authority for ten years and the address to listen on; \<open>port\<close> is the environment variable, empty when it
  is not set. The server handles \<^verbatim>\<open>/sign\<close> and \<^verbatim>\<open>/ca\<close>.
\<close>

definition pki_main :: "'k x509 \<Rightarrow> nat \<Rightarrow> time \<Rightarrow> string \<Rightarrow> string + 'k CA \<times> string" where
  "pki_main x n now port =
     (let port = (if port = [] then ''8443'' else port)
      in case NewCA x n now ''MeshCA'' (10 * 365 * 24 * hour) of
           Inl err \<Rightarrow> Inl (''Failed to create CA: '' @ err)
         | Inr ca \<Rightarrow> Inr (ca, '':'' @ port))"

definition pki_serve ::
    "'k x509 \<Rightarrow> ('k certificate \<Rightarrow> string) \<Rightarrow> nat \<Rightarrow> time \<Rightarrow> 'k CA \<Rightarrow> string \<Rightarrow> string \<Rightarrow> string \<Rightarrow> pki_reply" where
  "pki_serve x raw n now ca path meth nodeID =
     (if path = ''/sign'' then sign_handler x n now ca meth nodeID
      else if path = ''/ca'' then ca_handler raw ca
      else pki_error ''404 page not found'' 404)"

section \<open>Laws of X.509\<close>

text \<open>Certificates keep whole seconds.\<close>

definition secs :: "time \<Rightarrow> time" where
  "secs t = t div second * second"

definition parse_law :: "'k x509 \<Rightarrow> bool" where
  "parse_law x \<longleftrightarrow>
     (\<forall>t parent k signer der. x_Create x t parent k signer = Inr der \<longrightarrow>
        (\<exists>c. x_Parse x der = Inr c \<and> c_key c = k \<and> c_signer c = signer \<and> c_Issuer c = (CommonName parent, Organization parent)
           \<and> c_fields c = t\<lparr>NotBefore := secs (NotBefore t), NotAfter := secs (NotAfter t)\<rparr>)
        \<and> x_pemDecode x (pem_encode ''CERTIFICATE'' der) = Some (''CERTIFICATE'', der))"

definition valid_at :: "time \<Rightarrow> 'k certificate \<Rightarrow> bool" where
  "valid_at now c \<longleftrightarrow> NotBefore (c_fields c) \<le> now \<and> now \<le> NotAfter (c_fields c)"

text \<open>
  Verification of a certificate against a pool of roots it is not one of: it is valid now and was
  issued and signed by a root that is valid now, is an authority and may sign certificates, and one
  of the usages asked for is granted by both.
\<close>

definition verify_law :: "'k x509 \<Rightarrow> bool" where
  "verify_law x \<longleftrightarrow>
     (\<forall>c pool now usages. c \<notin> set pool \<longrightarrow> (x_Verify x c pool now usages = None \<longleftrightarrow>
        valid_at now c \<and>
        (\<exists>root \<in> set pool. c_signer c = c_key root \<and> c_Issuer c = (CommonName (c_fields root), Organization (c_fields root))
           \<and> valid_at now root \<and> IsCA (c_fields root)
           \<and> BasicConstraintsValid (c_fields root) \<and> KeyUsageCertSign \<in> set (KeyUsage (c_fields root))
           \<and> (\<exists>u \<in> set usages. u \<in> set (ExtKeyUsage (c_fields c)) \<and> u \<in> set (ExtKeyUsage (c_fields root))))))"

section \<open>Facts\<close>

lemma NewCA_fields:
  assumes "parse_law x" and "NewCA x n now cn validity = Inr ca"
  shows "c_key (ca_Cert ca) = ca_PrivateKey ca" "IsCA (c_fields (ca_Cert ca))" "BasicConstraintsValid (c_fields (ca_Cert ca))"
    "KeyUsageCertSign \<in> set (KeyUsage (c_fields (ca_Cert ca)))"
    "set (ExtKeyUsage (c_fields (ca_Cert ca))) = {ExtKeyUsageServerAuth, ExtKeyUsageClientAuth}"
    "NotBefore (c_fields (ca_Cert ca)) = secs now" "NotAfter (c_fields (ca_Cert ca)) = secs (now + validity)"
proof -
  obtain t priv der cert where create: "x_Create x t t priv priv = Inr der" "x_Parse x der = Inr cert"
      "ca = \<lparr>ca_Cert = cert, ca_PrivateKey = priv\<rparr>"
    and t: "IsCA t" "BasicConstraintsValid t" "KeyUsage t = [KeyUsageCertSign, KeyUsageCRLSign]"
      "ExtKeyUsage t = [ExtKeyUsageServerAuth, ExtKeyUsageClientAuth]" "NotBefore t = now" "NotAfter t = now + validity"
    using assms(2) by (auto simp: NewCA_def Let_def split: sum.splits)
  then have "c_key cert = priv" "c_fields cert = t\<lparr>NotBefore := secs (NotBefore t), NotAfter := secs (NotAfter t)\<rparr>"
    using assms(1) unfolding parse_law_def by fastforce+
  then show "c_key (ca_Cert ca) = ca_PrivateKey ca" "IsCA (c_fields (ca_Cert ca))" "BasicConstraintsValid (c_fields (ca_Cert ca))"
    "KeyUsageCertSign \<in> set (KeyUsage (c_fields (ca_Cert ca)))"
    "set (ExtKeyUsage (c_fields (ca_Cert ca))) = {ExtKeyUsageServerAuth, ExtKeyUsageClientAuth}"
    "NotBefore (c_fields (ca_Cert ca)) = secs now" "NotAfter (c_fields (ca_Cert ca)) = secs (now + validity)"
    using create(3) t by simp_all
qed

lemma SignNodeCert_fields:
  assumes "parse_law x" and "SignNodeCert x n now ca cn validity = Inr (cert, key)"
  obtains der c where "x_pemDecode x cert = Some (''CERTIFICATE'', der)" and "x_Parse x der = Inr c"
    and "c_signer c = ca_PrivateKey ca" and "c_Issuer c = (CommonName (c_fields (ca_Cert ca)), Organization (c_fields (ca_Cert ca)))"
    and "\<not> IsCA (c_fields c)" and "CommonName (c_fields c) = cn"
    and "set (ExtKeyUsage (c_fields c)) = {ExtKeyUsageServerAuth, ExtKeyUsageClientAuth}"
    and "NotBefore (c_fields c) = secs now" and "NotAfter (c_fields c) = secs (now + validity)"
proof -
  obtain t priv der where create: "x_Create x t (c_fields (ca_Cert ca)) priv (ca_PrivateKey ca) = Inr der"
      "cert = pem_encode ''CERTIFICATE'' der"
    and t: "\<not> IsCA t" "CommonName t = cn" "ExtKeyUsage t = [ExtKeyUsageServerAuth, ExtKeyUsageClientAuth]"
      "NotBefore t = now" "NotAfter t = now + validity"
    using assms(2) by (auto simp: SignNodeCert_def Let_def split: sum.splits)
  obtain c where c: "x_Parse x der = Inr c" "c_signer c = ca_PrivateKey ca"
    "c_Issuer c = (CommonName (c_fields (ca_Cert ca)), Organization (c_fields (ca_Cert ca)))"
    "c_fields c = t\<lparr>NotBefore := secs (NotBefore t), NotAfter := secs (NotAfter t)\<rparr>"
    using assms(1) create(1) unfolding parse_law_def by metis
  moreover have "x_pemDecode x cert = Some (''CERTIFICATE'', der)"
    using assms(1) create unfolding parse_law_def by blast
  ultimately show ?thesis using that [of der c] t by simp
qed

section \<open>Properties\<close>

text \<open>
  C36. A node certificate is good exactly in its time. A certificate that an authority issues verifies
  against that authority from the second it was issued until, to the second, the certificate or the
  authority expires, and at no other time; against an authority with another key it never does.
\<close>

theorem node_cert_verifies:
  assumes "parse_law x" and "verify_law x" and "NewCA x n t0 cn0 v0 = Inr ca"
    and "SignNodeCert x m t1 ca cn v1 = Inr (cert, key)" and "NewCA x k t2 cn2 v2 = Inr ca2"
    and "ca_PrivateKey ca2 \<noteq> ca_PrivateKey ca"
  shows "(VerifyNodeCert x now cert [ca_Cert ca] = None \<longleftrightarrow>
      secs t1 \<le> now \<and> now \<le> secs (t1 + v1) \<and> secs t0 \<le> now \<and> now \<le> secs (t0 + v0))
    \<and> VerifyNodeCert x now cert [ca_Cert ca2] \<noteq> None"
proof (rule SignNodeCert_fields [OF assms(1,4)])
  fix der c
  assume c: "x_pemDecode x cert = Some (''CERTIFICATE'', der)" "x_Parse x der = Inr c"
    "c_signer c = ca_PrivateKey ca" "c_Issuer c = (CommonName (c_fields (ca_Cert ca)), Organization (c_fields (ca_Cert ca)))"
    "\<not> IsCA (c_fields c)" "set (ExtKeyUsage (c_fields c)) = {ExtKeyUsageServerAuth, ExtKeyUsageClientAuth}"
    "NotBefore (c_fields c) = secs t1" "NotAfter (c_fields c) = secs (t1 + v1)"
  note f = NewCA_fields [OF assms(1,3)] and f2 = NewCA_fields [OF assms(1,5)]
  have law: "x_Verify x c [r] now us = None \<longleftrightarrow> valid_at now c \<and> c_signer c = c_key r
      \<and> c_Issuer c = (CommonName (c_fields r), Organization (c_fields r)) \<and> valid_at now r \<and> IsCA (c_fields r)
      \<and> BasicConstraintsValid (c_fields r) \<and> KeyUsageCertSign \<in> set (KeyUsage (c_fields r))
      \<and> (\<exists>u \<in> set us. u \<in> set (ExtKeyUsage (c_fields c)) \<and> u \<in> set (ExtKeyUsage (c_fields r)))" if "IsCA (c_fields r)" for r us
  proof -
    have "c \<notin> set [r]" using that c(5) by auto
    with assms(2) show ?thesis unfolding verify_law_def by force
  qed
  have "VerifyNodeCert x now cert [r] = x_Verify x c [r] now [ExtKeyUsageClientAuth, ExtKeyUsageServerAuth]" for r
    by (simp add: VerifyNodeCert_def c(1,2))
  then show ?thesis
    using c(3-) f f2(1,2) assms(6) by (auto simp: law valid_at_def)
qed

text \<open>Two authorities and a node, over numbers as keys.\<close>

definition demo_ca_fields :: template where
  "demo_ca_fields = \<lparr>SerialNumber = 1, CommonName = ''ca'', Organization = [''MeshCA''], NotBefore = 0, NotAfter = 10 * second,
     KeyUsage = [KeyUsageCertSign, KeyUsageCRLSign], ExtKeyUsage = [ExtKeyUsageServerAuth, ExtKeyUsageClientAuth],
     IsCA = True, BasicConstraintsValid = True\<rparr>"

definition demo_node_fields :: template where
  "demo_node_fields = \<lparr>SerialNumber = 1, CommonName = ''node'', Organization = [''MeshNode''], NotBefore = 2 * second,
     NotAfter = 30 * second, KeyUsage = [KeyUsageDigitalSignature, KeyUsageKeyEncipherment],
     ExtKeyUsage = [ExtKeyUsageServerAuth, ExtKeyUsageClientAuth], IsCA = False, BasicConstraintsValid = False\<rparr>"

definition demo_cert :: "nat \<Rightarrow> nat certificate" where
  "demo_cert n = \<lparr>c_fields = (if n = 3 then demo_node_fields else demo_ca_fields), c_Issuer = (''ca'', [''MeshCA'']),
     c_key = n, c_signer = (if n = 3 then 1 else n), c_Raw = [of_nat n]\<rparr>"

definition demo_x509 :: "nat x509" where
  "demo_x509 = \<lparr>x_GenerateKey = Inr, x_Serial = (\<lambda>_. Inr 1),
     x_Create = (\<lambda>t parent k signer.
       if parent = demo_ca_fields \<and> ((k = 1 \<or> k = 2) \<and> signer = k \<and> t = demo_ca_fields \<or> k = 3 \<and> signer = 1 \<and> t = demo_node_fields)
       then Inr [of_nat k] else Inl ''unsupported''),
     x_Parse = (\<lambda>der. if der = [1] then Inr (demo_cert 1) else if der = [2] then Inr (demo_cert 2)
       else if der = [3] then Inr (demo_cert 3) else Inl ''bad certificate''),
     x_MarshalEC = (\<lambda>k. Inr [of_nat k]),
     x_Verify = (\<lambda>c pool now usages. if valid_at now c \<and>
        (\<exists>root \<in> set pool. c_signer c = c_key root \<and> c_Issuer c = (CommonName (c_fields root), Organization (c_fields root))
           \<and> valid_at now root \<and> IsCA (c_fields root)
           \<and> BasicConstraintsValid (c_fields root) \<and> KeyUsageCertSign \<in> set (KeyUsage (c_fields root))
           \<and> (\<exists>u \<in> set usages. u \<in> set (ExtKeyUsage (c_fields c)) \<and> u \<in> set (ExtKeyUsage (c_fields root)))) then None else Some ''bad''),
     x_pemDecode = (\<lambda>s. case DecodeString (take 4 (drop 28 s)) of Inl _ \<Rightarrow> None | Inr der \<Rightarrow> Some (''CERTIFICATE'', der))\<rparr>"

lemma demo_secs [simp]: "secs 0 = 0" "secs (k * second) = k * second"
  by (simp_all add: secs_def second_def)

lemma demo_x509_laws: "parse_law demo_x509" "verify_law demo_x509"
proof -
  have "x_pemDecode demo_x509 (pem_encode ''CERTIFICATE'' [b]) = Some (''CERTIFICATE'', [b])" for b
  proof -
    have "take 4 (drop 28 (pem_encode ''CERTIFICATE'' [b])) = EncodeToString [b]" by (simp add: pem_encode_def)
    then show ?thesis by (simp add: demo_x509_def del: EncodeToString.simps)
  qed
  moreover have "secs (10 * second) = 10 * second" "secs (2 * second) = 2 * second" "secs (30 * second) = 30 * second" by simp_all
  ultimately show "parse_law demo_x509"
    unfolding parse_law_def
    by (auto simp: demo_x509_def demo_cert_def demo_ca_fields_def demo_node_fields_def split: if_splits)
  show "verify_law demo_x509" by (simp add: verify_law_def demo_x509_def)
qed

lemma demo_NewCA:
  "k \<in> {1, 2} \<Longrightarrow> NewCA demo_x509 k 0 ''ca'' (10 * second) = Inr \<lparr>ca_Cert = demo_cert k, ca_PrivateKey = k\<rparr>"
  by (auto simp: NewCA_def demo_x509_def demo_ca_fields_def)

lemma demo_Sign:
  "\<exists>cert key. SignNodeCert demo_x509 3 (2 * second) \<lparr>ca_Cert = demo_cert 1, ca_PrivateKey = 1\<rparr> ''node'' (28 * second) = Inr (cert, key)"
  by (simp add: SignNodeCert_def demo_x509_def demo_cert_def demo_node_fields_def)

theorem node_cert_verifies_witness:
  "\<exists>cert key. SignNodeCert demo_x509 3 (2 * second) \<lparr>ca_Cert = demo_cert 1, ca_PrivateKey = 1\<rparr> ''node'' (28 * second) = Inr (cert, key)
     \<and> VerifyNodeCert demo_x509 (5 * second) cert [demo_cert 1] = None
     \<and> VerifyNodeCert demo_x509 (20 * second) cert [demo_cert 1] \<noteq> None
     \<and> VerifyNodeCert demo_x509 (5 * second) cert [demo_cert 2] \<noteq> None"
proof -
  obtain cert key where sign: "SignNodeCert demo_x509 3 (2 * second) \<lparr>ca_Cert = demo_cert 1, ca_PrivateKey = 1\<rparr> ''node'' (28 * second) = Inr (cert, key)"
    using demo_Sign by blast
  have "VerifyNodeCert demo_x509 (5 * second) cert [demo_cert 1] = None
     \<and> VerifyNodeCert demo_x509 (20 * second) cert [demo_cert 1] \<noteq> None
     \<and> VerifyNodeCert demo_x509 (5 * second) cert [demo_cert 2] \<noteq> None"
    using node_cert_verifies [OF demo_x509_laws demo_NewCA [of 1] sign demo_NewCA [of 2]]
    by (simp add: secs_def second_def)
  with sign show ?thesis by blast
qed

definition json_char :: "char \<Rightarrow> bool" where
  "json_char c \<longleftrightarrow> of_char c \<ge> (32 :: nat) \<and> c \<noteq> CHR 0x22 \<and> c \<noteq> CHR 0x5C"

text \<open>
  The signing server's reply is not JSON. Every successful reply carries the certificate between
  quotes as it is, so the first line end of the certificate stands unescaped in a JSON string.
\<close>

theorem sign_reply_not_json:
  assumes "meth = ''POST''" and "nodeID \<noteq> []" and "SignNodeCert x n now ca nodeID (365 * 24 * hour) = Inr (cert, key)"
  shows "\<exists>pre c post. pr_Body (sign_handler x n now ca meth nodeID) = ''{\"cert\":\"'' @ pre @ c # post
    \<and> list_all json_char pre \<and> \<not> json_char c \<and> c \<noteq> CHR 0x22 \<and> c \<noteq> CHR 0x5C"
proof -
  obtain der where "cert = pem_encode ''CERTIFICATE'' der"
    using assms(3) by (auto simp: SignNodeCert_def Let_def split: sum.splits)
  then obtain post where "cert = ''-----BEGIN CERTIFICATE-----'' @ CHR 0x0A # post" by (simp add: pem_encode_def)
  moreover have "list_all json_char ''-----BEGIN CERTIFICATE-----''" "\<not> json_char (CHR 0x0A)"
    by (simp_all add: json_char_def)
  ultimately show ?thesis
    using assms by (intro exI [of _ "''-----BEGIN CERTIFICATE-----''"] exI [of _ "CHR 0x0A"]
        exI [of _ "post @ ''\",\"key\":\"'' @ key @ ''\"}''"]) (simp add: sign_handler_def)
qed

theorem sign_reply_not_json_witness:
  "\<exists>n pre c post. pr_Body (sign_handler (demo_x509\<lparr>x_Create := (\<lambda>_ _ _ _. Inr [3])\<rparr>) n 0 \<lparr>ca_Cert = demo_cert 1, ca_PrivateKey = 1\<rparr> ''POST'' ''node'')
     = ''{\"cert\":\"'' @ pre @ c # post \<and> list_all json_char pre \<and> \<not> json_char c"
proof -
  let ?x = "demo_x509\<lparr>x_Create := (\<lambda>_ _ _ _. Inr [3])\<rparr>"
  obtain cert key where "SignNodeCert ?x 3 0 \<lparr>ca_Cert = demo_cert 1, ca_PrivateKey = 1\<rparr> ''node'' (365 * 24 * hour) = Inr (cert, key)"
    by (simp add: SignNodeCert_def demo_x509_def)
  from sign_reply_not_json [OF refl _ this] show ?thesis by blast
qed

section \<open>TLS configurations\<close>

record ACMEConfig =
  am_Email :: string
  am_Domains :: "string list"
  am_CacheDir :: string
  am_RenewBefore :: duration
  am_Staging :: bool

definition DefaultACMEConfig :: ACMEConfig where
  "DefaultACMEConfig =
     \<lparr>am_Email = [], am_Domains = [], am_CacheDir = ''/var/lib/mesh/acme'', am_RenewBefore = 30 * 24 * hour, am_Staging = False\<rparr>"

datatype client_auth = NoClientCert | VerifyClientCertIfGiven | RequireAndVerifyClientCert

text \<open>
  A configuration over a type of certificates and of pools. Versions and cipher suites are 16-bit
  numbers, renegotiation levels integers (\<^verbatim>\<open>RenegotiateNever\<close> is 0).
\<close>

record ('c, 'p) tls_Config =
  tc_Certificates :: "'c list"
  tc_MinVersion :: "16 word"
  tc_MaxVersion :: "16 word"
  tc_CipherSuites :: "16 word list"
  tc_Renegotiation :: int
  tc_RootCAs :: "'p option"
  tc_ClientCAs :: "'p option"
  tc_ClientAuth :: client_auth
  tc_InsecureSkipVerify :: bool

definition VersionTLS12 :: "16 word" where "VersionTLS12 = 0x0303"

record ('c, 'p) tls_env =
  te_ReadFile :: "string \<Rightarrow> string + bytes"
  te_AppendCertsFromPEM :: "bytes \<Rightarrow> 'p option"
  te_LoadX509KeyPair :: "string \<Rightarrow> string \<Rightarrow> string + 'c"

record ClientConfig =
  cl_RootCAFile :: string
  cl_ClientCertFile :: string
  cl_ClientKeyFile :: string
  cl_InsecureSkipVerify :: bool
  cl_MinVersion :: "16 word"

definition empty_tls :: "('c, 'p) tls_Config" where
  "empty_tls = \<lparr>tc_Certificates = [], tc_MinVersion = 0, tc_MaxVersion = 0, tc_CipherSuites = [], tc_Renegotiation = 0,
     tc_RootCAs = None, tc_ClientCAs = None, tc_ClientAuth = NoClientCert, tc_InsecureSkipVerify = False\<rparr>"

definition BuildClientTLSConfig :: "('c, 'p) tls_env \<Rightarrow> ClientConfig \<Rightarrow> string + ('c, 'p) tls_Config" where
  "BuildClientTLSConfig env cfg =
     (let tc = empty_tls\<lparr>tc_MinVersion := VersionTLS12, tc_InsecureSkipVerify := cl_InsecureSkipVerify cfg\<rparr>;
          tc = (if cl_MinVersion cfg > 0 then tc\<lparr>tc_MinVersion := cl_MinVersion cfg\<rparr> else tc);
          roots = (if cl_RootCAFile cfg \<noteq> []
                   then (case te_ReadFile env (cl_RootCAFile cfg) of
                           Inl err \<Rightarrow> Inl (''tls: read root CA: '' @ err)
                         | Inr caCert \<Rightarrow>
                             (case te_AppendCertsFromPEM env caCert of
                                None \<Rightarrow> Inl ''tls: invalid root CA cert''
                              | Some pool \<Rightarrow> Inr (tc\<lparr>tc_RootCAs := Some pool\<rparr>)))
                   else Inr tc)
      in case roots of
           Inl err \<Rightarrow> Inl err
         | Inr tc \<Rightarrow>
             if cl_ClientCertFile cfg \<noteq> [] \<and> cl_ClientKeyFile cfg \<noteq> []
             then (case te_LoadX509KeyPair env (cl_ClientCertFile cfg) (cl_ClientKeyFile cfg) of
                     Inl err \<Rightarrow> Inl (''tls: load client cert: '' @ err)
                   | Inr cert \<Rightarrow> Inr (tc\<lparr>tc_Certificates := [cert]\<rparr>))
             else Inr tc)"

record ServerConfig =
  sr_CertFile :: string
  sr_KeyFile :: string
  sr_ClientCAFile :: string
  sr_RequireClientCert :: bool
  sr_MinVersion :: "16 word"
  sr_MaxVersion :: "16 word"
  sr_CipherSuites :: "16 word list"
  sr_SessionTicketsOff :: bool
  sr_RenegotiationLevel :: int

definition server_options :: "ServerConfig \<Rightarrow> 'c \<Rightarrow> ('c, 'p) tls_Config" where
  "server_options cfg cert =
     (let tc = empty_tls\<lparr>tc_Certificates := [cert], tc_MinVersion := VersionTLS12, tc_Renegotiation := 0\<rparr>;
          tc = (if sr_MinVersion cfg > 0 then tc\<lparr>tc_MinVersion := sr_MinVersion cfg\<rparr> else tc);
          tc = (if sr_MaxVersion cfg > 0 then tc\<lparr>tc_MaxVersion := sr_MaxVersion cfg\<rparr> else tc);
          tc = (if length (sr_CipherSuites cfg) > 0 then tc\<lparr>tc_CipherSuites := sr_CipherSuites cfg\<rparr> else tc);
          tc = (if sr_RenegotiationLevel cfg \<noteq> 0 then tc\<lparr>tc_Renegotiation := sr_RenegotiationLevel cfg\<rparr> else tc)
      in tc)"

definition BuildServerTLSConfig :: "('c, 'p) tls_env \<Rightarrow> ServerConfig \<Rightarrow> string + ('c, 'p) tls_Config" where
  "BuildServerTLSConfig env cfg =
     (case te_LoadX509KeyPair env (sr_CertFile cfg) (sr_KeyFile cfg) of
        Inl err \<Rightarrow> Inl (''tls: load server cert: '' @ err)
      | Inr cert \<Rightarrow>
          let tc = server_options cfg cert
          in if sr_ClientCAFile cfg \<noteq> []
             then (case te_ReadFile env (sr_ClientCAFile cfg) of
                     Inl err \<Rightarrow> Inl (''tls: read client CA: '' @ err)
                   | Inr caCert \<Rightarrow>
                       (case te_AppendCertsFromPEM env caCert of
                          None \<Rightarrow> Inl ''tls: invalid client CA cert''
                        | Some pool \<Rightarrow>
                            Inr (tc\<lparr>tc_ClientCAs := Some pool,
                                    tc_ClientAuth := (if sr_RequireClientCert cfg then RequireAndVerifyClientCert
                                                      else VerifyClientCertIfGiven)\<rparr>)))
             else Inr tc)"

lemma server_options_fields [simp]:
  "tc_Certificates (server_options cfg cert) = [cert]" "tc_ClientAuth (server_options cfg cert) = NoClientCert"
  "tc_ClientCAs (server_options cfg cert) = None"
  "tc_MinVersion (server_options cfg cert) = (if sr_MinVersion cfg = 0 then VersionTLS12 else sr_MinVersion cfg)"
  by (simp_all add: server_options_def empty_tls_def word_gt_0 Let_def)

text \<open>
  Who must show a certificate. A server configuration has its certificate and at least the version
  configured, TLS 1.2 when none is; clients must show one exactly when it is required and a file of client
  authorities is given: without that file the requirement is dropped in silence and no client is asked.
\<close>

theorem tls_client_auth:
  "case BuildServerTLSConfig env cfg of
     Inl err \<Rightarrow> True
   | Inr tc \<Rightarrow>
       tc_MinVersion tc = (if sr_MinVersion cfg = 0 then VersionTLS12 else sr_MinVersion cfg)
       \<and> length (tc_Certificates tc) = 1
       \<and> (tc_ClientAuth tc = RequireAndVerifyClientCert \<longleftrightarrow> sr_RequireClientCert cfg \<and> sr_ClientCAFile cfg \<noteq> [])
       \<and> (tc_ClientAuth tc = NoClientCert \<longleftrightarrow> sr_ClientCAFile cfg = [])
       \<and> (tc_ClientCAs tc = None \<longleftrightarrow> sr_ClientCAFile cfg = [])"
  by (simp add: BuildServerTLSConfig_def Let_def split: sum.split option.split)

end
