(* ===== verification/Gossip_Service.thy ===== *)
theory Gossip_Service
  imports Registry_Store
begin

text \<open>
  \<^verbatim>\<open>pkg/gossip/service.go\<close>: signed envelopes, the topic validators, the consumer of gossip
  messages, publishing, and the anti-entropy protocol. libp2p, CBOR and the key library are
  arguments (\<open>gossip_env\<close>); the laws the theorems rely on are the named predicates
  \<open>codec_laws\<close> (decoding inverts encoding), \<open>key_laws\<close> (a signature made with the node's key
  verifies under its public key, whose peer identifier is the node's). A peer identifier is a
  string. The transport enters as what it delivers: the bytes of a message with the peer it was
  received from, the response of a peer or nothing. Opening the host, the database and the
  background goroutines is not modelled.
\<close>

section \<open>Data\<close>

definition TopicBackendsMeta :: string where "TopicBackendsMeta = ''mesh/v1/backends/meta''"
definition TopicBackendsMetrics :: string where "TopicBackendsMetrics = ''mesh/v1/backends/metrics''"
definition TopicNodeAdverts :: string where "TopicNodeAdverts = ''mesh/v1/nodes/adverts''"

type_synonym peerID = string

record envelope =
  ev_Topic :: string
  ev_Clock :: u64
  ev_Time :: int
  ev_Payload :: bytes
  ev_PubKey :: bytes
  ev_Signature :: bytes

record signed_env =
  se_Topic :: string
  se_Clock :: u64
  se_Time :: int
  se_Payload :: bytes
  se_PubKey :: bytes

record syncClock =
  sc_Lamport :: u64
  sc_UnixNano :: int

record backendSyncEntry =
  be_ID :: BackendID
  be_Meta :: BackendMeta
  be_Clock :: syncClock
  be_Tomb :: bool

record nodeSyncEntry =
  ne_ID :: NodeID
  ne_Advert :: NodeAdvert
  ne_Clock :: syncClock
  ne_Tomb :: bool

record syncRequest =
  sq_MetaVV :: vv
  sq_NodeVV :: vv

record syncResponse =
  sr_MetaEntries :: "backendSyncEntry list"
  sr_NodeEntries :: "nodeSyncEntry list"
  sr_MetaVV :: vv
  sr_NodeVV :: vv

text \<open>The libraries: codecs (\<open>Inl\<close> is an error) and keys; \<open>own_raw\<close> and \<open>own_sign\<close> are the node's key.\<close>

record 'pk gossip_env =
  marshal_env :: "envelope \<Rightarrow> string + bytes"
  unmarshal_env :: "bytes \<Rightarrow> string + envelope"
  marshal_signed :: "signed_env \<Rightarrow> string + bytes"
  marshal_meta :: "BackendMeta \<Rightarrow> string + bytes"
  unmarshal_meta :: "bytes \<Rightarrow> string + BackendMeta"
  marshal_metrics :: "BackendMetrics \<Rightarrow> string + bytes"
  unmarshal_metrics :: "bytes \<Rightarrow> string + BackendMetrics"
  marshal_advert :: "NodeAdvert \<Rightarrow> string + bytes"
  unmarshal_advert :: "bytes \<Rightarrow> string + NodeAdvert"
  pk_Unmarshal :: "bytes \<Rightarrow> string + 'pk"
  pk_ID :: "'pk \<Rightarrow> string + peerID"
  pk_Verify :: "'pk \<Rightarrow> bytes \<Rightarrow> bytes \<Rightarrow> string + bool"
  own_raw :: "string + bytes"
  own_sign :: "bytes \<Rightarrow> string + bytes"

section \<open>Envelopes\<close>

definition canonicalEnvelope :: "'pk gossip_env \<Rightarrow> envelope \<Rightarrow> string + bytes" where
  "canonicalEnvelope g env =
     marshal_signed g \<lparr>se_Topic = ev_Topic env, se_Clock = ev_Clock env, se_Time = ev_Time env,
       se_Payload = ev_Payload env, se_PubKey = ev_PubKey env\<rparr>"

definition encodeEnvelope ::
    "'pk gossip_env \<Rightarrow> time \<Rightarrow> string \<Rightarrow> bytes \<Rightarrow> u64 \<Rightarrow> string + bytes" where
  "encodeEnvelope g now topic payload clock =
     (case own_raw g of
        Inl err \<Rightarrow> Inl (''envelope: extract public key: '' @ err)
      | Inr pub \<Rightarrow>
          let env = \<lparr>ev_Topic = topic, ev_Clock = clock, ev_Time = Unix now, ev_Payload = payload,
                     ev_PubKey = pub, ev_Signature = []\<rparr>
          in case canonicalEnvelope g env of
               Inl err \<Rightarrow> Inl err
             | Inr toSign \<Rightarrow>
                 (case own_sign g toSign of
                    Inl err \<Rightarrow> Inl (''envelope: sign: '' @ err)
                  | Inr sig \<Rightarrow> marshal_env g (env\<lparr>ev_Signature := sig\<rparr>)))"

definition decodeEnvelope :: "'pk gossip_env \<Rightarrow> bytes \<Rightarrow> string + envelope" where
  "decodeEnvelope g data = unmarshal_env g data"

text \<open>\<open>None\<close> is the nil error: the envelope is accepted.\<close>

definition verifyEnvelope :: "'pk gossip_env \<Rightarrow> peerID \<Rightarrow> envelope \<Rightarrow> string option" where
  "verifyEnvelope g from env =
     (case pk_Unmarshal g (ev_PubKey env) of
        Inl err \<Rightarrow> Some (''envelope: unmarshal pubkey: '' @ err)
      | Inr pub \<Rightarrow>
          (case pk_ID g pub of
             Inl err \<Rightarrow> Some (''envelope: peer id: '' @ err)
           | Inr peerID \<Rightarrow>
               if peerID \<noteq> from
               then Some (''envelope: peer mismatch expected '' @ from @ '' got '' @ peerID)
               else (case canonicalEnvelope g env of
                       Inl err \<Rightarrow> Some err
                     | Inr toVerify \<Rightarrow>
                         (case pk_Verify g pub toVerify (ev_Signature env) of
                            Inl _ \<Rightarrow> Some ''envelope: signature invalid''
                          | Inr ok \<Rightarrow> if \<not> ok then Some ''envelope: signature invalid'' else None))))"

text \<open>The validator of a topic: whether the message is passed on to other peers.\<close>

definition topicValidator :: "'pk gossip_env \<Rightarrow> string \<Rightarrow> peerID \<Rightarrow> bytes \<Rightarrow> bool" where
  "topicValidator g topic from data =
     (case decodeEnvelope g data of
        Inl _ \<Rightarrow> False
      | Inr env \<Rightarrow>
          if ev_Topic env \<noteq> topic then False
          else case verifyEnvelope g from env of Some _ \<Rightarrow> False | None \<Rightarrow> True)"

section \<open>Receiving\<close>

definition handlePayload ::
    "'pk gossip_env \<Rightarrow> reg_env \<Rightarrow> time \<Rightarrow> Store \<Rightarrow> string \<Rightarrow> bytes \<Rightarrow> Store" where
  "handlePayload g renv now s topic payload =
     (if topic = TopicBackendsMeta then
        (case unmarshal_meta g payload of
           Inl _ \<Rightarrow> s | Inr meta \<Rightarrow> fst (ApplyBackendMeta renv s meta))
      else if topic = TopicBackendsMetrics then
        (case unmarshal_metrics g payload of
           Inl _ \<Rightarrow> s | Inr metrics \<Rightarrow> ApplyBackendMetrics now s metrics)
      else if topic = TopicNodeAdverts then
        (case unmarshal_advert g payload of
           Inl _ \<Rightarrow> s | Inr advert \<Rightarrow> fst (ApplyNodeAdvert renv s advert))
      else s)"

text \<open>One turn of the loop of \<^verbatim>\<open>consume\<close> on a message received from a peer.\<close>

definition consume ::
    "'pk gossip_env \<Rightarrow> reg_env \<Rightarrow> time \<Rightarrow> Store \<Rightarrow> string \<Rightarrow> peerID \<Rightarrow> bytes \<Rightarrow> Store" where
  "consume g renv now s topic receivedFrom data =
     (case decodeEnvelope g data of
        Inl _ \<Rightarrow> s
      | Inr env \<Rightarrow>
          if ev_Topic env \<noteq> topic then s
          else case verifyEnvelope g receivedFrom env of
                 Some _ \<Rightarrow> s
               | None \<Rightarrow> handlePayload g renv now s topic (ev_Payload env))"

section \<open>Publishing\<close>

text \<open>\<^verbatim>\<open>Publish\<close>: an error, or the bytes handed to the topic of the joined ones.\<close>

definition Publish ::
    "'pk gossip_env \<Rightarrow> time \<Rightarrow> string list \<Rightarrow> string \<Rightarrow> bytes \<Rightarrow> u64 \<Rightarrow> string + bytes" where
  "Publish g now topics topic payload clock =
     (if topic \<noteq> TopicBackendsMeta \<and> topic \<noteq> TopicBackendsMetrics \<and> topic \<noteq> TopicNodeAdverts
      then Inl (''gossip: unknown topic '' @ topic)
      else case encodeEnvelope g now topic payload clock of
        Inl err \<Rightarrow> Inl err
      | Inr encoded \<Rightarrow>
          if topic \<notin> set topics then Inl (''gossip: topic '' @ topic @ '' not initialised'')
          else Inr encoded)"

definition PublishBackendMeta ::
    "'pk gossip_env \<Rightarrow> reg_env \<Rightarrow> time \<Rightarrow> string list \<Rightarrow> Store \<Rightarrow> BackendMeta \<Rightarrow> Store \<times> (string + bytes)" where
  "PublishBackendMeta g renv now topics s meta =
     (case marshal_meta g meta of
        Inl err \<Rightarrow> (s, Inl err)
      | Inr buf \<Rightarrow> (fst (ApplyBackendMeta renv s meta),
                    Publish g now topics TopicBackendsMeta buf (bm_Clock meta)))"

definition PublishBackendMetrics ::
    "'pk gossip_env \<Rightarrow> time \<Rightarrow> string list \<Rightarrow> Store \<Rightarrow> BackendMetrics \<Rightarrow> Store \<times> (string + bytes)" where
  "PublishBackendMetrics g now topics s metrics =
     (case marshal_metrics g metrics of
        Inl err \<Rightarrow> (s, Inl err)
      | Inr buf \<Rightarrow> (ApplyBackendMetrics now s metrics,
                    Publish g now topics TopicBackendsMetrics buf (of_int (mx_AtUnix metrics))))"

definition PublishNodeAdvert ::
    "'pk gossip_env \<Rightarrow> reg_env \<Rightarrow> time \<Rightarrow> string list \<Rightarrow> Store \<Rightarrow> NodeAdvert \<Rightarrow> Store \<times> (string + bytes)" where
  "PublishNodeAdvert g renv now topics s advert =
     (case marshal_advert g advert of
        Inl err \<Rightarrow> (s, Inl err)
      | Inr buf \<Rightarrow> (fst (ApplyNodeAdvert renv s advert),
                    Publish g now topics TopicNodeAdverts buf (na_Clock advert)))"

section \<open>Anti-entropy\<close>

definition zero_meta :: BackendMeta where
  "zero_meta = \<lparr>bm_ID = [], bm_Host = [], bm_IPs = [], bm_Country = [], bm_Region = [], bm_ChainID = [],
     bm_Caps = [], bm_Archival = False, bm_OwnerPK = [], bm_AddedAt = 0, bm_Sig = [], bm_Clock = 0\<rparr>"

definition zero_advert :: NodeAdvert where
  "zero_advert = \<lparr>na_ID = [], na_NSServing = False, na_IPs = [], na_Country = [], na_Region = [],
     na_AtUnix = 0, na_PubKey = [], na_Sig = [], na_Clock = 0\<rparr>"

definition toBackendSyncEntries :: "(BackendID, BackendMeta Entry) gomap \<Rightarrow> backendSyncEntry list" where
  "toBackendSyncEntries entries =
     map (\<lambda>(i, entry).
        let record = \<lparr>be_ID = i, be_Meta = zero_meta,
              be_Clock = \<lparr>sc_Lamport = Lamport (Clk entry), sc_UnixNano = Nano (Clk entry)\<rparr>,
              be_Tomb = Tombstone entry\<rparr>
        in if \<not> Tombstone entry then record\<lparr>be_Meta := Value entry\<rparr> else record) entries"

definition toNodeSyncEntries :: "(NodeID, NodeAdvert Entry) gomap \<Rightarrow> nodeSyncEntry list" where
  "toNodeSyncEntries entries =
     map (\<lambda>(i, entry).
        let record = \<lparr>ne_ID = i, ne_Advert = zero_advert,
              ne_Clock = \<lparr>sc_Lamport = Lamport (Clk entry), sc_UnixNano = Nano (Clk entry)\<rparr>,
              ne_Tomb = Tombstone entry\<rparr>
        in if \<not> Tombstone entry then record\<lparr>ne_Advert := Value entry\<rparr> else record) entries"

definition fromBackendSyncEntries :: "backendSyncEntry list \<Rightarrow> (BackendID, BackendMeta Entry) gomap" where
  "fromBackendSyncEntries entries =
     foldl (\<lambda>out entry.
        let value = \<lparr>Value = zero_meta,
              Clk = Clock (sc_Lamport (be_Clock entry)) (sc_UnixNano (be_Clock entry)),
              Tombstone = be_Tomb entry\<rparr>
        in go_set out (be_ID entry)
             (if \<not> be_Tomb entry then value\<lparr>Value := be_Meta entry\<rparr> else value)) [] entries"

definition fromNodeSyncEntries :: "nodeSyncEntry list \<Rightarrow> (NodeID, NodeAdvert Entry) gomap" where
  "fromNodeSyncEntries entries =
     foldl (\<lambda>out entry.
        let value = \<lparr>Value = zero_advert,
              Clk = Clock (sc_Lamport (ne_Clock entry)) (sc_UnixNano (ne_Clock entry)),
              Tombstone = ne_Tomb entry\<rparr>
        in go_set out (ne_ID entry)
             (if \<not> ne_Tomb entry then value\<lparr>Value := ne_Advert entry\<rparr> else value)) [] entries"

definition mergeSyncResponse :: "Store \<Rightarrow> syncResponse \<Rightarrow> Store" where
  "mergeSyncResponse s resp =
     (let s1 = (if sr_MetaEntries resp \<noteq> []
                then MergeBackendDelta s (fromBackendSyncEntries (sr_MetaEntries resp)) (sr_MetaVV resp)
                else s)
      in if sr_NodeEntries resp \<noteq> []
         then MergeNodeDelta s1 (fromNodeSyncEntries (sr_NodeEntries resp)) (sr_NodeVV resp)
         else s1)"

text \<open>The answer of \<^verbatim>\<open>handleSyncStream\<close> to a request that could be decoded; it ignores the request's
  vectors and sends everything.\<close>

definition handleSyncStream :: "Store \<Rightarrow> syncRequest \<Rightarrow> syncResponse" where
  "handleSyncStream s req =
     (let (metaSnapshot, metaVV) = BackendSnapshot s;
          (nodeSnapshot, nodeVV) = NodeSnapshot s
      in \<lparr>sr_MetaEntries = toBackendSyncEntries metaSnapshot,
          sr_NodeEntries = toNodeSyncEntries nodeSnapshot,
          sr_MetaVV = metaVV, sr_NodeVV = nodeVV\<rparr>)"

definition syncRequestOf :: "Store \<Rightarrow> syncRequest" where
  "syncRequestOf s = \<lparr>sq_MetaVV = BackendVersionVector s, sq_NodeVV = NodeVersionVector s\<rparr>"

text \<open>\<^verbatim>\<open>syncWithPeer\<close> over a stream: what comes back for the request, or an error.\<close>

definition syncWithPeer :: "(syncRequest \<Rightarrow> string + syncResponse) \<Rightarrow> Store \<Rightarrow> Store \<times> string option" where
  "syncWithPeer stream s =
     (case stream (syncRequestOf s) of
        Inl err \<Rightarrow> (s, Some err)
      | Inr response \<Rightarrow> (mergeSyncResponse s response, None))"

definition runSyncRound ::
    "peerID \<Rightarrow> (peerID \<times> (syncRequest \<Rightarrow> string + syncResponse)) list \<Rightarrow> Store \<Rightarrow> Store" where
  "runSyncRound own peers s =
     foldl (\<lambda>s (pid, stream). if pid = own then s else fst (syncWithPeer stream s)) s peers"

section \<open>What the sync messages preserve\<close>

text \<open>A tombstone travels without its value.\<close>

definition erase :: "'v \<Rightarrow> 'v Entry \<Rightarrow> 'v Entry" where
  "erase zero e = (if Tombstone e then e\<lparr>Value := zero\<rparr> else e)"

lemma erase_fields [simp]: "Clk (erase z e) = Clk e" "Tombstone (erase z e) = Tombstone e"
  by (simp_all add: erase_def)

lemma erase_idem [simp]: "erase z (erase z e) = erase z e"
  by (simp add: erase_def)

definition erase_all :: "'v \<Rightarrow> ('k, 'v Entry) gomap \<Rightarrow> ('k, 'v Entry) gomap" where
  "erase_all z es = map (\<lambda>(k, e). (k, erase z e)) es"

definition erased :: "'v \<Rightarrow> ('k \<rightharpoonup> 'v Entry) \<Rightarrow> ('k \<rightharpoonup> 'v Entry)" where
  "erased z m = (\<lambda>k. map_option (erase z) (m k))"

lemma map_of_erase_all: "map_of (erase_all z es) = erased z (map_of es)"
  by (simp add: erase_all_def erased_def map_of_map comp_def)

lemma go_wf_erase_all [simp]: "go_wf (erase_all z es) = go_wf es"
  by (simp add: erase_all_def case_prod_unfold comp_def)

lemma erased_join: "erased z (lww_join s t) = lww_join (erased z s) (erased z t)"
  by (auto simp: erased_def lww_join_def pick_def fun_eq_iff split: option.splits)

lemma erased_idem [simp]: "erased z (erased z m) = erased z m"
  by (simp add: erased_def option.map_comp comp_def)

lemma Get_via_erased:
  "lww_Get m k = (case erased z (map_of m) k of None \<Rightarrow> None
     | Some e \<Rightarrow> if Tombstone e then None else Some (Value e))"
  by (simp add: lww_Get_def erased_def erase_def split: option.split)

lemma Get_erased: "erased z (map_of m) = erased z (map_of n) \<Longrightarrow> lww_Get m k = lww_Get n k"
  by (simp add: Get_via_erased [of _ _ z])

text \<open>Encoding the entries for a sync response and decoding them again only erases tombstones.\<close>

lemma foldl_go_set_map:
  assumes "go_wf (map (\<lambda>x. (kf x, vf x)) xs)"
  shows "foldl (\<lambda>out x. go_set out (kf x) (vf x)) [] xs = map (\<lambda>x. (kf x, vf x)) xs"
  using foldl_go_set [of "[]" "map (\<lambda>x. (kf x, vf x)) xs"] assms by (simp add: foldl_map)

lemma Clock_collapse [simp]: "Clock (Lamport c) (Nano c) = c"
  by (cases c) simp

lemma backend_sync_round_trip:
  assumes "go_wf es"
  shows "fromBackendSyncEntries (toBackendSyncEntries es) = erase_all zero_meta es"
proof -
  let ?val = "\<lambda>entry. (let value = \<lparr>Value = zero_meta,
              Clk = Clock (sc_Lamport (be_Clock entry)) (sc_UnixNano (be_Clock entry)),
              Tombstone = be_Tomb entry\<rparr>
        in if \<not> be_Tomb entry then value\<lparr>Value := be_Meta entry\<rparr> else value)"
  have "map (\<lambda>x. (be_ID x, ?val x)) (toBackendSyncEntries es) = erase_all zero_meta es"
    by (auto simp: toBackendSyncEntries_def erase_all_def erase_def Let_def)
  moreover have "go_wf (erase_all zero_meta es)" using assms by simp
  ultimately show ?thesis
    using foldl_go_set_map [of be_ID ?val "toBackendSyncEntries es"]
    by (simp add: fromBackendSyncEntries_def Let_def)
qed

lemma node_sync_round_trip:
  assumes "go_wf es"
  shows "fromNodeSyncEntries (toNodeSyncEntries es) = erase_all zero_advert es"
proof -
  let ?val = "\<lambda>entry. (let value = \<lparr>Value = zero_advert,
              Clk = Clock (sc_Lamport (ne_Clock entry)) (sc_UnixNano (ne_Clock entry)),
              Tombstone = ne_Tomb entry\<rparr>
        in if \<not> ne_Tomb entry then value\<lparr>Value := ne_Advert entry\<rparr> else value)"
  have "map (\<lambda>x. (ne_ID x, ?val x)) (toNodeSyncEntries es) = erase_all zero_advert es"
    by (auto simp: toNodeSyncEntries_def erase_all_def erase_def Let_def)
  moreover have "go_wf (erase_all zero_advert es)" using assms by simp
  ultimately show ?thesis
    using foldl_go_set_map [of ne_ID ?val "toNodeSyncEntries es"]
    by (simp add: fromNodeSyncEntries_def Let_def)
qed

section \<open>A pull from another store\<close>

definition pull :: "Store \<Rightarrow> Store \<Rightarrow> Store" where
  "pull s p = fst (syncWithPeer (\<lambda>req. Inr (handleSyncStream p req)) s)"

lemma Snapshot_wf: "store_wf p \<Longrightarrow> BackendSnapshot p = (st_meta p, st_metaVV p)"
  "store_wf p \<Longrightarrow> NodeSnapshot p = (st_nodes p, st_nodeVV p)"
  by (simp_all add: store_wf_def BackendSnapshot_def NodeSnapshot_def lww_Snapshot_def)

lemma Merge_empty [simp]: "lww_Merge m [] = (m, False)"
  by (simp add: lww_Merge_def)

lemma MergeDelta_empty [simp]: "MergeBackendDelta s [] v = s" "MergeNodeDelta s [] v = s"
  by (simp_all add: MergeBackendDelta_def MergeNodeDelta_def)

lemma pull_eq:
  assumes "store_wf p"
  shows "pull s p = MergeNodeDelta
    (MergeBackendDelta s (erase_all zero_meta (st_meta p)) (st_metaVV p))
    (erase_all zero_advert (st_nodes p)) (st_nodeVV p)"
proof -
  have wf: "go_wf (st_meta p)" "go_wf (st_nodes p)" using assms by (simp_all add: store_wf_def)
  have empty: "toBackendSyncEntries (st_meta p) = [] \<longleftrightarrow> st_meta p = []"
    "toNodeSyncEntries (st_nodes p) = [] \<longleftrightarrow> st_nodes p = []"
    by (simp_all add: toBackendSyncEntries_def toNodeSyncEntries_def)
  show ?thesis
    by (auto simp: pull_def syncWithPeer_def handleSyncStream_def mergeSyncResponse_def Let_def
        Snapshot_wf [OF assms] backend_sync_round_trip [OF wf(1)] node_sync_round_trip [OF wf(2)]
        empty erase_all_def)
qed

lemma pull_maps:
  assumes "store_wf p"
  shows "map_of (st_meta (pull s p)) = lww_join (map_of (st_meta s)) (erased zero_meta (map_of (st_meta p)))"
    and "map_of (st_nodes (pull s p)) = lww_join (map_of (st_nodes s)) (erased zero_advert (map_of (st_nodes p)))"
  using assms by (simp_all add: pull_eq store_wf_def map_of_Merge map_of_erase_all)

lemma pull_wf: "store_wf s \<Longrightarrow> store_wf p \<Longrightarrow> store_wf (pull s p)"
  by (simp add: pull_eq wf_intros)

text \<open>Two replicas that pull from each other in turn hold the same contents up to tombstones.\<close>

lemma turn_join:
  assumes "conflict_free [erase_all z a, erase_all z b]"
  shows "erased z (lww_join (map_of b) (erased z (lww_join (map_of a) (erased z (map_of b))))) =
         erased z (lww_join (map_of a) (erased z (map_of b)))"
proof -
  let ?a = "erased z (map_of a)" and ?b = "erased z (map_of b)"
  obtain f where f: "?a \<in> lww_history f" "?b \<in> lww_history f"
    using conflict_free_history [OF assms] by (auto simp: map_of_erase_all)
  have "lww_join ?b (lww_join ?a ?b) = lww_join ?a ?b"
    using hist.comm [OF f(2) hist.closed [OF f]] by (simp add: hist.assoc hist.idem)
  then show ?thesis by (simp add: erased_join)
qed

section \<open>The service as operations on its store\<close>

text \<open>Everything that reaches the store of a running service.\<close>

datatype service_event =
    GossipMessage time string peerID bytes
  | SyncAnswer syncResponse
  | MaintenanceTick time
  | LocalMeta time BackendMeta
  | LocalMetrics time BackendMetrics
  | LocalAdvert time NodeAdvert

fun service_step ::
    "'pk gossip_env \<Rightarrow> reg_env \<Rightarrow> string list \<Rightarrow> Store \<Rightarrow> service_event \<Rightarrow> Store" where
  "service_step g renv topics s (GossipMessage now topic from data) = consume g renv now s topic from data"
| "service_step g renv topics s (SyncAnswer resp) = mergeSyncResponse s resp"
| "service_step g renv topics s (MaintenanceTick now) = Prune now s"
| "service_step g renv topics s (LocalMeta now m) = fst (PublishBackendMeta g renv now topics s m)"
| "service_step g renv topics s (LocalMetrics now x) = fst (PublishBackendMetrics g now topics s x)"
| "service_step g renv topics s (LocalAdvert now a) = fst (PublishNodeAdvert g renv now topics s a)"

definition payload_ops :: "'pk gossip_env \<Rightarrow> time \<Rightarrow> string \<Rightarrow> bytes \<Rightarrow> store_op list" where
  "payload_ops g now topic payload =
     (if topic = TopicBackendsMeta then
        (case unmarshal_meta g payload of Inl _ \<Rightarrow> [] | Inr m \<Rightarrow> [ApplyMeta m])
      else if topic = TopicBackendsMetrics then
        (case unmarshal_metrics g payload of Inl _ \<Rightarrow> [] | Inr x \<Rightarrow> [ApplyMetrics now x])
      else if topic = TopicNodeAdverts then
        (case unmarshal_advert g payload of Inl _ \<Rightarrow> [] | Inr a \<Rightarrow> [ApplyAdvert a])
      else [])"

fun event_ops :: "'pk gossip_env \<Rightarrow> service_event \<Rightarrow> store_op list" where
  "event_ops g (GossipMessage now topic from data) =
     (case decodeEnvelope g data of Inl _ \<Rightarrow> []
      | Inr env \<Rightarrow> if ev_Topic env = topic \<and> verifyEnvelope g from env = None
                   then payload_ops g now topic (ev_Payload env) else [])"
| "event_ops g (SyncAnswer resp) =
     [MergeMeta (fromBackendSyncEntries (sr_MetaEntries resp)) (sr_MetaVV resp),
      MergeNodes (fromNodeSyncEntries (sr_NodeEntries resp)) (sr_NodeVV resp)]"
| "event_ops g (MaintenanceTick now) = [PruneAt now]"
| "event_ops g (LocalMeta now m) = (case marshal_meta g m of Inl _ \<Rightarrow> [] | Inr _ \<Rightarrow> [ApplyMeta m])"
| "event_ops g (LocalMetrics now x) = (case marshal_metrics g x of Inl _ \<Rightarrow> [] | Inr _ \<Rightarrow> [ApplyMetrics now x])"
| "event_ops g (LocalAdvert now a) = (case marshal_advert g a of Inl _ \<Rightarrow> [] | Inr _ \<Rightarrow> [ApplyAdvert a])"

lemma handlePayload_ops:
  "handlePayload g renv now s topic payload = foldl (store_step renv) s (payload_ops g now topic payload)"
  by (simp add: handlePayload_def payload_ops_def split: sum.split)

lemma service_step_ops:
  "service_step g renv topics s e = foldl (store_step renv) s (event_ops g e)"
proof (cases e)
  case (SyncAnswer resp)
  then show ?thesis
    by (cases "sr_MetaEntries resp = []"; cases "sr_NodeEntries resp = []")
      (simp_all add: mergeSyncResponse_def fromBackendSyncEntries_def fromNodeSyncEntries_def)
qed (auto simp: consume_def handlePayload_ops PublishBackendMeta_def PublishBackendMetrics_def
    PublishNodeAdvert_def split: sum.split option.split)

lemma service_run_ops:
  "foldl (service_step g renv topics) s es = foldl (store_step renv) s (concat (map (event_ops g) es))"
  by (induction es arbitrary: s) (simp_all add: service_step_ops)

text \<open>The environment's side: a sync answer comes from a peer whose entries are signed.\<close>

fun event_good :: "reg_env \<Rightarrow> service_event \<Rightarrow> bool" where
  "event_good renv (SyncAnswer resp) \<longleftrightarrow>
     good_meta renv (fromBackendSyncEntries (sr_MetaEntries resp)) \<and>
     good_nodes renv (fromNodeSyncEntries (sr_NodeEntries resp))"
| "event_good renv e = True"

lemma event_good_ops:
  assumes "event_good renv e"
  shows "list_all (op_good renv) (event_ops g e)"
proof (cases e)
  case (GossipMessage now topic sender data)
  then show ?thesis by (auto simp: payload_ops_def split: sum.split)
qed (use assms in \<open>auto split: sum.split\<close>)

lemma events_good_ops:
  "list_all (event_good renv) es \<Longrightarrow> list_all (op_good renv) (concat (map (event_ops g) es))"
  by (induction es) (simp_all add: event_good_ops)

section \<open>Laws of the libraries\<close>

definition codec_laws :: "'pk gossip_env \<Rightarrow> bool" where
  "codec_laws g \<longleftrightarrow>
     (\<forall>e b. marshal_env g e = Inr b \<longrightarrow> unmarshal_env g b = Inr e) \<and>
     (\<forall>m b. marshal_meta g m = Inr b \<longrightarrow> unmarshal_meta g b = Inr m) \<and>
     (\<forall>x b. marshal_metrics g x = Inr b \<longrightarrow> unmarshal_metrics g b = Inr x) \<and>
     (\<forall>a b. marshal_advert g a = Inr b \<longrightarrow> unmarshal_advert g b = Inr a)"

definition key_laws :: "'pk gossip_env \<Rightarrow> peerID \<Rightarrow> bool" where
  "key_laws g own \<longleftrightarrow>
     (\<forall>raw. own_raw g = Inr raw \<longrightarrow>
        (\<exists>pub. pk_Unmarshal g raw = Inr pub \<and> pk_ID g pub = Inr own \<and>
               (\<forall>m sig. own_sign g m = Inr sig \<longrightarrow> pk_Verify g pub m sig = Inr True)))"

lemma encodeEnvelope_Inr:
  assumes "encodeEnvelope g now topic payload clock = Inr data"
  obtains env raw toSign where "marshal_env g env = Inr data" and "ev_Topic env = topic"
    and "ev_Payload env = payload" and "own_raw g = Inr raw" and "ev_PubKey env = raw"
    and "canonicalEnvelope g env = Inr toSign" and "own_sign g toSign = Inr (ev_Signature env)"
proof -
  obtain raw where raw: "own_raw g = Inr raw"
    using assms by (cases "own_raw g") (simp_all add: encodeEnvelope_def)
  let ?e = "\<lambda>sig. \<lparr>ev_Topic = topic, ev_Clock = clock, ev_Time = Unix now, ev_Payload = payload,
    ev_PubKey = raw, ev_Signature = sig\<rparr>"
  have canon: "canonicalEnvelope g (?e sig) = canonicalEnvelope g (?e [])" for sig
    by (simp add: canonicalEnvelope_def)
  obtain toSign where toSign: "canonicalEnvelope g (?e []) = Inr toSign"
    using assms raw by (cases "canonicalEnvelope g (?e [])") (simp_all add: encodeEnvelope_def Let_def)
  obtain sig where sig: "own_sign g toSign = Inr sig"
    using assms raw toSign by (cases "own_sign g toSign") (simp_all add: encodeEnvelope_def Let_def)
  have "marshal_env g (?e sig) = Inr data"
    using assms raw toSign sig by (simp add: encodeEnvelope_def Let_def)
  with raw toSign sig canon [of sig] show thesis by (intro that [of "?e sig" raw toSign]) simp_all
qed

text \<open>An envelope made by the node is accepted from the node.\<close>

lemma verify_own:
  assumes "codec_laws g" and "key_laws g own" and "encodeEnvelope g now topic payload clock = Inr data"
  obtains env where "decodeEnvelope g data = Inr env" and "ev_Topic env = topic"
    and "ev_Payload env = payload" and "verifyEnvelope g own env = None"
proof -
  obtain env raw toSign where env: "marshal_env g env = Inr data" "ev_Topic env = topic"
    "ev_Payload env = payload" "own_raw g = Inr raw" "ev_PubKey env = raw"
    "canonicalEnvelope g env = Inr toSign" "own_sign g toSign = Inr (ev_Signature env)"
    using assms(3) by (rule encodeEnvelope_Inr)
  obtain pub where "pk_Unmarshal g raw = Inr pub" "pk_ID g pub = Inr own"
    "\<forall>m sig. own_sign g m = Inr sig \<longrightarrow> pk_Verify g pub m sig = Inr True"
    using assms(2) env(4) by (auto simp: key_laws_def)
  with env have "verifyEnvelope g own env = None" by (simp add: verifyEnvelope_def)
  moreover have "decodeEnvelope g data = Inr env"
    using assms(1) env(1) by (simp add: codec_laws_def decodeEnvelope_def)
  ultimately show thesis using env by (intro that)
qed

text \<open>Whatever a node hands to a topic, its neighbours let pass and process.\<close>

lemma publish_delivered:
  assumes "codec_laws g" and "key_laws g own" and "Publish g now topics topic payload clock = Inr data"
  shows "topicValidator g topic own data"
    and "consume g renv now' t topic own data = handlePayload g renv now' t topic payload"
proof -
  have "encodeEnvelope g now topic payload clock = Inr data"
    using assms(3) by (auto simp: Publish_def split: sum.splits if_splits)
  then obtain env where "decodeEnvelope g data = Inr env" "ev_Topic env = topic"
    "ev_Payload env = payload" "verifyEnvelope g own env = None"
    by (rule verify_own [OF assms(1,2)])
  then show "topicValidator g topic own data"
    "consume g renv now' t topic own data = handlePayload g renv now' t topic payload"
    by (simp_all add: topicValidator_def consume_def)
qed

lemma publish_meta_delivered:
  assumes "codec_laws g" and "key_laws g own"
    and "PublishBackendMeta g renv now topics s meta = (s', Inr data)"
  shows "topicValidator g TopicBackendsMeta own data"
    and "consume g renv' now' t TopicBackendsMeta own data = fst (ApplyBackendMeta renv' t meta)"
proof -
  obtain buf where buf: "marshal_meta g meta = Inr buf"
    and pub: "Publish g now topics TopicBackendsMeta buf (bm_Clock meta) = Inr data"
    using assms(3) by (auto simp: PublishBackendMeta_def split: sum.splits)
  moreover have "unmarshal_meta g buf = Inr meta" using assms(1) buf by (simp add: codec_laws_def)
  ultimately show "topicValidator g TopicBackendsMeta own data"
    "consume g renv' now' t TopicBackendsMeta own data = fst (ApplyBackendMeta renv' t meta)"
    using publish_delivered [OF assms(1,2) pub] by (simp_all add: handlePayload_def)
qed

lemma publish_metrics_delivered:
  assumes "codec_laws g" and "key_laws g own"
    and "PublishBackendMetrics g now topics s x = (s', Inr data)"
  shows "topicValidator g TopicBackendsMetrics own data"
    and "consume g renv now' t TopicBackendsMetrics own data = ApplyBackendMetrics now' t x"
proof -
  obtain buf where buf: "marshal_metrics g x = Inr buf"
    and pub: "Publish g now topics TopicBackendsMetrics buf (of_int (mx_AtUnix x)) = Inr data"
    using assms(3) by (auto simp: PublishBackendMetrics_def split: sum.splits)
  moreover have "unmarshal_metrics g buf = Inr x" using assms(1) buf by (simp add: codec_laws_def)
  ultimately show "topicValidator g TopicBackendsMetrics own data"
    "consume g renv now' t TopicBackendsMetrics own data = ApplyBackendMetrics now' t x"
    using publish_delivered [OF assms(1,2) pub]
    by (simp_all add: handlePayload_def TopicBackendsMeta_def TopicBackendsMetrics_def)
qed

section \<open>A concrete network\<close>

text \<open>Codecs for one backend record and the envelope that announces it; a signature is the message.\<close>

definition demo_envelope :: envelope where
  "demo_envelope = \<lparr>ev_Topic = TopicBackendsMeta, ev_Clock = 1, ev_Time = 0, ev_Payload = [7],
     ev_PubKey = [1], ev_Signature = [7]\<rparr>"

definition demo_gossip :: "bytes gossip_env" where
  "demo_gossip =
     \<lparr>marshal_env = (\<lambda>e. if e = demo_envelope then Inr [9] else Inl ''unsupported''),
      unmarshal_env = (\<lambda>b. if b = [9] then Inr demo_envelope else Inl ''bad envelope''),
      marshal_signed = (\<lambda>e. Inr (se_Payload e)),
      marshal_meta = (\<lambda>m. if m = demo_meta ''b1'' 1 [2] then Inr [7] else Inl ''unsupported''),
      unmarshal_meta = (\<lambda>b. if b = [7] then Inr (demo_meta ''b1'' 1 [2]) else Inl ''bad meta''),
      marshal_metrics = (\<lambda>x. Inl ''unsupported''), unmarshal_metrics = (\<lambda>b. Inl ''bad metrics''),
      marshal_advert = (\<lambda>a. Inl ''unsupported''), unmarshal_advert = (\<lambda>b. Inl ''bad advert''),
      pk_Unmarshal = (\<lambda>b. Inr b), pk_ID = (\<lambda>k. Inr (if k = [1] then ''peerA'' else ''peerX'')),
      pk_Verify = (\<lambda>k m sig. Inr (sig = m)), own_raw = Inr [1], own_sign = (\<lambda>m. Inr m)\<rparr>"

lemma demo_gossip_laws: "codec_laws demo_gossip" "key_laws demo_gossip ''peerA''"
  by (auto simp: codec_laws_def key_laws_def demo_gossip_def split: if_splits)

lemma demo_publish:
  "encodeEnvelope demo_gossip 0 TopicBackendsMeta [7] 1 = Inr [9]"
  by (simp add: encodeEnvelope_def canonicalEnvelope_def demo_gossip_def demo_envelope_def Unix_def)

lemma demo_publish_meta:
  "PublishBackendMeta demo_gossip demo_env 0 [TopicBackendsMeta] (NewStore 0) (demo_meta ''b1'' 1 [2]) =
     (fst (ApplyBackendMeta demo_env (NewStore 0) (demo_meta ''b1'' 1 [2])), Inr [9])"
proof -
  have "marshal_meta demo_gossip (demo_meta ''b1'' 1 [2]) = Inr [7]" by (simp add: demo_gossip_def)
  moreover have "bm_Clock (demo_meta ''b1'' 1 [2]) = 1" by (simp add: demo_meta_def)
  ultimately show ?thesis by (simp add: PublishBackendMeta_def Publish_def demo_publish)
qed

lemma demo_received:
  "event_ops demo_gossip (GossipMessage 5 TopicBackendsMeta ''peerA'' [9]) = [ApplyMeta (demo_meta ''b1'' 1 [2])]"
  by (simp add: decodeEnvelope_def verifyEnvelope_def canonicalEnvelope_def payload_ops_def
      demo_gossip_def demo_envelope_def)

section \<open>Properties\<close>



text \<open>
  C38. Gossip does not travel a second hop. The signer is compared with the peer the message was
  received from, so when a third node receives the very same message from a relay, its validator
  stops it and its consumer drops it, for every topic and every payload.
\<close>

theorem relayed_message_dropped:
  assumes "codec_laws g" and "key_laws g own" and "encodeEnvelope g now topic payload clock = Inr data"
    and "relay \<noteq> own"
  shows "\<not> topicValidator g topic relay data \<and> consume g renv now' t topic relay data = t"
proof -
  obtain env where env: "decodeEnvelope g data = Inr env" "ev_Topic env = topic"
    "ev_Payload env = payload" "verifyEnvelope g own env = None"
    using verify_own [OF assms(1-3)] .
  have "verifyEnvelope g relay env \<noteq> None"
    using env(4) assms(4) by (auto simp: verifyEnvelope_def split: sum.splits if_splits)
  with env(1,2) show ?thesis by (auto simp: topicValidator_def consume_def)
qed

theorem relayed_message_dropped_witness:
  "\<not> topicValidator demo_gossip TopicBackendsMeta ''peerB'' [9]
   \<and> consume demo_gossip demo_env 5 (NewStore 0) TopicBackendsMeta ''peerB'' [9] = NewStore 0"
  using relayed_message_dropped [OF demo_gossip_laws demo_publish, of "''peerB''"] by simp



text \<open>
  C8. A running service refines its store: whatever messages arrive, on whatever topic and from
  whatever peer, whatever is published locally, pulled or pruned, the store moves by the store
  operations of the event. So, as long as sync answers come from peers whose entries are signed,
  every live record is signed by its own key and filed under its own identifier.
\<close>

theorem service_only_signed:
  assumes "list_all (event_good renv) es"
  shows "let s = foldl (service_step g renv topics) (NewStore ttl) es in
    s = foldl (store_step renv) (NewStore ttl) (concat (map (event_ops g) es)) \<and>
    (\<forall>i e. map_of (st_meta s) i = Some e \<and> \<not> Tombstone e \<longrightarrow>
       authentic_meta renv (Value e) \<and> bm_ID (Value e) = i) \<and>
    (\<forall>i e. map_of (st_nodes s) i = Some e \<and> \<not> Tombstone e \<longrightarrow>
       authentic_advert renv (Value e) \<and> na_ID (Value e) = i)"
  using signed_runs.run_inv [OF good_new events_good_ops [OF assms], of ttl g]
  by (fastforce simp: Let_def service_run_ops good_store_def good_meta_def good_nodes_def list_all_iff
      dest: map_of_SomeD)

theorem service_only_signed_witness:
  "foldl (service_step demo_gossip demo_env []) (NewStore 0)
       [GossipMessage 5 TopicBackendsMeta ''peerA'' [9], MaintenanceTick 6] =
   foldl (store_step demo_env) (NewStore 0) [ApplyMeta (demo_meta ''b1'' 1 [2]), PruneAt 6]"
  using service_only_signed [of demo_env
      "[GossipMessage 5 TopicBackendsMeta ''peerA'' [9], MaintenanceTick 6]" demo_gossip "[]" 0,
      unfolded Let_def, THEN conjunct1]
  by (simp add: demo_received del: service_step.simps event_ops.simps(1))

end
