(* ===== verification/Agent_Collector.thy ===== *)
theory Agent_Collector
  imports Go_Strings
begin

text \<open>
  \<^verbatim>\<open>pkg/agent/collector.go\<close>: the probe of a backend. Sending a request and reading from the body
  of its response, the JSON decoder and the parser of the Prometheus text format are arguments; a
  body is read with a limit and yields what was read and an error. The instants at which the code
  reads the clock are arguments of the functions that read it. Floats are reals, so no value is
  not-a-number and conversion to \<^verbatim>\<open>float32\<close> does not round. Logging is left out, and so is the
  text of a number's syntax error.
\<close>

section \<open>State\<close>

record CollectorConfig =
  cc_ChainID :: string
  cc_RPCEndpoint :: string
  cc_LCDEndpoint :: string
  cc_PromEndpoint :: string
  cc_Timeout :: duration

record ProbeResult =
  pr_Height :: int
  pr_CatchingUp :: bool
  pr_CPU :: real
  pr_P95ms :: real
  pr_RPS :: real
  pr_FailRate :: real
  pr_RTTms :: real
  pr_Health :: string

record promSample =
  ps_valid :: bool
  ps_cpuSeconds :: real
  ps_requests :: real
  ps_errors :: real
  ps_timestamp :: time
  ps_p95Seconds :: real

record Collector =
  co_cfg :: CollectorConfig
  co_lastPromSample :: promSample

record promStats =
  st_cpuPercent :: real
  st_rps :: real
  st_failRate :: real
  st_p95Seconds :: real

definition zero_stats :: promStats where
  "zero_stats = \<lparr>st_cpuPercent = 0, st_rps = 0, st_failRate = 0, st_p95Seconds = 0\<rparr>"

definition zero_sample :: promSample where
  "zero_sample = \<lparr>ps_valid = False, ps_cpuSeconds = 0, ps_requests = 0, ps_errors = 0,
     ps_timestamp = zero_time, ps_p95Seconds = 0\<rparr>"

section \<open>Metric families\<close>

record bucket =
  bu_CumulativeCount :: u64
  bu_UpperBound :: real

record histogram =
  hi_SampleCount :: u64
  hi_Bucket :: "bucket list"

text \<open>A summary is the list of its quantiles with their values.\<close>

record prom_metric =
  me_Counter :: "real option"
  me_Summary :: "(real \<times> real) list option"
  me_Histogram :: "histogram option"

type_synonym families = "(string, prom_metric list) gomap"

section \<open>The world outside\<close>

record http_resp =
  hr_StatusCode :: int
  hr_Read :: "nat \<Rightarrow> string \<times> string option"

record status_payload =
  sp_LatestBlockHeight :: string
  sp_CatchingUp :: bool

record probe_env =
  pe_Do :: "string \<Rightarrow> string + http_resp"
  pe_Status :: "string \<Rightarrow> string + status_payload"
  pe_Network :: "string \<Rightarrow> string + string"
  pe_TextToMetricFamilies :: "http_resp \<Rightarrow> string + families"

section \<open>Operations\<close>

definition NewCollector :: "CollectorConfig \<Rightarrow> string + Collector" where
  "NewCollector cfg =
     (if cc_RPCEndpoint cfg = [] then Inl ''collector: RPC endpoint required''
      else let timeout = (if cc_Timeout cfg \<le> 0 then 2 * second else cc_Timeout cfg)
           in Inr \<lparr>co_cfg = cfg\<lparr>cc_Timeout := timeout\<rparr>, co_lastPromSample = zero_sample\<rparr>)"

definition status_text :: "int \<Rightarrow> string" where
  "status_text n = (if n < 0 then CHR ''-'' # dec (nat (- n)) else dec (nat n))"

definition doGet :: "probe_env \<Rightarrow> string \<Rightarrow> string + http_resp" where
  "doGet env url =
     (case pe_Do env url of
        Inl err \<Rightarrow> Inl err
      | Inr resp \<Rightarrow>
          if hr_StatusCode resp \<ge> 400
          then let body = fst (hr_Read resp 512)
               in Inl (''http '' @ status_text (hr_StatusCode resp) @ '': '' @ TrimSpace body)
          else Inr resp)"

text \<open>\<^verbatim>\<open>io.ReadAll(io.LimitReader(resp.Body, 1<<20))\<close>.\<close>

definition ReadAll :: "http_resp \<Rightarrow> string + string" where
  "ReadAll resp = (case hr_Read resp (2 ^ 20) of (body, None) \<Rightarrow> Inr body | (_, Some err) \<Rightarrow> Inl err)"

definition fetchStatus :: "probe_env \<Rightarrow> time \<Rightarrow> time \<Rightarrow> Collector \<Rightarrow> string + (int \<times> bool \<times> real)" where
  "fetchStatus env start arrived c =
     (case doGet env (cc_RPCEndpoint (co_cfg c) @ ''/status'') of
        Inl err \<Rightarrow> Inl err
      | Inr resp \<Rightarrow>
          (let rtt = real_of_int (time_Sub arrived start) / 1000000
           in case ReadAll resp of
                Inl err \<Rightarrow> Inl err
              | Inr body \<Rightarrow>
                  (case pe_Status env body of
                     Inl err \<Rightarrow> Inl err
                   | Inr payload \<Rightarrow>
                       (case ParseInt (TrimSpace (sp_LatestBlockHeight payload)) of
                          Inl _ \<Rightarrow> Inl ''parse latest_block_height''
                        | Inr height \<Rightarrow> Inr (height, sp_CatchingUp payload, rtt)))))"

text \<open>\<open>None\<close> is the nil error.\<close>

definition fetchNodeInfo :: "probe_env \<Rightarrow> Collector \<Rightarrow> string option" where
  "fetchNodeInfo env c =
     (case doGet env (cc_LCDEndpoint (co_cfg c)) of
        Inl err \<Rightarrow> Some err
      | Inr resp \<Rightarrow>
          (case ReadAll resp of
             Inl err \<Rightarrow> Some err
           | Inr body \<Rightarrow>
               (case pe_Network env body of
                  Inl err \<Rightarrow> Some err
                | Inr network \<Rightarrow>
                    if cc_ChainID (co_cfg c) \<noteq> [] \<and> network \<noteq> cc_ChainID (co_cfg c)
                    then Some (''lcd chain id mismatch: expected '' @ cc_ChainID (co_cfg c) @ '' got '' @ network)
                    else None)))"

definition counter_sum :: "prom_metric list \<Rightarrow> real" where
  "counter_sum ms = foldl (\<lambda>sum m. case me_Counter m of None \<Rightarrow> sum | Some v \<Rightarrow> sum + v) 0 ms"

fun findCounter :: "families \<Rightarrow> string list \<Rightarrow> real" where
  "findCounter metrics [] = 0"
| "findCounter metrics (name # names) =
     (case map_of metrics name of
        None \<Rightarrow> findCounter metrics names
      | Some ms \<Rightarrow> let sum = counter_sum ms in if sum > 0 then sum else findCounter metrics names)"

text \<open>The first value that a loop over metrics returns from, over the families of the names in turn.\<close>

fun first_of :: "('a \<Rightarrow> 'b option) \<Rightarrow> 'a list \<Rightarrow> 'b option" where
  "first_of f [] = None"
| "first_of f (x # xs) = (case f x of None \<Rightarrow> first_of f xs | Some y \<Rightarrow> Some y)"

definition in_families :: "families \<Rightarrow> (prom_metric \<Rightarrow> 'b option) \<Rightarrow> string list \<Rightarrow> 'b option" where
  "in_families metrics f names =
     first_of (\<lambda>name. case map_of metrics name of None \<Rightarrow> None | Some ms \<Rightarrow> first_of f ms) names"

definition summaryQuantile :: "families \<Rightarrow> string list \<Rightarrow> real \<Rightarrow> real option" where
  "summaryQuantile metrics names quantile =
     in_families metrics (\<lambda>m. case me_Summary m of
         None \<Rightarrow> None
       | Some qs \<Rightarrow> first_of (\<lambda>(q, v). if q = quantile then Some v else None) qs) names"

fun bucket_loop :: "u64 \<Rightarrow> u64 \<Rightarrow> bucket list \<Rightarrow> real option" where
  "bucket_loop target accum [] = None"
| "bucket_loop target accum (b # bs) =
     (let accum = accum + bu_CumulativeCount b
      in if accum \<ge> target then Some (bu_UpperBound b) else bucket_loop target accum bs)"

definition quantile_target :: "u64 \<Rightarrow> real \<Rightarrow> u64" where
  "quantile_target samples quantile = word_of_int \<lceil>real (unat samples) * quantile\<rceil>"

definition histogramPercentile :: "families \<Rightarrow> string list \<Rightarrow> real \<Rightarrow> real option" where
  "histogramPercentile metrics names quantile =
     in_families metrics (\<lambda>m. case me_Histogram m of
         None \<Rightarrow> None
       | Some hist \<Rightarrow>
           if hi_SampleCount hist = 0 then None
           else bucket_loop (quantile_target (hi_SampleCount hist) quantile) 0 (hi_Bucket hist)) names"

definition findLatencyP95 :: "families \<Rightarrow> real" where
  "findLatencyP95 metrics =
     (case summaryQuantile metrics [''rpc_request_duration_seconds'', ''tendermint_rpc_request_duration_seconds''] 0.95 of
        Some value \<Rightarrow> value
      | None \<Rightarrow>
          (case histogramPercentile metrics
                  [''rpc_request_duration_seconds_bucket'', ''tendermint_rpc_request_duration_seconds_bucket''] 0.95 of
             Some value \<Rightarrow> value
           | None \<Rightarrow> 0))"

definition sample_of :: "time \<Rightarrow> families \<Rightarrow> promSample" where
  "sample_of now metrics =
     \<lparr>ps_valid = True,
      ps_cpuSeconds = findCounter metrics [''process_cpu_seconds_total'', ''process_cpu_time_seconds''],
      ps_requests = findCounter metrics [''tendermint_rpc_requests_total'', ''rpc_requests_total''],
      ps_errors = findCounter metrics [''tendermint_rpc_failures_total'', ''rpc_errors_total''],
      ps_timestamp = now, ps_p95Seconds = findLatencyP95 metrics\<rparr>"

text \<open>The statistics between two samples.\<close>

definition stats_between :: "promSample \<Rightarrow> promSample \<Rightarrow> promStats" where
  "stats_between prev sample =
     (if \<not> ps_valid prev then zero_stats
      else let deltaT = real_of_int (time_Sub (ps_timestamp sample) (ps_timestamp prev)) / real_of_int second
           in if deltaT \<le> 0 then zero_stats
              else let deltaCPU = ps_cpuSeconds sample - ps_cpuSeconds prev;
                       stats = (if deltaCPU \<ge> 0
                                then zero_stats\<lparr>st_cpuPercent := min 100 (deltaCPU / deltaT * 100)\<rparr> else zero_stats);
                       deltaRequests = ps_requests sample - ps_requests prev;
                       stats = (if deltaRequests \<ge> 0 then stats\<lparr>st_rps := deltaRequests / deltaT\<rparr> else stats);
                       deltaErrors = ps_errors sample - ps_errors prev;
                       stats = (if deltaRequests > 0 \<and> deltaErrors \<ge> 0
                                then let rate = deltaErrors / deltaRequests;
                                         rate = (if rate < 0 then 0 else rate);
                                         rate = (if rate > 1 then 1 else rate)
                                     in stats\<lparr>st_failRate := rate\<rparr>
                                else stats)
                   in if ps_p95Seconds sample > 0 then stats\<lparr>st_p95Seconds := ps_p95Seconds sample\<rparr> else stats)"

definition scrapeProm :: "probe_env \<Rightarrow> time \<Rightarrow> Collector \<Rightarrow> Collector \<times> (string + promStats)" where
  "scrapeProm env now c =
     (case doGet env (cc_PromEndpoint (co_cfg c)) of
        Inl err \<Rightarrow> (c, Inl err)
      | Inr resp \<Rightarrow>
          (case pe_TextToMetricFamilies env resp of
             Inl err \<Rightarrow> (c, Inl err)
           | Inr metrics \<Rightarrow>
               let sample = sample_of now metrics;
                   prev = co_lastPromSample c
               in (c\<lparr>co_lastPromSample := sample\<rparr>, Inr (stats_between prev sample))))"

text \<open>The clock readings of one collection: before and after the status request, and at the scrape.\<close>

record probe_times =
  pt_start :: time
  pt_arrived :: time
  pt_scrape :: time

definition degrade :: "ProbeResult \<Rightarrow> ProbeResult" where
  "degrade r = (if pr_Health r = ''ok'' then r\<lparr>pr_Health := ''degraded''\<rparr> else r)"

definition Collect :: "probe_env \<Rightarrow> probe_times \<Rightarrow> Collector \<Rightarrow> Collector \<times> ProbeResult \<times> string option" where
  "Collect env ts c =
     (let result = \<lparr>pr_Height = 0, pr_CatchingUp = False, pr_CPU = 0, pr_P95ms = 0, pr_RPS = 0,
                    pr_FailRate = 0, pr_RTTms = 0, pr_Health = ''ok''\<rparr>
      in case fetchStatus env (pt_start ts) (pt_arrived ts) c of
           Inl err \<Rightarrow> (c, result\<lparr>pr_Health := ''down''\<rparr>, Some (''collector: status fetch: '' @ err))
         | Inr (height, catchingUp, rtt) \<Rightarrow>
             let result = result\<lparr>pr_Height := height, pr_CatchingUp := catchingUp, pr_RTTms := rtt\<rparr>;
                 result = (if cc_LCDEndpoint (co_cfg c) \<noteq> []
                           then (case fetchNodeInfo env c of Some _ \<Rightarrow> degrade result | None \<Rightarrow> result)
                           else result);
                 (c, result) =
                   (if cc_PromEndpoint (co_cfg c) \<noteq> []
                    then (case scrapeProm env (pt_scrape ts) c of
                            (c', Inl _) \<Rightarrow> (c', degrade result)
                          | (c', Inr stats) \<Rightarrow>
                              (c', result\<lparr>pr_CPU := st_cpuPercent stats, pr_RPS := st_rps stats,
                                          pr_FailRate := st_failRate stats,
                                          pr_P95ms := st_p95Seconds stats * 1000\<rparr>))
                    else (c, result));
                 result = (if pr_CatchingUp result \<and> pr_Health result = ''ok''
                           then result\<lparr>pr_Health := ''degraded''\<rparr> else result)
             in (c, result, None))"

section \<open>Facts\<close>

text \<open>Every probe that the configuration asks for succeeds.\<close>

definition probes_pass :: "probe_env \<Rightarrow> probe_times \<Rightarrow> Collector \<Rightarrow> bool" where
  "probes_pass env ts c \<longleftrightarrow>
     (cc_LCDEndpoint (co_cfg c) = [] \<or> fetchNodeInfo env c = None) \<and>
     (cc_PromEndpoint (co_cfg c) = [] \<or> \<not> isl (snd (scrapeProm env (pt_scrape ts) c)))"

text \<open>What the statistics between two samples promise.\<close>

definition stats_ok :: "promStats \<Rightarrow> bool" where
  "stats_ok x \<longleftrightarrow> 0 \<le> st_cpuPercent x \<and> st_cpuPercent x \<le> 100 \<and> 0 \<le> st_rps x
     \<and> 0 \<le> st_failRate x \<and> st_failRate x \<le> 1 \<and> 0 \<le> st_p95Seconds x"

lemma stats_ok_zero [simp]: "stats_ok zero_stats"
  by (simp add: stats_ok_def zero_stats_def)

lemma stats_between_ok: "stats_ok (stats_between prev sample)"
proof -
  define dt where "dt = real_of_int (time_Sub (ps_timestamp sample) (ps_timestamp prev)) / real_of_int second"
  show ?thesis
    unfolding stats_between_def dt_def [symmetric] stats_ok_def by (auto simp: zero_stats_def Let_def)
qed

lemma scrapeProm_ok: "scrapeProm env now c = (c', Inr stats) \<Longrightarrow> stats_ok stats"
  by (auto simp: scrapeProm_def Let_def stats_between_ok split: sum.splits)

lemma scrapeProm_cfg [simp]: "co_cfg (fst (scrapeProm env now c)) = co_cfg c"
  by (simp add: scrapeProm_def Let_def split: sum.split)

lemma pr_simps_degrade [simp]:
  "pr_CatchingUp (degrade r) = pr_CatchingUp r" "pr_Height (degrade r) = pr_Height r"
  "pr_RTTms (degrade r) = pr_RTTms r" "pr_CPU (degrade r) = pr_CPU r" "pr_RPS (degrade r) = pr_RPS r"
  "pr_FailRate (degrade r) = pr_FailRate r" "pr_P95ms (degrade r) = pr_P95ms r"
  by (simp_all add: degrade_def)

text \<open>The bound of the first bucket whose cumulative count reaches the target.\<close>

definition first_reaching :: "u64 \<Rightarrow> bucket list \<Rightarrow> real option" where
  "first_reaching target bs =
     first_of (\<lambda>b. if bu_CumulativeCount b \<ge> target then Some (bu_UpperBound b) else None) bs"

lemma first_reaching_mem: "first_reaching target bs = Some v \<Longrightarrow> v \<in> bu_UpperBound ` set bs"
  by (induction bs) (auto simp: first_reaching_def split: if_splits)

lemma bucket_loop_early:
  assumes "unat accum + sum_list (map (unat \<circ> bu_CumulativeCount) bs) < 2 ^ 64"
    and "sorted (map bu_UpperBound bs)" and "first_reaching target bs = Some v"
  shows "\<exists>w \<le> v. bucket_loop target accum bs = Some w"
  using assms
proof (induction bs arbitrary: accum)
  case (Cons b bs)
  have add: "unat (accum + bu_CumulativeCount b) = unat accum + unat (bu_CumulativeCount b)"
    using Cons.prems(1) by (intro unat_add_lem [THEN iffD1]) simp
  then have ge: "bu_CumulativeCount b \<le> accum + bu_CumulativeCount b" by (simp add: word_le_nat_alt)
  show ?case
  proof (cases "target \<le> accum + bu_CumulativeCount b")
    case True
    then show ?thesis using Cons.prems(2) first_reaching_mem [OF Cons.prems(3)] by auto
  next
    case False
    with ge have "\<not> target \<le> bu_CumulativeCount b" by (meson order_trans)
    with Cons.prems(3) have "first_reaching target bs = Some v" by (simp add: first_reaching_def)
    with False Cons.IH [of "accum + bu_CumulativeCount b"] Cons.prems add show ?thesis by simp
  qed
qed (simp add: first_reaching_def)

section \<open>Properties\<close>

definition demo_families :: families where
  "demo_families = [(''rpc_requests_total'', [\<lparr>me_Counter = Some 5, me_Summary = None, me_Histogram = None\<rparr>])]"

definition demo_probe :: probe_env where
  "demo_probe = \<lparr>pe_Do = (\<lambda>_. Inr \<lparr>hr_StatusCode = 200, hr_Read = (\<lambda>_. ([], None))\<rparr>),
     pe_Status = (\<lambda>_. Inr \<lparr>sp_LatestBlockHeight = '' 42'', sp_CatchingUp = False\<rparr>),
     pe_Network = (\<lambda>_. Inr ''c1''), pe_TextToMetricFamilies = (\<lambda>_. Inr demo_families)\<rparr>"

definition demo_collector :: "promSample \<Rightarrow> Collector" where
  "demo_collector s = \<lparr>co_cfg = \<lparr>cc_ChainID = ''c1'', cc_RPCEndpoint = ''r'', cc_LCDEndpoint = ''l'',
     cc_PromEndpoint = ''p'', cc_Timeout = second\<rparr>, co_lastPromSample = s\<rparr>"

text \<open>
  What a probe says of the health. A collection fails exactly when the status of the node cannot
  be read, and then the node is down. Otherwise it is ok when every configured probe passed and the
  node is not catching up, and degraded in all other cases; height and state are those of the node.
\<close>

theorem collect_health:
  "(case fetchStatus env (pt_start ts) (pt_arrived ts) c of
      Inl err \<Rightarrow> fst (Collect env ts c) = c \<and> pr_Health (fst (snd (Collect env ts c))) = ''down''
        \<and> snd (snd (Collect env ts c)) = Some (''collector: status fetch: '' @ err)
    | Inr (height, catchingUp, rtt) \<Rightarrow> snd (snd (Collect env ts c)) = None
        \<and> pr_Height (fst (snd (Collect env ts c))) = height
        \<and> pr_CatchingUp (fst (snd (Collect env ts c))) = catchingUp
        \<and> pr_RTTms (fst (snd (Collect env ts c))) = rtt
        \<and> pr_Health (fst (snd (Collect env ts c))) =
            (if probes_pass env ts c \<and> \<not> catchingUp then ''ok'' else ''degraded''))"
proof (cases "fetchStatus env (pt_start ts) (pt_arrived ts) c")
  case (Inr v)
  obtain height catchingUp rtt where v: "v = (height, catchingUp, rtt)" by (cases v)
  obtain c' out where sc: "scrapeProm env (pt_scrape ts) c = (c', out)" by (metis surj_pair)
  show ?thesis
    by (cases "fetchNodeInfo env c"; cases out)
      (simp_all add: Inr v Collect_def probes_pass_def sc degrade_def Let_def)
qed (simp add: Collect_def)


text \<open>
  The rates are those of the interval between two scrapes: for counters that do not decrease and
  a clock that moves on, the load is the CPU time over the elapsed time, capped at 100 percent, the
  request rate times the elapsed time is the number of requests, and the failure rate is the share of
  failed requests, capped at 1. The first scrape of a collector reports nothing.
\<close>

theorem scrape_rates:
  assumes "doGet env (cc_PromEndpoint (co_cfg c)) = Inr resp" and "pe_TextToMetricFamilies env resp = Inr metrics"
    and "dt = real_of_int (time_Sub now (ps_timestamp (co_lastPromSample c))) / real_of_int second"
    and "0 < dt" and "ps_cpuSeconds (co_lastPromSample c) \<le> ps_cpuSeconds (sample_of now metrics)"
    and "ps_requests (co_lastPromSample c) \<le> ps_requests (sample_of now metrics)"
    and "ps_errors (co_lastPromSample c) \<le> ps_errors (sample_of now metrics)"
  shows "\<exists>c' stats. scrapeProm env now c = (c', Inr stats) \<and> co_lastPromSample c' = sample_of now metrics
    \<and> (if \<not> ps_valid (co_lastPromSample c) then stats = zero_stats
       else st_cpuPercent stats =
              min 100 ((ps_cpuSeconds (sample_of now metrics) - ps_cpuSeconds (co_lastPromSample c)) / dt * 100)
          \<and> st_rps stats * dt = ps_requests (sample_of now metrics) - ps_requests (co_lastPromSample c)
          \<and> (ps_requests (sample_of now metrics) > ps_requests (co_lastPromSample c) \<longrightarrow>
              st_failRate stats =
                min 1 ((ps_errors (sample_of now metrics) - ps_errors (co_lastPromSample c)) /
                       (ps_requests (sample_of now metrics) - ps_requests (co_lastPromSample c)))))"
proof -
  have t: "ps_timestamp (sample_of now metrics) = now" by (simp add: sample_of_def)
  have run: "scrapeProm env now c = (c\<lparr>co_lastPromSample := sample_of now metrics\<rparr>,
      Inr (stats_between (co_lastPromSample c) (sample_of now metrics)))"
    using assms(1,2) by (simp add: scrapeProm_def Let_def)
  show ?thesis
    unfolding run using assms(4-7)
    by (auto simp: stats_between_def t assms(3) [symmetric] zero_stats_def Let_def min_def divide_less_0_iff)
qed

theorem scrape_rates_witness:
  "\<exists>c' stats. scrapeProm demo_probe (10 * second) (demo_collector (sample_of 0 [])) = (c', Inr stats)
    \<and> st_rps stats * 10 = 5"
proof -
  have "(10 :: real) = real_of_int (time_Sub (10 * second) (ps_timestamp (sample_of 0 []))) / real_of_int second"
    by (simp add: time_Sub_def sample_of_def second_def)
  moreover have "doGet demo_probe ''p'' = Inr \<lparr>hr_StatusCode = 200, hr_Read = (\<lambda>_. ([], None))\<rparr>"
    by (simp add: doGet_def demo_probe_def)
  moreover have "ps_requests (sample_of (10 * second) demo_families) = 5" "ps_requests (sample_of 0 []) = 0"
    "ps_cpuSeconds (sample_of (10 * second) demo_families) = 0" "ps_cpuSeconds (sample_of 0 []) = 0"
    "ps_errors (sample_of (10 * second) demo_families) = 0" "ps_errors (sample_of 0 []) = 0" "ps_valid (sample_of 0 [])"
    by (simp_all add: sample_of_def demo_families_def counter_sum_def)
  ultimately show ?thesis
    using scrape_rates [of demo_probe "demo_collector (sample_of 0 [])" _ demo_families 10 "10 * second"]
    by (auto simp: demo_collector_def demo_probe_def)
qed

text \<open>
  The percentile of a histogram is read too early. The counts of buckets are cumulative already
  and the loop adds them up again: for a histogram in order whose sum does not overflow, the bound it
  returns is at most that of the first bucket that reaches the percentile, and there are histograms
  for which it is smaller.
\<close>

theorem histogram_percentile_early:
  assumes "sum_list (map (unat \<circ> bu_CumulativeCount) bs) < 2 ^ 64" and "sorted (map bu_UpperBound bs)"
    and "first_reaching target bs = Some v"
  shows "(\<exists>w \<le> v. bucket_loop target 0 bs = Some w)
    \<and> (\<exists>bs'. sorted (map bu_UpperBound bs') \<and> sorted (map (unat \<circ> bu_CumulativeCount) bs')
        \<and> first_reaching 95 bs' = Some 3 \<and> bucket_loop 95 0 bs' = Some 2)"
proof
  show "\<exists>w \<le> v. bucket_loop target 0 bs = Some w"
    using bucket_loop_early [of 0 bs target v] assms by simp
  let ?b = "\<lambda>n u. \<lparr>bu_CumulativeCount = n, bu_UpperBound = u\<rparr>"
  show "\<exists>bs'. sorted (map bu_UpperBound bs') \<and> sorted (map (unat \<circ> bu_CumulativeCount) bs')
      \<and> first_reaching 95 bs' = Some 3 \<and> bucket_loop 95 0 bs' = Some 2"
    by (rule exI [of _ "[?b 50 1, ?b 60 2, ?b 100 3]"]) (simp add: first_reaching_def)
qed

theorem histogram_percentile_early_witness:
  "\<exists>w \<le> 2. bucket_loop 95 0 [\<lparr>bu_CumulativeCount = 90, bu_UpperBound = 1\<rparr>,
      \<lparr>bu_CumulativeCount = 100, bu_UpperBound = 2\<rparr>] = Some w"
  using histogram_percentile_early [of "[\<lparr>bu_CumulativeCount = 90, bu_UpperBound = 1\<rparr>,
      \<lparr>bu_CumulativeCount = 100, bu_UpperBound = 2\<rparr>]" 95 2] by (simp add: first_reaching_def)

end
