(* ===== verification/Mesh_Agent.thy ===== *)
theory Mesh_Agent
  imports Gossip_Service Agent_Collector Sip_Hash Go_Base64
begin

text \<open>
  \<^verbatim>\<open>pkg/agent/agent.go\<close>: the agent beside a backend. It signs the record of its backend once,
  announces it again and again, publishes a signed sample of its metrics at every tick and answers
  challenges about the ownership. Arguments: the start of the gossip service (its error, or the
  topics it joined), Ed25519 (\<open>key_pair_laws\<close> says what a key pair promises) and the outside
  world of the collector. The loops are runs of events, one per tick or request; the HTTP
  server around them and the cancellation of contexts are in \<open>Agent_Lifecycle\<close>.
\<close>

section \<open>State\<close>

record agent_Config =
  ac_IdentityKey :: "bytes option"
  ac_Meta :: BackendMeta
  ac_MetricsInterval :: duration
  ac_VerifyListen :: string
  ac_OwnerKey :: "bytes option"
  ac_Collector :: CollectorConfig

record Agent =
  ag_topics :: "string list"
  ag_store :: Store
  ag_ownerKey :: bytes
  ag_meta :: BackendMeta
  ag_verifyListen :: string
  ag_metricsInterval :: duration
  ag_collector :: Collector
  ag_metaClock :: u64

record 'pk agent_env =
  ae_gossip :: "'pk gossip_env"
  ae_reg :: reg_env
  ae_probe :: probe_env
  ae_NewService :: "string + string list"
  ae_Public :: "bytes \<Rightarrow> bytes"
  ae_Sign :: "bytes \<Rightarrow> bytes \<Rightarrow> bytes"

definition PrivateKeySize :: nat where "PrivateKeySize = 64"

section \<open>Operations\<close>

text \<open>A map without entries stands for both an empty and a \<^verbatim>\<open>nil\<close> map of capabilities.\<close>

definition agent_New :: "'pk agent_env \<Rightarrow> time \<Rightarrow> agent_Config \<Rightarrow> string + Agent" where
  "agent_New env now cfg =
     (case ac_OwnerKey cfg of
        None \<Rightarrow> Inl ''agent: owner Ed25519 private key required''
      | Some key \<Rightarrow>
          if length key \<noteq> PrivateKeySize then Inl ''agent: owner Ed25519 private key required''
          else if ac_IdentityKey cfg = None then Inl ''agent: gossip identity key required''
          else
            let interval = (if ac_MetricsInterval cfg \<le> 0 then 2 * second else ac_MetricsInterval cfg);
                verifyListen = (if ac_VerifyListen cfg = [] then '':8081'' else ac_VerifyListen cfg)
            in case NewCollector (ac_Collector cfg) of
                 Inl err \<Rightarrow> Inl err
               | Inr collector \<Rightarrow>
                   (let store = NewStore (wrap_i64 (interval * 3))
                    in case ae_NewService env of
                         Inl err \<Rightarrow> Inl (''agent: start gossip service: '' @ err)
                       | Inr topics \<Rightarrow>
                           let meta = ac_Meta cfg
                           in if bm_ID meta = [] then Inl ''agent: backend ID required''
                              else if bm_ChainID meta = [] then Inl ''agent: chain ID required''
                              else if bm_Host meta = [] then Inl ''agent: backend host required''
                              else
                                let meta = (if bm_AddedAt meta = 0 then meta\<lparr>bm_AddedAt := Unix now\<rparr> else meta);
                                    meta = (if bm_Clock meta = 0 then meta\<lparr>bm_Clock := 1\<rparr> else meta);
                                    meta = meta\<lparr>bm_OwnerPK := ae_Public env key\<rparr>
                                in case CanonicalBackendMeta (ae_reg env) meta of
                                     Inl err \<Rightarrow> Inl (''agent: encode backend meta: '' @ err)
                                   | Inr encodedMeta \<Rightarrow>
                                       let meta = meta\<lparr>bm_Sig := ae_Sign env key encodedMeta\<rparr>
                                       in Inr \<lparr>ag_topics = topics, ag_store = store, ag_ownerKey = key,
                                               ag_meta = meta, ag_verifyListen = verifyListen,
                                               ag_metricsInterval = interval, ag_collector = collector,
                                               ag_metaClock = bm_Clock meta\<rparr>))"

text \<open>The second component: the error, or the bytes handed to the topic.\<close>

definition publishMeta :: "'pk agent_env \<Rightarrow> time \<Rightarrow> Agent \<Rightarrow> Agent \<times> (string + bytes)" where
  "publishMeta env now a =
     (let a = (if ag_metaClock a = 0 then a\<lparr>ag_metaClock := ag_metaClock a + 1\<rparr> else a);
          clock = ag_metaClock a;
          a = a\<lparr>ag_meta := (ag_meta a)\<lparr>bm_Clock := clock\<rparr>\<rparr>;
          (store, out) = PublishBackendMeta (ae_gossip env) (ae_reg env) now (ag_topics a) (ag_store a) (ag_meta a)
      in (a\<lparr>ag_store := store\<rparr>, out))"

definition metrics_of :: "BackendID \<Rightarrow> time \<Rightarrow> ProbeResult \<Rightarrow> BackendMetrics" where
  "metrics_of i now r =
     \<lparr>mx_ID = i, mx_AtUnix = Unix now, mx_Height = pr_Height r, mx_CatchingUp = pr_CatchingUp r,
      mx_CPU = pr_CPU r, mx_P95ms = pr_P95ms r, mx_RPS = pr_RPS r, mx_FailRate = pr_FailRate r,
      mx_RTTms = pr_RTTms r, mx_Health = pr_Health r, mx_Sig = []\<rparr>"

text \<open>Errors of the probe are logged and the sample is published all the same.\<close>

definition collectAndPublish :: "'pk agent_env \<Rightarrow> probe_times \<Rightarrow> time \<Rightarrow> Agent \<Rightarrow> Agent \<times> (string + bytes)" where
  "collectAndPublish env ts now a =
     (let (collector, result, err) = Collect (ae_probe env) ts (ag_collector a);
          a = a\<lparr>ag_collector := collector\<rparr>;
          metrics = metrics_of (bm_ID (ag_meta a)) now result
      in case CanonicalBackendMetrics (ae_reg env) metrics of
           Inl err \<Rightarrow> (a, Inl err)
         | Inr encoded \<Rightarrow>
             let metrics = metrics\<lparr>mx_Sig := ae_Sign env (ag_ownerKey a) encoded\<rparr>;
                 (store, out) = PublishBackendMetrics (ae_gossip env) now (ag_topics a) (ag_store a) metrics
             in (a\<lparr>ag_store := store\<rparr>, out))"

definition buildChallengeMessage :: "BackendID \<Rightarrow> string \<Rightarrow> bytes" where
  "buildChallengeMessage i challenge = bytes_of_string (i @ ''|'' @ challenge)"

datatype verify_reply =
    VerifyError int string
  | VerifyOk (vr_backend_id: string) (vr_challenge: string) (vr_signature: string) (vr_owner_pk: string)

definition verifyHandler :: "'pk agent_env \<Rightarrow> Agent \<Rightarrow> string \<Rightarrow> string \<Rightarrow> verify_reply" where
  "verifyHandler env a meth challenge =
     (if meth \<noteq> ''GET'' then VerifyError 405 ''method not allowed''
      else if challenge = [] then VerifyError 400 ''challenge parameter required''
      else let message = buildChallengeMessage (bm_ID (ag_meta a)) challenge;
               sig = ae_Sign env (ag_ownerKey a) message
           in VerifyOk (bm_ID (ag_meta a)) challenge (EncodeToString sig) (EncodeToString (bm_OwnerPK (ag_meta a))))"

section \<open>The loops as runs\<close>

datatype agent_event =
    MetaTick time
  | MetricsTick probe_times time

fun agent_step :: "'pk agent_env \<Rightarrow> Agent \<Rightarrow> agent_event \<Rightarrow> Agent \<times> (string \<times> bytes) list" where
  "agent_step env a (MetaTick now) =
     (case publishMeta env now a of
        (a', Inl _) \<Rightarrow> (a', []) | (a', Inr data) \<Rightarrow> (a', [(TopicBackendsMeta, data)]))"
| "agent_step env a (MetricsTick ts now) =
     (case collectAndPublish env ts now a of
        (a', Inl _) \<Rightarrow> (a', []) | (a', Inr data) \<Rightarrow> (a', [(TopicBackendsMetrics, data)]))"

fun agent_run :: "'pk agent_env \<Rightarrow> Agent \<Rightarrow> agent_event list \<Rightarrow> Agent \<times> (string \<times> bytes) list" where
  "agent_run env a [] = (a, [])"
| "agent_run env a (e # es) =
     (let (a1, out1) = agent_step env a e; (a2, out2) = agent_run env a1 es in (a2, out1 @ out2))"

section \<open>Invariant\<close>

definition key_pair_laws :: "'pk agent_env \<Rightarrow> bool" where
  "key_pair_laws env \<longleftrightarrow>
     (\<forall>k. length k = PrivateKeySize \<longrightarrow> length (ae_Public env k) = PublicKeySize \<and>
        (\<forall>m. ed25519_Verify (ae_reg env) (ae_Public env k) m (ae_Sign env k m)))"

text \<open>The agent holds its key and an authentic record made with it, and its clock is set.\<close>

definition agent_inv :: "'pk agent_env \<Rightarrow> BackendMeta \<Rightarrow> Agent \<Rightarrow> bool" where
  "agent_inv env meta a \<longleftrightarrow>
     ag_meta a = meta \<and> length (ag_ownerKey a) = PrivateKeySize \<and> bm_OwnerPK meta = ae_Public env (ag_ownerKey a) \<and>
     authentic_meta (ae_reg env) meta \<and> ag_metaClock a = bm_Clock meta \<and> bm_Clock meta \<noteq> 0 \<and> store_wf (ag_store a)"

lemma CanonicalBackendMeta_sig [simp]: "CanonicalBackendMeta env (m\<lparr>bm_Sig := s\<rparr>) = CanonicalBackendMeta env m"
  by (simp add: CanonicalBackendMeta_def)

lemma agent_New_Inr:
  assumes "agent_New env now cfg = Inr a"
  obtains key topics collector meta enc where "ac_OwnerKey cfg = Some key" and "length key = PrivateKeySize"
    and "ac_IdentityKey cfg \<noteq> None" and "NewCollector (ac_Collector cfg) = Inr collector"
    and "ae_NewService env = Inr topics" and "CanonicalBackendMeta (ae_reg env) meta = Inr enc"
    and "bm_OwnerPK meta = ae_Public env key" and "bm_Clock meta \<noteq> 0" and "bm_ID meta = bm_ID (ac_Meta cfg)"
    and "bm_ChainID meta = bm_ChainID (ac_Meta cfg)" and "bm_Host meta = bm_Host (ac_Meta cfg)"
    and "bm_Caps meta = bm_Caps (ac_Meta cfg)"
    and "bm_ID meta \<noteq> []" and "bm_ChainID meta \<noteq> []" and "bm_Host meta \<noteq> []"
    and "ag_meta a = meta\<lparr>bm_Sig := ae_Sign env key enc\<rparr>" and "ag_ownerKey a = key" and "ag_collector a = collector"
    and "ag_topics a = topics" and "ag_metaClock a = bm_Clock meta" and "\<exists>d. ag_store a = NewStore d"
proof -
  obtain key where key: "ac_OwnerKey cfg = Some key" "length key = PrivateKeySize" "ac_IdentityKey cfg \<noteq> None"
    using assms by (auto simp: agent_New_def split: option.splits if_splits)
  obtain collector where col: "NewCollector (ac_Collector cfg) = Inr collector"
    using assms key by (auto simp: agent_New_def Let_def split: sum.splits)
  obtain topics where top: "ae_NewService env = Inr topics"
    using assms key col by (auto simp: agent_New_def Let_def split: sum.splits)
  define m1 where "m1 = (if bm_AddedAt (ac_Meta cfg) = 0 then (ac_Meta cfg)\<lparr>bm_AddedAt := Unix now\<rparr> else ac_Meta cfg)"
  define m2 where "m2 = (if bm_Clock m1 = 0 then m1\<lparr>bm_Clock := 1\<rparr> else m1)"
  define meta where "meta = m2\<lparr>bm_OwnerPK := ae_Public env key\<rparr>"
  note run = assms [unfolded agent_New_def key option.case Let_def col top sum.case m1_def [symmetric]
      m2_def [symmetric] meta_def [symmetric]]
  have ids: "bm_ID (ac_Meta cfg) \<noteq> []" "bm_ChainID (ac_Meta cfg) \<noteq> []" "bm_Host (ac_Meta cfg) \<noteq> []"
    using run key by (auto split: if_splits)
  obtain enc where enc: "CanonicalBackendMeta (ae_reg env) meta = Inr enc"
    using run key ids by (auto split: sum.splits)
  show thesis
    by (rule that [of key collector topics meta enc])
      (use run key ids col top enc in \<open>auto simp: meta_def m2_def m1_def\<close>)
qed

lemma agent_New_inv:
  assumes "key_pair_laws env" and "agent_New env now cfg = Inr a"
  shows "agent_inv env (ag_meta a) a"
  using assms(2)
proof (rule agent_New_Inr)
  fix key topics collector meta enc
  assume m: "length key = PrivateKeySize" "CanonicalBackendMeta (ae_reg env) meta = Inr enc"
    "bm_OwnerPK meta = ae_Public env key" "bm_Clock meta \<noteq> 0"
    "ag_meta a = meta\<lparr>bm_Sig := ae_Sign env key enc\<rparr>" "ag_ownerKey a = key" "ag_metaClock a = bm_Clock meta"
    "\<exists>d. ag_store a = NewStore d"
  then show ?thesis using assms(1) by (auto simp: agent_inv_def authentic_meta_def key_pair_laws_def)
qed

lemma publishMeta_inv:
  assumes "agent_inv env meta a"
  shows "publishMeta env now a =
    (case PublishBackendMeta (ae_gossip env) (ae_reg env) now (ag_topics a) (ag_store a) meta of
       (store, out) \<Rightarrow> (a\<lparr>ag_store := store\<rparr>, out))"
    and "agent_inv env meta (fst (publishMeta env now a))"
proof -
  have m: "(ag_meta a)\<lparr>bm_Clock := ag_metaClock a\<rparr> = meta" "ag_metaClock a \<noteq> 0" "ag_meta a = meta"
    using assms by (auto simp: agent_inv_def)
  show eq: "publishMeta env now a =
    (case PublishBackendMeta (ae_gossip env) (ae_reg env) now (ag_topics a) (ag_store a) meta of
       (store, out) \<Rightarrow> (a\<lparr>ag_store := store\<rparr>, out))"
    using m by (cases a) (simp add: publishMeta_def Let_def)
  have "store_wf (fst (PublishBackendMeta (ae_gossip env) (ae_reg env) now (ag_topics a) (ag_store a) meta))"
    using assms store_wf_step [of "ag_store a" "ae_reg env" "ApplyMeta meta"]
    by (simp add: agent_inv_def PublishBackendMeta_def split: sum.split)
  with assms show "agent_inv env meta (fst (publishMeta env now a))"
    by (simp add: eq agent_inv_def case_prod_unfold)
qed

text \<open>The sample a collection publishes.\<close>

definition signed_sample :: "'pk agent_env \<Rightarrow> Agent \<Rightarrow> BackendMetrics \<Rightarrow> bool" where
  "signed_sample env a x \<longleftrightarrow> mx_ID x = bm_ID (ag_meta a) \<and>
     (\<exists>enc. CanonicalBackendMetrics (ae_reg env) x = Inr enc \<and> mx_Sig x = ae_Sign env (ag_ownerKey a) enc)"

definition sample_at :: "'pk agent_env \<Rightarrow> probe_times \<Rightarrow> time \<Rightarrow> Agent \<Rightarrow> BackendMetrics" where
  "sample_at env ts now a =
     (let x = metrics_of (bm_ID (ag_meta a)) now (fst (snd (Collect (ae_probe env) ts (ag_collector a))))
      in x\<lparr>mx_Sig := (case CanonicalBackendMetrics (ae_reg env) x of
                         Inl _ \<Rightarrow> [] | Inr enc \<Rightarrow> ae_Sign env (ag_ownerKey a) enc)\<rparr>)"

lemma CanonicalBackendMetrics_sig [simp]:
  "CanonicalBackendMetrics env (x\<lparr>mx_Sig := s\<rparr>) = CanonicalBackendMetrics env x"
  by (simp add: CanonicalBackendMetrics_def)

lemma collectAndPublish_Inr:
  assumes "collectAndPublish env ts now a = (a', Inr data)"
  obtains store where "signed_sample env a (sample_at env ts now a)"
    and "PublishBackendMetrics (ae_gossip env) now (ag_topics a) (ag_store a) (sample_at env ts now a) = (store, Inr data)"
proof -
  obtain c r err where c: "Collect (ae_probe env) ts (ag_collector a) = (c, r, err)" by (metis surj_pair)
  obtain enc where enc: "CanonicalBackendMetrics (ae_reg env) (metrics_of (bm_ID (ag_meta a)) now r) = Inr enc"
    using assms c by (auto simp: collectAndPublish_def Let_def split: sum.splits)
  have s: "sample_at env ts now a = (metrics_of (bm_ID (ag_meta a)) now r)\<lparr>mx_Sig := ae_Sign env (ag_ownerKey a) enc\<rparr>"
    by (simp add: sample_at_def c enc)
  have "signed_sample env a (sample_at env ts now a)" by (simp add: signed_sample_def s enc) (simp add: metrics_of_def)
  moreover obtain store where
    "PublishBackendMetrics (ae_gossip env) now (ag_topics a) (ag_store a) (sample_at env ts now a) = (store, Inr data)"
    using assms c enc unfolding s by (auto simp: collectAndPublish_def Let_def split: prod.splits)
  ultimately show thesis by (rule that)
qed

lemma collectAndPublish_inv:
  assumes "agent_inv env meta a"
  shows "agent_inv env meta (fst (collectAndPublish env ts now a))"
    and "ag_ownerKey (fst (collectAndPublish env ts now a)) = ag_ownerKey a"
proof -
  have "store_wf (fst (PublishBackendMetrics g now topics (ag_store a) x))" for g :: "'a gossip_env" and topics x
    using assms by (simp add: agent_inv_def PublishBackendMetrics_def store_wf_metrics split: sum.split)
  with assms show "agent_inv env meta (fst (collectAndPublish env ts now a))"
    "ag_ownerKey (fst (collectAndPublish env ts now a)) = ag_ownerKey a"
    by (simp_all add: agent_inv_def collectAndPublish_def case_prod_unfold Let_def split: sum.split)
qed

lemma agent_step_inv:
  assumes "agent_inv env meta a"
  shows "agent_inv env meta (fst (agent_step env a e)) \<and> ag_ownerKey (fst (agent_step env a e)) = ag_ownerKey a"
proof (cases e)
  case (MetaTick now)
  then show ?thesis
    using publishMeta_inv [OF assms, of now]
    by (auto simp: case_prod_unfold agent_inv_def split: prod.splits sum.splits)
next
  case (MetricsTick ts now)
  then show ?thesis
    using collectAndPublish_inv [OF assms, of ts now] by (auto split: prod.splits sum.splits)
qed

text \<open>What a neighbour does with a message of the agent.\<close>

definition delivered :: "'pk agent_env \<Rightarrow> peerID \<Rightarrow> Agent \<Rightarrow> string \<times> bytes \<Rightarrow> bool" where
  "delivered env own a = (\<lambda>(topic, data).
     topicValidator (ae_gossip env) topic own data \<and>
     (topic = TopicBackendsMeta \<and>
        (\<forall>renv now t. consume (ae_gossip env) renv now t topic own data = fst (ApplyBackendMeta renv t (ag_meta a)))
      \<or> topic = TopicBackendsMetrics \<and>
        (\<exists>x. signed_sample env a x \<and>
          (\<forall>renv now t. consume (ae_gossip env) renv now t topic own data = ApplyBackendMetrics now t x))))"

lemma agent_step_delivered:
  assumes "codec_laws (ae_gossip env)" and "key_laws (ae_gossip env) own" and "agent_inv env meta a"
    and "m \<in> set (snd (agent_step env a e))"
  shows "delivered env own a m"
proof (cases e)
  case (MetaTick now)
  then obtain a' data where pub: "publishMeta env now a = (a', Inr data)" and m: "m = (TopicBackendsMeta, data)"
    using assms(4) by (auto split: prod.splits sum.splits)
  then obtain store where
    "PublishBackendMeta (ae_gossip env) (ae_reg env) now (ag_topics a) (ag_store a) meta = (store, Inr data)"
    using publishMeta_inv(1) [OF assms(3), of now] by (auto split: prod.splits)
  moreover have "ag_meta a = meta" using assms(3) by (simp add: agent_inv_def)
  ultimately show ?thesis
    using publish_meta_delivered [OF assms(1,2)] by (simp add: delivered_def m)
next
  case (MetricsTick ts now)
  then obtain a' data where pub: "collectAndPublish env ts now a = (a', Inr data)" and m: "m = (TopicBackendsMetrics, data)"
    using assms(4) by (auto split: prod.splits sum.splits)
  show ?thesis
    by (rule collectAndPublish_Inr [OF pub])
      (use publish_metrics_delivered [OF assms(1,2)] in \<open>auto simp: delivered_def m\<close>)
qed

lemma delivered_cong:
  "ag_meta a' = ag_meta a \<Longrightarrow> ag_ownerKey a' = ag_ownerKey a \<Longrightarrow> delivered env own a' = delivered env own a"
  by (simp add: delivered_def signed_sample_def fun_eq_iff)

lemma agent_run_inv:
  assumes "agent_inv env meta a"
  shows "agent_inv env meta (fst (agent_run env a es)) \<and> ag_ownerKey (fst (agent_run env a es)) = ag_ownerKey a"
  using assms
proof (induction es arbitrary: a)
  case (Cons e es)
  with Cons.IH [of "fst (agent_step env a e)"] agent_step_inv [OF Cons.prems, of e]
  show ?case by (simp add: case_prod_unfold Let_def)
qed simp

lemma agent_run_delivered:
  assumes "codec_laws (ae_gossip env)" and "key_laws (ae_gossip env) own" and "agent_inv env meta a"
  shows "list_all (delivered env own a) (snd (agent_run env a es))"
  using assms(3)
proof (induction es arbitrary: a)
  case (Cons e es)
  let ?a = "fst (agent_step env a e)"
  note inv = agent_step_inv [OF Cons.prems, of e]
  have "delivered env own ?a = delivered env own a"
    using inv Cons.prems by (intro delivered_cong) (simp_all add: agent_inv_def)
  then have "list_all (delivered env own a) (snd (agent_run env ?a es))" using Cons.IH [of ?a] inv by simp
  moreover have "list_all (delivered env own a) (snd (agent_step env a e))"
    using agent_step_delivered [OF assms(1,2) Cons.prems] by (simp add: list_all_iff)
  ultimately show ?case by (simp add: case_prod_unfold Let_def)
qed simp

section \<open>Properties\<close>

definition demo_agent_env :: "bytes agent_env" where
  "demo_agent_env = \<lparr>ae_gossip = demo_gossip, ae_reg = demo_env, ae_probe = demo_probe,
     ae_NewService = Inr [TopicBackendsMeta], ae_Public = (\<lambda>k. replicate 32 0), ae_Sign = (\<lambda>k m. m)\<rparr>"

definition demo_agent_cfg :: agent_Config where
  "demo_agent_cfg = \<lparr>ac_IdentityKey = Some [1], ac_Meta = demo_meta ''b1'' 1 [], ac_MetricsInterval = 0,
     ac_VerifyListen = [], ac_OwnerKey = Some (replicate 64 0), ac_Collector = co_cfg (demo_collector zero_sample)\<rparr>"

definition demo_agent :: Agent where
  "demo_agent = \<lparr>ag_topics = [TopicBackendsMeta], ag_store = NewStore (6 * second), ag_ownerKey = replicate 64 0,
     ag_meta = demo_meta ''b1'' 1 [2], ag_verifyListen = '':8081'', ag_metricsInterval = 2 * second,
     ag_collector = demo_collector zero_sample, ag_metaClock = 1\<rparr>"

lemma demo_agent_laws: "key_pair_laws demo_agent_env"
  by (simp add: key_pair_laws_def demo_agent_env_def demo_env_def PublicKeySize_def)

lemma demo_agent_New: "agent_New demo_agent_env 0 demo_agent_cfg = Inr demo_agent"
  by (simp add: agent_New_def demo_agent_cfg_def demo_agent_env_def demo_agent_def PrivateKeySize_def
      NewCollector_def demo_collector_def CanonicalBackendMeta_def demo_env_def demo_meta_def second_def
      wrap_i64_def Let_def)

lemma demo_agent_run:
  "snd (agent_run demo_agent_env demo_agent [MetaTick 0]) = [(TopicBackendsMeta, [9])]"
proof -
  have "marshal_meta demo_gossip (demo_meta ''b1'' 1 [2]) = Inr [7]" by (simp add: demo_gossip_def)
  then have "PublishBackendMeta demo_gossip demo_env 0 [TopicBackendsMeta] t (demo_meta ''b1'' 1 [2]) =
      (fst (ApplyBackendMeta demo_env t (demo_meta ''b1'' 1 [2])), Inr [9])" for t
    by (simp add: PublishBackendMeta_def Publish_def demo_publish) (simp add: demo_meta_def demo_publish)
  moreover have "(demo_meta ''b1'' 1 [2])\<lparr>bm_Clock := 1\<rparr> = demo_meta ''b1'' 1 [2]" by (simp add: demo_meta_def)
  ultimately show ?thesis
    by (simp add: publishMeta_def demo_agent_def demo_agent_env_def Let_def)
qed

text \<open>
  C16. An agent announces one authentic record for life: after any sequence of ticks the record is the
  one it was created with, with the identifier, chain and host of its configuration, the public part
  of its owner key and a valid signature; and every message it hands to a topic passes the validator
  of a neighbour, which then applies that record or a metrics sample of that backend signed with the
  owner key.
\<close>

theorem agent_messages_delivered:
  assumes "key_pair_laws env" and "codec_laws (ae_gossip env)" and "key_laws (ae_gossip env) own"
    and "agent_New env now cfg = Inr a"
  shows "let (a', out) = agent_run env a es in
      ag_meta a' = ag_meta a \<and> authentic_meta (ae_reg env) (ag_meta a')
      \<and> bm_ID (ag_meta a') = bm_ID (ac_Meta cfg) \<and> bm_ChainID (ag_meta a') = bm_ChainID (ac_Meta cfg)
      \<and> bm_Host (ag_meta a') = bm_Host (ac_Meta cfg) \<and> list_all (delivered env own a) out"
proof -
  note inv = agent_New_inv [OF assms(1,4)]
  have "agent_inv env (ag_meta a) (fst (agent_run env a es))" using agent_run_inv [OF inv] by simp
  moreover have "bm_ID (ag_meta a) = bm_ID (ac_Meta cfg)" "bm_ChainID (ag_meta a) = bm_ChainID (ac_Meta cfg)"
    "bm_Host (ag_meta a) = bm_Host (ac_Meta cfg)"
    using assms(4) by (auto elim!: agent_New_Inr)
  ultimately show ?thesis
    using agent_run_delivered [OF assms(2,3) inv, of es] by (simp add: agent_inv_def case_prod_unfold Let_def)
qed

theorem agent_messages_delivered_witness:
  "delivered demo_agent_env ''peerA'' demo_agent (TopicBackendsMeta, [9])
   \<and> authentic_meta demo_env (demo_meta ''b1'' 1 [2])"
proof -
  obtain a' where run: "agent_run demo_agent_env demo_agent [MetaTick 0] = (a', [(TopicBackendsMeta, [9])])"
    using demo_agent_run by (metis prod.collapse)
  have "codec_laws (ae_gossip demo_agent_env)" "key_laws (ae_gossip demo_agent_env) ''peerA''"
    "ae_reg demo_agent_env = demo_env" "ag_meta demo_agent = demo_meta ''b1'' 1 [2]"
    by (simp_all add: demo_agent_env_def demo_gossip_laws demo_agent_def)
  with agent_messages_delivered [OF demo_agent_laws _ _ demo_agent_New, of "''peerA''" "[MetaTick 0]"] run
  show ?thesis by auto
qed



text \<open>
  What a challenge signature is bound to: for identifiers without a bar the signed message
  determines both the identifier and the challenge; with a bar, two different pairs have the same
  message.
\<close>

theorem challenge_message_binding:
  assumes "CHR ''|'' \<notin> set i" and "CHR ''|'' \<notin> set j"
  shows "(buildChallengeMessage i c = buildChallengeMessage j d \<longleftrightarrow> i = j \<and> c = d)
    \<and> buildChallengeMessage (i @ ''|'' @ j) c = buildChallengeMessage i (j @ ''|'' @ c)"
proof -
  have "i = j \<and> c = d" if "i @ CHR ''|'' # c = j @ CHR ''|'' # d"
  proof -
    have "Split (i @ CHR ''|'' # c) CHR ''|'' = i # Split c CHR ''|''" "Split (j @ CHR ''|'' # d) CHR ''|'' = j # Split d CHR ''|''"
      using assms by (simp_all add: Split_append_sep)
    with that show ?thesis by simp
  qed
  then show ?thesis by (auto simp: buildChallengeMessage_def)
qed

theorem challenge_message_binding_witness:
  "buildChallengeMessage ''b1'' ''x'' \<noteq> buildChallengeMessage ''b2'' ''x''"
  using challenge_message_binding [of "''b1''" "''b2''" "''x''" "''x''"] by simp

end
