(* ===== verification/Gossip_Start.thy ===== *)
theory Gossip_Start
  imports Gossip_Service
begin

text \<open>
  Starting and stopping the gossip service (\<^verbatim>\<open>NewService\<close>, \<^verbatim>\<open>registerValidators\<close>, \<^verbatim>\<open>connectBootstraps\<close>,
  \<^verbatim>\<open>startAntiEntropy\<close>, \<^verbatim>\<open>startMaintenance\<close> and \<^verbatim>\<open>Shutdown\<close> of \<^verbatim>\<open>pkg/gossip/service.go\<close>). libp2p and badger are
  arguments that say which calls fail; what they have open or running in the process is the state.
\<close>

section \<open>Data\<close>

record svc_Config =
  sc_Bootstrap :: "string list"
  sc_DataDir :: string
  sc_IdentityKey :: "bytes option"
  sc_SyncInterval :: duration
  sc_PruneInterval :: duration

record Service =
  sv_topics :: "string list"
  sv_subCancel :: "string list"
  sv_db :: bool
  sv_hasStore :: bool
  sv_syncInterval :: duration
  sv_pruneInterval :: duration

text \<open>The errors of the packages called, \<open>None\<close> where a call succeeds.\<close>

record start_env =
  se_New :: "string option"
  se_NewGossipSub :: "string option"
  se_RegisterTopicValidator :: "string \<Rightarrow> string option"
  se_badger :: "string \<Rightarrow> string option"
  se_Join :: "string \<Rightarrow> string option"
  se_Subscribe :: "string \<Rightarrow> string option"
  se_NewMultiaddr :: "string \<Rightarrow> string + string"
  se_AddrInfo :: "string \<Rightarrow> string + peerID"
  se_Connect :: "peerID \<Rightarrow> string option"
  se_hostClose :: "string option"

datatype loop = Consume string | AntiEntropy duration | Maintenance duration

record process =
  w_host :: bool
  w_db :: bool
  w_validators :: "string list"
  w_loops :: "loop list"
  w_handler :: bool
  w_peers :: "peerID list"

definition idle :: process where
  "idle = \<lparr>w_host = False, w_db = False, w_validators = [], w_loops = [], w_handler = False, w_peers = []\<rparr>"

section \<open>Operations\<close>

text \<open>\<^verbatim>\<open>cancel\<close> ends the context that all loops of the service run in.\<close>

definition svc_cancel :: "process \<Rightarrow> process" where
  "svc_cancel w = w\<lparr>w_loops := []\<rparr>"

definition all_topics :: "string list" where
  "all_topics = [TopicBackendsMeta, TopicBackendsMetrics, TopicNodeAdverts]"

fun register_loop :: "start_env \<Rightarrow> string list \<Rightarrow> process \<Rightarrow> process \<times> string option" where
  "register_loop se [] w = (w, None)"
| "register_loop se (topic # topics) w =
     (case se_RegisterTopicValidator se topic of
        Some err \<Rightarrow> (w, Some err)
      | None \<Rightarrow> register_loop se topics (w\<lparr>w_validators := w_validators w @ [topic]\<rparr>))"

definition registerValidators :: "start_env \<Rightarrow> process \<Rightarrow> process \<times> string option" where
  "registerValidators se w = register_loop se all_topics w"

fun join_loop :: "start_env \<Rightarrow> string list \<Rightarrow> Service \<Rightarrow> process \<Rightarrow> process \<times> (string + Service)" where
  "join_loop se [] svc w = (w, Inr svc)"
| "join_loop se (topic # topics) svc w =
     (case se_Join se topic of
        Some err \<Rightarrow> (svc_cancel w, Inl (''gossip: subscribe '' @ topic @ '': '' @ err))
      | None \<Rightarrow>
          let svc = svc\<lparr>sv_topics := sv_topics svc @ [topic]\<rparr>
          in case se_Subscribe se topic of
               Some err \<Rightarrow> (svc_cancel w, Inl (''gossip: subscribe '' @ topic @ '': '' @ err))
             | None \<Rightarrow>
                 join_loop se topics (svc\<lparr>sv_subCancel := sv_subCancel svc @ [topic]\<rparr>)
                   (w\<lparr>w_loops := w_loops w @ [Consume topic]\<rparr>))"

definition startAntiEntropy :: "Service \<Rightarrow> process \<Rightarrow> process" where
  "startAntiEntropy svc w =
     (if \<not> sv_hasStore svc then w
      else let interval = (if sv_syncInterval svc \<le> 0 then 10 * second else sv_syncInterval svc)
           in w\<lparr>w_loops := w_loops w @ [AntiEntropy interval]\<rparr>)"

definition startMaintenance :: "Service \<Rightarrow> process \<Rightarrow> process" where
  "startMaintenance svc w =
     (if \<not> sv_hasStore svc then w
      else let interval = (if sv_pruneInterval svc \<le> 0 then 60 * second else sv_pruneInterval svc)
           in w\<lparr>w_loops := w_loops w @ [Maintenance interval]\<rparr>)"

fun connectBootstraps :: "start_env \<Rightarrow> string list \<Rightarrow> process \<Rightarrow> process" where
  "connectBootstraps se [] w = w"
| "connectBootstraps se (addr # addrs) w =
     (case se_NewMultiaddr se addr of
        Inl _ \<Rightarrow> connectBootstraps se addrs w
      | Inr ma \<Rightarrow>
          (case se_AddrInfo se ma of
             Inl _ \<Rightarrow> connectBootstraps se addrs w
           | Inr pid \<Rightarrow>
               (case se_Connect se pid of
                  Some _ \<Rightarrow> connectBootstraps se addrs w
                | None \<Rightarrow> connectBootstraps se addrs (w\<lparr>w_peers := w_peers w @ [pid]\<rparr>))))"

definition NewService :: "start_env \<Rightarrow> svc_Config \<Rightarrow> bool \<Rightarrow> process \<Rightarrow> process \<times> (string + Service)" where
  "NewService se cfg hasStore w =
     (if sc_IdentityKey cfg = None then (w, Inl ''gossip: identity key required'')
      else
        let syncInterval = (if sc_SyncInterval cfg \<le> 0 then 10 * second else sc_SyncInterval cfg);
            pruneInterval = (if sc_PruneInterval cfg \<le> 0 then 30 * second else sc_PruneInterval cfg)
        in case se_New se of
             Some err \<Rightarrow> (w, Inl (''gossip: create host: '' @ err))
           | None \<Rightarrow>
               let w = w\<lparr>w_host := True\<rparr>
               in case se_NewGossipSub se of
                    Some err \<Rightarrow> (w, Inl (''gossip: gossip sub: '' @ err))
                  | None \<Rightarrow>
                      let svc = \<lparr>sv_topics = [], sv_subCancel = [], sv_db = False, sv_hasStore = hasStore,
                                 sv_syncInterval = syncInterval, sv_pruneInterval = pruneInterval\<rparr>
                      in case registerValidators se w of
                           (w, Some err) \<Rightarrow> (svc_cancel w, Inl (''gossip: register validators: '' @ err))
                         | (w, None) \<Rightarrow>
                             (case (if sc_DataDir cfg \<noteq> [] then se_badger se (sc_DataDir cfg) else None) of
                                Some err \<Rightarrow> (svc_cancel w, Inl (''gossip: open badger: '' @ err))
                              | None \<Rightarrow>
                                  let db = (sc_DataDir cfg \<noteq> []);
                                      w = w\<lparr>w_db := db\<rparr>;
                                      svc = svc\<lparr>sv_db := db\<rparr>
                                  in case join_loop se all_topics svc w of
                                       (w, Inl err) \<Rightarrow> (w, Inl err)
                                     | (w, Inr svc) \<Rightarrow>
                                         let w = w\<lparr>w_handler := True\<rparr>;
                                             w = startAntiEntropy svc w;
                                             w = startMaintenance svc w;
                                             w = connectBootstraps se (sc_Bootstrap cfg) w
                                         in (w, Inr svc)))"

text \<open>\<open>inTime\<close>: the database is closed before the context of the caller ends.\<close>

definition Shutdown :: "start_env \<Rightarrow> bool \<Rightarrow> Service \<Rightarrow> process \<Rightarrow> process \<times> string option" where
  "Shutdown se inTime svc w =
     (let w = svc_cancel w;
          w = w\<lparr>w_loops := filter (\<lambda>l. case l of Consume t \<Rightarrow> t \<notin> set (sv_subCancel svc) | _ \<Rightarrow> True) (w_loops w)\<rparr>;
          w = (if sv_db svc \<and> inTime then w\<lparr>w_db := False\<rparr> else w);
          w = w\<lparr>w_handler := False\<rparr>
      in (w\<lparr>w_host := False, w_peers := []\<rparr>, se_hostClose se))"

section \<open>Facts\<close>

definition starts :: "start_env \<Rightarrow> svc_Config \<Rightarrow> bool" where
  "starts se cfg \<longleftrightarrow>
     sc_IdentityKey cfg \<noteq> None \<and> se_New se = None \<and> se_NewGossipSub se = None
     \<and> (\<forall>t \<in> set all_topics. se_RegisterTopicValidator se t = None \<and> se_Join se t = None \<and> se_Subscribe se t = None)
     \<and> (sc_DataDir cfg \<noteq> [] \<longrightarrow> se_badger se (sc_DataDir cfg) = None)"

lemma register_loop_eq:
  "register_loop se topics w =
     (w\<lparr>w_validators := w_validators w @ takeWhile (\<lambda>t. se_RegisterTopicValidator se t = None) topics\<rparr>,
      case dropWhile (\<lambda>t. se_RegisterTopicValidator se t = None) topics of
        [] \<Rightarrow> None | t # _ \<Rightarrow> se_RegisterTopicValidator se t)"
  by (induction se topics w rule: register_loop.induct) (auto split: option.splits)

lemma join_loop_ok:
  assumes "\<forall>t \<in> set topics. se_Join se t = None \<and> se_Subscribe se t = None"
  shows "join_loop se topics svc w =
     (w\<lparr>w_loops := w_loops w @ map Consume topics\<rparr>,
      Inr (svc\<lparr>sv_topics := sv_topics svc @ topics, sv_subCancel := sv_subCancel svc @ topics\<rparr>))"
  using assms by (induction se topics svc w rule: join_loop.induct) simp_all

lemma join_loop_fails:
  assumes "\<exists>t \<in> set topics. se_Join se t \<noteq> None \<or> se_Subscribe se t \<noteq> None"
  shows "\<exists>err. join_loop se topics svc w = (w\<lparr>w_loops := []\<rparr>, Inl err)"
  using assms
proof (induction se topics svc w rule: join_loop.induct)
  case (2 se topic topics svc w)
  then show ?case
    by (cases "se_Join se topic"; cases "se_Subscribe se topic") (simp_all add: svc_cancel_def)
qed simp

lemma connectBootstraps_keeps:
  "w_host (connectBootstraps se addrs w) = w_host w" "w_db (connectBootstraps se addrs w) = w_db w"
  "w_loops (connectBootstraps se addrs w) = w_loops w" "w_handler (connectBootstraps se addrs w) = w_handler w"
  "w_validators (connectBootstraps se addrs w) = w_validators w"
  by (induction se addrs w rule: connectBootstraps.induct) (simp_all split: sum.split option.split)

lemma connectBootstraps_peers:
  "w_peers (connectBootstraps se addrs w) =
     w_peers w @ filter (\<lambda>p. se_Connect se p = None)
       (List.map_filter (\<lambda>a. case se_NewMultiaddr se a of Inl _ \<Rightarrow> None
                             | Inr ma \<Rightarrow> (case se_AddrInfo se ma of Inl _ \<Rightarrow> None | Inr p \<Rightarrow> Some p)) addrs)"
  by (induction se addrs w rule: connectBootstraps.induct)
    (simp_all add: List.map_filter_simps split: sum.split option.split)

lemma register_ok:
  "registerValidators se w = (w', None) \<longleftrightarrow>
     (\<forall>t \<in> set all_topics. se_RegisterTopicValidator se t = None) \<and> w' = w\<lparr>w_validators := w_validators w @ all_topics\<rparr>"
  by (auto simp: registerValidators_def all_topics_def split: option.splits)

lemma register_fails:
  "registerValidators se w = (w', Some err) \<Longrightarrow> w_host w' = w_host w \<and> (\<exists>t \<in> set all_topics. se_RegisterTopicValidator se t \<noteq> None)"
  by (auto simp: registerValidators_def all_topics_def split: option.splits)

lemma NewService_ok:
  assumes "starts se cfg"
  shows "\<exists>svc. NewService se cfg hasStore w =
      (connectBootstraps se (sc_Bootstrap cfg) (startMaintenance svc (startAntiEntropy svc
         (w\<lparr>w_host := True, w_validators := w_validators w @ all_topics, w_db := (sc_DataDir cfg \<noteq> []),
            w_loops := w_loops w @ map Consume all_topics, w_handler := True\<rparr>))), Inr svc)
    \<and> sv_topics svc = all_topics \<and> sv_subCancel svc = all_topics \<and> sv_db svc = (sc_DataDir cfg \<noteq> []) \<and> sv_hasStore svc = hasStore
    \<and> 0 < sv_syncInterval svc \<and> 0 < sv_pruneInterval svc"
proof -
  have reg: "registerValidators se v = (v\<lparr>w_validators := w_validators v @ all_topics\<rparr>, None)" for v
    using assms by (simp add: register_ok starts_def)
  have join: "join_loop se all_topics svc v = (v\<lparr>w_loops := w_loops v @ map Consume all_topics\<rparr>,
      Inr (svc\<lparr>sv_topics := sv_topics svc @ all_topics, sv_subCancel := sv_subCancel svc @ all_topics\<rparr>))" for svc v
    using assms by (intro join_loop_ok) (simp add: starts_def)
  have db: "(if sc_DataDir cfg \<noteq> [] then se_badger se (sc_DataDir cfg) else None) = None"
    using assms by (simp add: starts_def)
  show ?thesis
    using assms unfolding NewService_def Let_def reg prod.case option.case db join sum.case
    by (simp add: starts_def second_def)
qed

lemma NewService_fails:
  assumes "\<not> starts se cfg"
  shows "\<exists>w' err. NewService se cfg hasStore w = (w', Inl err)
    \<and> w_host w' = (if sc_IdentityKey cfg \<noteq> None \<and> se_New se = None then True else w_host w)"
proof (cases "sc_IdentityKey cfg = None \<or> se_New se \<noteq> None \<or> se_NewGossipSub se \<noteq> None")
  case True
  then show ?thesis by (auto simp: NewService_def Let_def)
next
  case False
  let ?w = "w\<lparr>w_host := True\<rparr>" and ?db = "if sc_DataDir cfg \<noteq> [] then se_badger se (sc_DataDir cfg) else None"
  obtain w1 e1 where reg: "registerValidators se ?w = (w1, e1)" by (cases "registerValidators se ?w")
  show ?thesis
  proof (cases e1)
    case (Some err)
    with reg register_fails [of se ?w w1 err] False show ?thesis
      by (auto simp: NewService_def Let_def svc_cancel_def)
  next
    case None
    with reg have w1: "w1 = ?w\<lparr>w_validators := w_validators ?w @ all_topics\<rparr>"
      and reg_ok: "\<forall>t \<in> set all_topics. se_RegisterTopicValidator se t = None" by (simp_all add: register_ok)
    show ?thesis
    proof (cases ?db)
      case (Some err)
      with reg None w1 False show ?thesis by (auto simp: NewService_def Let_def svc_cancel_def)
    next
      case no_err: None
      have "\<exists>t \<in> set all_topics. se_Join se t \<noteq> None \<or> se_Subscribe se t \<noteq> None"
        using assms False reg_ok no_err by (auto simp: starts_def split: if_splits)
      from join_loop_fails [OF this] obtain err where
        "join_loop se all_topics svc v = (v\<lparr>w_loops := []\<rparr>, Inl (err svc v))" for svc v by metis
      then show ?thesis
        using reg None w1 False no_err by (auto simp: NewService_def Let_def)
    qed
  qed
qed

lemma Publish_joined:
  "t \<in> set all_topics \<Longrightarrow> Publish g now all_topics t payload clock = encodeEnvelope g now t payload clock"
  by (auto simp: Publish_def all_topics_def split: sum.split)

section \<open>Properties\<close>


text \<open>
  A start that fails leaves the host running. Once the libp2p host is created, every later failure
  returns an error without closing it, so its sockets stay open and the caller has no handle to close
  them.
\<close>

theorem failed_start_leaks_host:
  assumes "sc_IdentityKey cfg \<noteq> None" and "se_New se = None" and "\<not> starts se cfg"
  shows "\<exists>w err. NewService se cfg hasStore idle = (w, Inl err) \<and> w_host w"
  using NewService_fails [OF assms(3), of hasStore idle] assms(1,2) by auto

definition demo_start :: start_env where
  "demo_start = \<lparr>se_New = None, se_NewGossipSub = None, se_RegisterTopicValidator = (\<lambda>_. None),
     se_badger = (\<lambda>_. Some ''locked''), se_Join = (\<lambda>_. None), se_Subscribe = (\<lambda>_. None),
     se_NewMultiaddr = Inr, se_AddrInfo = Inr, se_Connect = (\<lambda>_. None), se_hostClose = None\<rparr>"

theorem failed_start_leaks_host_witness:
  "\<exists>w err. NewService demo_start \<lparr>sc_Bootstrap = [], sc_DataDir = ''data'', sc_IdentityKey = Some [1],
     sc_SyncInterval = 0, sc_PruneInterval = 0\<rparr> True idle = (w, Inl err) \<and> w_host w"
  by (rule failed_start_leaks_host) (simp_all add: demo_start_def starts_def)

end
