(* ===== verification/Agent_Lifecycle.thy ===== *)
theory Agent_Lifecycle
  imports Mesh_Agent Gossip_Start
begin

text \<open>
  The running agent (\<^verbatim>\<open>Run\<close>, \<^verbatim>\<open>runVerifyServer\<close>, \<^verbatim>\<open>runMetricsLoop\<close>, \<^verbatim>\<open>runMetaRepublishLoop\<close> and \<^verbatim>\<open>Close\<close> of
  \<^verbatim>\<open>pkg/agent/agent.go\<close>) as three goroutines of an error group, the listener of the HTTP server and the
  caller's context, interleaved step by step; and \<^verbatim>\<open>New\<close> with what it leaves open in the process. The error
  group is an argument with the laws of its documentation.
\<close>

section \<open>Errors and error groups\<close>

datatype go_error = Canceled | DeadlineExceeded | ErrServerClosed | Failure string

definition context_error :: "go_error \<Rightarrow> bool" where
  "context_error e \<longleftrightarrow> e = Canceled \<or> e = DeadlineExceeded"

text \<open>
  The package \<^verbatim>\<open>errgroup\<close>: a new group, a function of it returns, the context it was made from ends, the
  error of the context it hands out, and the result of \<^verbatim>\<open>Wait\<close> once all functions have returned.
\<close>

record 'g errgroup =
  eg_With :: 'g
  eg_Return :: "'g \<Rightarrow> go_error option \<Rightarrow> 'g"
  eg_Parent :: "'g \<Rightarrow> go_error \<Rightarrow> 'g"
  eg_Err :: "'g \<Rightarrow> go_error option"
  eg_Wait :: "'g \<Rightarrow> go_error option"

definition errgroup_laws :: "'g errgroup \<Rightarrow> bool" where
  "errgroup_laws eg \<longleftrightarrow>
     eg_Err eg (eg_With eg) = None \<and> eg_Wait eg (eg_With eg) = None
     \<and> (\<forall>g r. eg_Wait eg (eg_Return eg g r) = (if eg_Wait eg g = None then r else eg_Wait eg g)
            \<and> eg_Err eg (eg_Return eg g r) = (if eg_Err eg g = None \<and> r \<noteq> None then Some Canceled else eg_Err eg g))
     \<and> (\<forall>g e. eg_Wait eg (eg_Parent eg g e) = eg_Wait eg g
            \<and> eg_Err eg (eg_Parent eg g e) = (if eg_Err eg g = None then Some e else eg_Err eg g))"

section \<open>The running agent\<close>

text \<open>Where \<^verbatim>\<open>runVerifyServer\<close> is: in its \<^verbatim>\<open>select\<close>, waiting for the listener after \<^verbatim>\<open>Shutdown\<close>, or returned.\<close>

datatype verify_pc = VSelect | VDrain go_error | VDone

text \<open>\<open>ru_errCh\<close> and \<open>ru_closed\<close>: the content of the channel of capacity one, and whether it is closed.\<close>

record 'g running =
  ru_agent :: Agent
  ru_out :: "(string \<times> bytes) list"
  ru_group :: 'g
  ru_ended :: bool
  ru_verify :: verify_pc
  ru_listening :: bool
  ru_shutdown :: bool
  ru_errCh :: "go_error option"
  ru_closed :: bool
  ru_metrics :: bool
  ru_republish :: bool

text \<open>\<^verbatim>\<open>Run\<close> up to \<^verbatim>\<open>Wait\<close>: a failing publication is only logged.\<close>

definition run_begin :: "'pk agent_env \<Rightarrow> 'g errgroup \<Rightarrow> time \<Rightarrow> Agent \<Rightarrow> 'g running" where
  "run_begin env eg now a =
     (let (a', out) = publishMeta env now a;
          serves = (ag_verifyListen a' \<noteq> [])
      in \<lparr>ru_agent = a', ru_out = (case out of Inl _ \<Rightarrow> [] | Inr data \<Rightarrow> [(TopicBackendsMeta, data)]),
          ru_group = eg_With eg, ru_ended = False, ru_verify = (if serves then VSelect else VDone),
          ru_listening = serves, ru_shutdown = False, ru_errCh = None, ru_closed = False,
          ru_metrics = True, ru_republish = True\<rparr>)"

definition ru_returns :: "'g errgroup \<Rightarrow> go_error option \<Rightarrow> 'g running \<Rightarrow> 'g running" where
  "ru_returns eg r s = s\<lparr>ru_group := eg_Return eg (ru_group s) r\<rparr>"

text \<open>
  The listener returns: with \<^verbatim>\<open>ErrServerClosed\<close> only after \<^verbatim>\<open>Shutdown\<close>, with a failure at any time. The error
  goes to the channel unless it is \<^verbatim>\<open>ErrServerClosed\<close>, and the channel is closed.
\<close>

definition listener_returns :: "go_error \<Rightarrow> 'g running \<Rightarrow> 'g running option" where
  "listener_returns err s =
     (if ru_listening s \<and> \<not> context_error err \<and> (err = ErrServerClosed \<longrightarrow> ru_shutdown s)
      then Some (s\<lparr>ru_listening := False, ru_errCh := (if err \<noteq> ErrServerClosed then Some err else ru_errCh s),
                   ru_closed := True\<rparr>)
      else None)"

definition verify_cancelled :: "'g errgroup \<Rightarrow> 'g running \<Rightarrow> 'g running option" where
  "verify_cancelled eg s =
     (case eg_Err eg (ru_group s) of
        Some e \<Rightarrow> if ru_verify s = VSelect then Some (s\<lparr>ru_shutdown := True, ru_verify := VDrain e\<rparr>) else None
      | None \<Rightarrow> None)"

definition verify_received :: "'g errgroup \<Rightarrow> 'g running \<Rightarrow> 'g running option" where
  "verify_received eg s =
     (if ru_verify s = VSelect \<and> (ru_errCh s \<noteq> None \<or> ru_closed s)
      then Some (ru_returns eg (ru_errCh s) (s\<lparr>ru_errCh := None, ru_verify := VDone\<rparr>))
      else None)"

definition verify_drained :: "'g errgroup \<Rightarrow> 'g running \<Rightarrow> 'g running option" where
  "verify_drained eg s =
     (case ru_verify s of
        VDrain e \<Rightarrow>
          if ru_errCh s \<noteq> None \<or> ru_closed s
          then Some (ru_returns eg (Some e) (s\<lparr>ru_errCh := None, ru_verify := VDone\<rparr>)) else None
      | _ \<Rightarrow> None)"

text \<open>A tick of a loop that has not returned. The choice of a ready \<^verbatim>\<open>select\<close> is free, so a tick can still
  be served after the context has ended.\<close>

definition ticks :: "'pk agent_env \<Rightarrow> agent_event \<Rightarrow> 'g running \<Rightarrow> 'g running option" where
  "ticks env e s =
     (if (case e of MetaTick _ \<Rightarrow> ru_republish s | MetricsTick _ _ \<Rightarrow> ru_metrics s)
      then (case agent_step env (ru_agent s) e of (a, out) \<Rightarrow> Some (s\<lparr>ru_agent := a, ru_out := ru_out s @ out\<rparr>))
      else None)"

definition metrics_returns :: "'g errgroup \<Rightarrow> 'g running \<Rightarrow> 'g running option" where
  "metrics_returns eg s =
     (case eg_Err eg (ru_group s) of
        Some e \<Rightarrow> if ru_metrics s then Some (ru_returns eg (Some e) (s\<lparr>ru_metrics := False\<rparr>)) else None
      | None \<Rightarrow> None)"

definition republish_returns :: "'g errgroup \<Rightarrow> 'g running \<Rightarrow> 'g running option" where
  "republish_returns eg s =
     (case eg_Err eg (ru_group s) of
        Some e \<Rightarrow> if ru_republish s then Some (ru_returns eg (Some e) (s\<lparr>ru_republish := False\<rparr>)) else None
      | None \<Rightarrow> None)"

datatype run_event =
    Ends go_error
  | Listener go_error
  | Cancelled
  | Received
  | Drained
  | Ticks agent_event
  | MetricsReturns
  | RepublishReturns

fun run_step :: "'pk agent_env \<Rightarrow> 'g errgroup \<Rightarrow> 'g running \<Rightarrow> run_event \<Rightarrow> 'g running option" where
  "run_step env eg s (Ends e) =
     (if \<not> ru_ended s \<and> context_error e
      then Some (s\<lparr>ru_ended := True, ru_group := eg_Parent eg (ru_group s) e\<rparr>) else None)"
| "run_step env eg s (Listener err) = listener_returns err s"
| "run_step env eg s Cancelled = verify_cancelled eg s"
| "run_step env eg s Received = verify_received eg s"
| "run_step env eg s Drained = verify_drained eg s"
| "run_step env eg s (Ticks e) = ticks env e s"
| "run_step env eg s MetricsReturns = metrics_returns eg s"
| "run_step env eg s RepublishReturns = republish_returns eg s"

inductive runs :: "'pk agent_env \<Rightarrow> 'g errgroup \<Rightarrow> 'g running \<Rightarrow> run_event list \<Rightarrow> 'g running \<Rightarrow> bool"
  for env eg where
  Begin: "runs env eg s [] s"
| Next: "runs env eg s es s1 \<Longrightarrow> run_step env eg s1 e = Some s2 \<Longrightarrow> runs env eg s (es @ [e]) s2"

text \<open>All functions of the group have returned, so \<^verbatim>\<open>Wait\<close> returns; and what \<^verbatim>\<open>Run\<close> then returns.\<close>

definition run_done :: "'g running \<Rightarrow> bool" where
  "run_done s \<longleftrightarrow> ru_verify s = VDone \<and> \<not> ru_metrics s \<and> \<not> ru_republish s"

definition run_result :: "'g errgroup \<Rightarrow> 'g running \<Rightarrow> go_error option" where
  "run_result eg s =
     (case eg_Wait eg (ru_group s) of
        None \<Rightarrow> None | Some err \<Rightarrow> if context_error err then None else Some err)"

section \<open>Start and end\<close>

text \<open>
  \<^verbatim>\<open>New\<close> with the state of the process: \<open>scfg\<close> is the rest of the gossip configuration. A record that is refused
  after the service was started only cancels the context.
\<close>

definition agent_launch ::
    "'pk agent_env \<Rightarrow> start_env \<Rightarrow> svc_Config \<Rightarrow> time \<Rightarrow> agent_Config \<Rightarrow> process \<Rightarrow> process \<times> (string + Agent \<times> Service)" where
  "agent_launch env se scfg now cfg w =
     (case ac_OwnerKey cfg of
        None \<Rightarrow> (w, Inl ''agent: owner Ed25519 private key required'')
      | Some key \<Rightarrow>
          if length key \<noteq> PrivateKeySize then (w, Inl ''agent: owner Ed25519 private key required'')
          else if ac_IdentityKey cfg = None then (w, Inl ''agent: gossip identity key required'')
          else
            let interval = (if ac_MetricsInterval cfg \<le> 0 then 2 * second else ac_MetricsInterval cfg);
                verifyListen = (if ac_VerifyListen cfg = [] then '':8081'' else ac_VerifyListen cfg)
            in case NewCollector (ac_Collector cfg) of
                 Inl err \<Rightarrow> (w, Inl err)
               | Inr collector \<Rightarrow>
                   (let store = NewStore (wrap_i64 (interval * 3))
                    in case NewService se (scfg\<lparr>sc_IdentityKey := ac_IdentityKey cfg\<rparr>) True w of
                         (w, Inl err) \<Rightarrow> (svc_cancel w, Inl (''agent: start gossip service: '' @ err))
                       | (w, Inr service) \<Rightarrow>
                           let meta = ac_Meta cfg
                           in if bm_ID meta = [] then (svc_cancel w, Inl ''agent: backend ID required'')
                              else if bm_ChainID meta = [] then (svc_cancel w, Inl ''agent: chain ID required'')
                              else if bm_Host meta = [] then (svc_cancel w, Inl ''agent: backend host required'')
                              else
                                let meta = (if bm_AddedAt meta = 0 then meta\<lparr>bm_AddedAt := Unix now\<rparr> else meta);
                                    meta = (if bm_Clock meta = 0 then meta\<lparr>bm_Clock := 1\<rparr> else meta);
                                    meta = meta\<lparr>bm_OwnerPK := ae_Public env key\<rparr>
                                in case CanonicalBackendMeta (ae_reg env) meta of
                                     Inl err \<Rightarrow> (svc_cancel w, Inl (''agent: encode backend meta: '' @ err))
                                   | Inr encodedMeta \<Rightarrow>
                                       let meta = meta\<lparr>bm_Sig := ae_Sign env key encodedMeta\<rparr>
                                       in (w, Inr (\<lparr>ag_topics = sv_topics service, ag_store = store, ag_ownerKey = key,
                                               ag_meta = meta, ag_verifyListen = verifyListen,
                                               ag_metricsInterval = interval, ag_collector = collector,
                                               ag_metaClock = bm_Clock meta\<rparr>, service))))"

text \<open>\<^verbatim>\<open>Close\<close>: the context of the agent is the one the service was started in.\<close>

definition agent_Close :: "start_env \<Rightarrow> bool \<Rightarrow> Service \<Rightarrow> process \<Rightarrow> process \<times> string option" where
  "agent_Close se inTime svc w = Shutdown se inTime svc (svc_cancel w)"

section \<open>Invariant\<close>

fun tick_of :: "run_event \<Rightarrow> agent_event list" where
  "tick_of (Ticks e) = [e]"
| "tick_of _ = []"

text \<open>
  The context of the group lives as long as nothing returned and the caller's context lives; the first
  error is the end of the caller's context or a failure of the listener.
\<close>

definition group_inv :: "'g errgroup \<Rightarrow> run_event list \<Rightarrow> 'g running \<Rightarrow> bool" where
  "group_inv eg es s \<longleftrightarrow>
     (ru_ended s \<longleftrightarrow> (\<exists>e. Ends e \<in> set es))
   \<and> (case eg_Err eg (ru_group s) of
        None \<Rightarrow> \<not> ru_ended s \<and> eg_Wait eg (ru_group s) = None \<and> ru_metrics s \<and> ru_republish s
      | Some e \<Rightarrow> context_error e)
   \<and> (case eg_Wait eg (ru_group s) of
        None \<Rightarrow> ru_metrics s \<and> ru_republish s \<and> (ru_ended s \<or> eg_Err eg (ru_group s) = None)
      | Some e \<Rightarrow> if context_error e then ru_ended s else Listener e \<in> set es \<and> e \<noteq> ErrServerClosed)"

text \<open>
  The channel holds a failure of the listener and nothing before it returns; the server is waited
  for only after it was shut down, and has stopped when the goroutine has returned.
\<close>

definition server_inv :: "'g errgroup \<Rightarrow> run_event list \<Rightarrow> 'g running \<Rightarrow> bool" where
  "server_inv eg es s \<longleftrightarrow>
     (case ru_errCh s of None \<Rightarrow> True | Some e \<Rightarrow> Listener e \<in> set es \<and> e \<noteq> ErrServerClosed \<and> \<not> context_error e)
   \<and> (if ru_listening s then \<not> ru_closed s \<and> ru_errCh s = None else ru_verify s \<noteq> VDone \<longrightarrow> ru_closed s)
   \<and> (case ru_verify s of
        VSelect \<Rightarrow> \<not> ru_shutdown s \<and> (ru_listening s \<or> ru_errCh s \<noteq> None)
      | VDrain e \<Rightarrow> ru_shutdown s \<and> eg_Err eg (ru_group s) = Some e
      | VDone \<Rightarrow> \<not> ru_listening s)"

definition run_inv :: "'g errgroup \<Rightarrow> run_event list \<Rightarrow> 'g running \<Rightarrow> bool" where
  "run_inv eg es s \<longleftrightarrow> group_inv eg es s \<and> server_inv eg es s"

lemmas run_inv_defs = run_inv_def group_inv_def server_inv_def

lemmas run_step_defs = listener_returns_def verify_cancelled_def verify_received_def verify_drained_def
  ticks_def metrics_returns_def republish_returns_def

text \<open>The moves, with what each needs and does.\<close>

lemma run_stepE:
  assumes "run_step env eg s e = Some s'"
  obtains (Ends) x where "e = Ends x" "\<not> ru_ended s" "context_error x"
      "s' = s\<lparr>ru_ended := True, ru_group := eg_Parent eg (ru_group s) x\<rparr>"
  | (Listener) x where "e = Listener x" "ru_listening s" "\<not> context_error x" "x = ErrServerClosed \<longrightarrow> ru_shutdown s"
      "s' = s\<lparr>ru_listening := False, ru_errCh := (if x \<noteq> ErrServerClosed then Some x else ru_errCh s), ru_closed := True\<rparr>"
  | (Cancelled) x where "e = Cancelled" "eg_Err eg (ru_group s) = Some x" "ru_verify s = VSelect"
      "s' = s\<lparr>ru_shutdown := True, ru_verify := VDrain x\<rparr>"
  | (Received) "e = Received" "ru_verify s = VSelect" "ru_errCh s \<noteq> None \<or> ru_closed s"
      "s' = ru_returns eg (ru_errCh s) (s\<lparr>ru_errCh := None, ru_verify := VDone\<rparr>)"
  | (Drained) x where "e = Drained" "ru_verify s = VDrain x" "ru_errCh s \<noteq> None \<or> ru_closed s"
      "s' = ru_returns eg (Some x) (s\<lparr>ru_errCh := None, ru_verify := VDone\<rparr>)"
  | (Ticks) x where "e = Ticks x"
      "s' = s\<lparr>ru_agent := fst (agent_step env (ru_agent s) x), ru_out := ru_out s @ snd (agent_step env (ru_agent s) x)\<rparr>"
  | (MetricsReturns) x where "e = MetricsReturns" "eg_Err eg (ru_group s) = Some x" "ru_metrics s"
      "s' = ru_returns eg (Some x) (s\<lparr>ru_metrics := False\<rparr>)"
  | (RepublishReturns) x where "e = RepublishReturns" "eg_Err eg (ru_group s) = Some x" "ru_republish s"
      "s' = ru_returns eg (Some x) (s\<lparr>ru_republish := False\<rparr>)"
  using assms
  by (cases e) (simp_all add: run_step_defs case_prod_unfold split: if_splits option.splits verify_pc.splits)

lemma errgroup_simps:
  assumes "errgroup_laws eg"
  shows "eg_Err eg (eg_With eg) = None" "eg_Wait eg (eg_With eg) = None"
    "eg_Wait eg (eg_Return eg g r) = (if eg_Wait eg g = None then r else eg_Wait eg g)"
    "eg_Err eg (eg_Return eg g r) = (if eg_Err eg g = None \<and> r \<noteq> None then Some Canceled else eg_Err eg g)"
    "eg_Wait eg (eg_Parent eg g e) = eg_Wait eg g"
    "eg_Err eg (eg_Parent eg g e) = (if eg_Err eg g = None then Some e else eg_Err eg g)"
  using assms by (simp_all add: errgroup_laws_def)

lemma run_begin_inv: "errgroup_laws eg \<Longrightarrow> run_inv eg [] (run_begin env eg now a)"
  by (simp add: run_inv_defs run_begin_def errgroup_simps case_prod_unfold Let_def)

lemma run_step_inv:
  assumes "errgroup_laws eg" and "run_inv eg es s" and "run_step env eg s e = Some s'"
  shows "run_inv eg (es @ [e]) s'"
proof -
  note g = errgroup_simps [OF assms(1)]
  from assms(3) show ?thesis
  proof (cases rule: run_stepE)
    case Ends
    then show ?thesis using assms(2)
      by (cases "eg_Err eg (ru_group s)"; cases "ru_verify s") (auto simp: run_inv_defs g split: option.splits)
  next
    case (Listener x)
    then show ?thesis using assms(2)
      by (cases "x = ErrServerClosed"; cases "ru_verify s") (auto simp: run_inv_defs split: option.splits)
  next
    case Cancelled
    then show ?thesis using assms(2) by (auto simp: run_inv_defs split: option.splits)
  next
    case Received
    then obtain x where "ru_errCh s = Some x" "\<not> ru_listening s"
      using assms(2) by (auto simp: run_inv_def server_inv_def split: if_splits)
    then show ?thesis using assms(2) Received
      by (cases "eg_Err eg (ru_group s)"; cases "eg_Wait eg (ru_group s)")
        (auto simp: run_inv_defs ru_returns_def g context_error_def)
  next
    case Drained
    then show ?thesis using assms(2)
      by (cases "eg_Wait eg (ru_group s)") (auto simp: run_inv_defs ru_returns_def g split: if_splits)
  next
    case Ticks
    then show ?thesis using assms(2) by (auto simp: run_inv_defs split: option.splits verify_pc.splits)
  next
    case MetricsReturns
    then show ?thesis using assms(2)
      by (cases "eg_Wait eg (ru_group s)"; cases "ru_verify s") (auto simp: run_inv_defs ru_returns_def g split: option.splits)
  next
    case RepublishReturns
    then show ?thesis using assms(2)
      by (cases "eg_Wait eg (ru_group s)"; cases "ru_verify s") (auto simp: run_inv_defs ru_returns_def g split: option.splits)
  qed
qed

lemma runs_inv:
  assumes "errgroup_laws eg" and "runs env eg (run_begin env eg now a) es s"
  shows "run_inv eg es s"
  using assms(2)
  by (induction "run_begin env eg now a" es s rule: runs.induct)
    (auto intro: run_begin_inv run_step_inv assms(1))

section \<open>What the goroutines do together\<close>

text \<open>The ticks that were served, in order, are a run of the agent's operations.\<close>

lemma agent_run_append:
  "agent_run env a (es @ fs) =
     (case agent_run env a es of (a1, out1) \<Rightarrow> case agent_run env a1 fs of (a2, out2) \<Rightarrow> (a2, out1 @ out2))"
  by (induction es arbitrary: a) (simp_all add: case_prod_unfold Let_def)

lemma run_step_tick:
  assumes "run_step env eg s e = Some s'" and "agent_run env a fs = (ru_agent s, ru_out s)"
  shows "agent_run env a (fs @ tick_of e) = (ru_agent s', ru_out s')"
  using assms by (cases rule: run_stepE) (simp_all add: agent_run_append ru_returns_def case_prod_unfold)

lemma runs_ticks:
  "runs env eg (run_begin env eg now a) es s \<Longrightarrow>
   agent_run env a (MetaTick now # concat (map tick_of es)) = (ru_agent s, ru_out s)"
proof (induction "run_begin env eg now a" es s rule: runs.induct)
  case Begin
  show ?case by (simp add: run_begin_def case_prod_unfold Let_def split: sum.split)
next
  case (Next es s1 e s2)
  from run_step_tick [OF Next(3,2)] show ?case by simp
qed

text \<open>What is left to do once no tick is served any more.\<close>

definition run_work :: "'g running \<Rightarrow> nat" where
  "run_work s = of_bool (\<not> ru_ended s) + of_bool (ru_listening s)
     + (case ru_verify s of VSelect \<Rightarrow> 2 | VDrain _ \<Rightarrow> 1 | VDone \<Rightarrow> 0)
     + of_bool (ru_metrics s) + of_bool (ru_republish s)"

lemma run_step_work:
  assumes "run_step env eg s e = Some s'"
  shows "if tick_of e = [] then run_work s' < run_work s else run_work s' = run_work s"
  using assms by (cases rule: run_stepE) (simp_all add: run_work_def ru_returns_def)

lemma runs_work:
  assumes "runs env eg s0 es s"
  shows "run_work s + length (filter (\<lambda>e. tick_of e = []) es) \<le> run_work s0"
  using assms
proof (induction s0 es s rule: runs.induct)
  case (Next s0 es s1 e s2)
  with run_step_work [OF Next(2)] show ?case by (auto split: if_splits)
qed simp

text \<open>After the end of the context some goroutine can always move on.\<close>

lemma run_progress:
  assumes "run_inv eg es s" and "eg_Err eg (ru_group s) \<noteq> None" and "\<not> run_done s"
  shows "\<exists>e s'. run_step env eg s e = Some s' \<and> tick_of e = []"
proof -
  obtain x where x: "eg_Err eg (ru_group s) = Some x" using assms(2) by blast
  consider "ru_metrics s" | "ru_republish s" | "ru_verify s = VSelect"
    | y where "ru_verify s = VDrain y" "ru_listening s" | y where "ru_verify s = VDrain y" "\<not> ru_listening s"
    using assms(3) by (cases "ru_verify s") (auto simp: run_done_def)
  then show ?thesis
  proof cases
    case 1
    then show ?thesis using x by (intro exI [of _ MetricsReturns]) (simp add: metrics_returns_def)
  next
    case 2
    then show ?thesis using x by (intro exI [of _ RepublishReturns]) (simp add: republish_returns_def)
  next
    case 3
    then show ?thesis using x by (intro exI [of _ Cancelled]) (simp add: verify_cancelled_def)
  next
    case 4
    then show ?thesis using assms(1)
      by (intro exI [of _ "Listener ErrServerClosed"])
        (simp add: listener_returns_def context_error_def run_inv_def server_inv_def)
  next
    case 5
    then show ?thesis using assms(1)
      by (intro exI [of _ Drained]) (simp add: verify_drained_def run_inv_def server_inv_def)
  qed
qed

section \<open>Properties\<close>

text \<open>
  C18. A running agent is supervised. However its loops, the verification server and the caller
  interleave: what it publishes is the record and the samples of the served ticks, each accepted and
  applied by a neighbour; once the caller's context has ended or the server has failed and been noticed,
  some goroutine other than a tick can always move until all have returned, and all such moves together
  are at most six; when \<^verbatim>\<open>Run\<close> returns the server has stopped; it reports an error exactly as the
  listener gave it, and returns without an error only when the caller's context has ended.
\<close>

theorem agent_run_supervised:
  assumes "errgroup_laws eg" and "key_pair_laws env" and "codec_laws (ae_gossip env)" and "key_laws (ae_gossip env) own"
    and "agent_New env now0 cfg = Inr a" and "runs env eg (run_begin env eg now a) es s"
  shows "agent_inv env (ag_meta a) (ru_agent s) \<and> list_all (delivered env own a) (ru_out s)
    \<and> (eg_Err eg (ru_group s) \<noteq> None \<and> \<not> run_done s \<longrightarrow> (\<exists>e s'. run_step env eg s e = Some s' \<and> tick_of e = []))
    \<and> length (filter (\<lambda>e. tick_of e = []) es) \<le> 6
    \<and> (run_done s \<longrightarrow> \<not> ru_listening s \<and>
        (case run_result eg s of
           None \<Rightarrow> \<exists>e. Ends e \<in> set es
         | Some err \<Rightarrow> Listener err \<in> set es \<and> (\<exists>m. err = Failure m)))"
proof -
  have inv: "run_inv eg es s" using assms(1,6) by (rule runs_inv)
  have a: "agent_inv env (ag_meta a) a" using assms(2,5) by (rule agent_New_inv)
  have run: "agent_run env a (MetaTick now # concat (map tick_of es)) = (ru_agent s, ru_out s)"
    using assms(6) by (rule runs_ticks)
  have ag: "agent_inv env (ag_meta a) (ru_agent s)" "list_all (delivered env own a) (ru_out s)"
    using agent_run_inv [OF a, of "MetaTick now # concat (map tick_of es)"]
      agent_run_delivered [OF assms(3,4) a, of "MetaTick now # concat (map tick_of es)"] by (simp_all only: run fst_conv snd_conv)
  have "run_work (run_begin env eg now a) \<le> 6" by (simp add: run_work_def run_begin_def case_prod_unfold Let_def)
  then have work: "length (filter (\<lambda>e. tick_of e = []) es) \<le> 6" using runs_work [OF assms(6)] by simp
  have "\<not> ru_listening s \<and> (case run_result eg s of None \<Rightarrow> \<exists>e. Ends e \<in> set es
      | Some err \<Rightarrow> Listener err \<in> set es \<and> (\<exists>m. err = Failure m))" if fin: "run_done s"
  proof -
    obtain err where err: "eg_Wait eg (ru_group s) = Some err"
      using fin inv by (cases "eg_Wait eg (ru_group s)") (auto simp: run_done_def run_inv_def group_inv_def)
    have "\<not> ru_listening s" using fin inv by (simp add: run_done_def run_inv_def server_inv_def)
    then show ?thesis
      using inv err by (cases err) (auto simp: run_result_def run_inv_def group_inv_def context_error_def split: if_splits)
  qed
  with ag work run_progress [OF inv] show ?thesis by blast
qed

text \<open>A group as a pair of the error of its context and the first error, and a run that ends on a signal.\<close>

definition demo_group :: "(go_error option \<times> go_error option) errgroup" where
  "demo_group = \<lparr>eg_With = (None, None),
     eg_Return = (\<lambda>(c, f) r. (if c = None \<and> r \<noteq> None then Some Canceled else c, if f = None then r else f)),
     eg_Parent = (\<lambda>(c, f) e. (if c = None then Some e else c, f)), eg_Err = fst, eg_Wait = snd\<rparr>"

lemma demo_group_laws: "errgroup_laws demo_group"
  by (auto simp: errgroup_laws_def demo_group_def)

lemma runs_exec:
  "foldl (\<lambda>s e. Option.bind s (\<lambda>s. run_step env eg s e)) (Some s0) es = Some s \<Longrightarrow> runs env eg s0 es s"
proof (induction es arbitrary: s rule: rev_induct)
  case (snoc e es)
  then obtain s1 where "foldl (\<lambda>s e. Option.bind s (\<lambda>s. run_step env eg s e)) (Some s0) es = Some s1" "run_step env eg s1 e = Some s"
    by (cases "foldl (\<lambda>s e. Option.bind s (\<lambda>s. run_step env eg s e)) (Some s0) es") auto
  with snoc.IH show ?case by (blast intro: Next)
qed (simp add: Begin)

lemma publishMeta_listen [simp]: "ag_verifyListen (fst (publishMeta env now a)) = ag_verifyListen a"
  by (simp add: publishMeta_def case_prod_unfold Let_def)

definition demo_events :: "run_event list" where
  "demo_events = [Ends Canceled, MetricsReturns, Cancelled, RepublishReturns, Listener ErrServerClosed, Drained]"

theorem agent_run_supervised_witness:
  "\<exists>s. runs demo_agent_env demo_group (run_begin demo_agent_env demo_group 0 demo_agent) demo_events s
     \<and> run_done s \<and> run_result demo_group s = None \<and> \<not> ru_listening s
     \<and> list_all (delivered demo_agent_env ''peerA'' demo_agent) (ru_out s)"
proof -
  let ?s = "run_begin demo_agent_env demo_group 0 demo_agent"
  obtain s where "foldl (\<lambda>s e. Option.bind s (\<lambda>s. run_step demo_agent_env demo_group s e)) (Some ?s) demo_events = Some s"
    and s: "run_done s" "run_result demo_group s = None"
    by (simp add: demo_events_def run_begin_def case_prod_unfold Let_def run_step_defs ru_returns_def demo_group_def context_error_def
        demo_agent_def run_done_def run_result_def)
  then have run: "runs demo_agent_env demo_group ?s demo_events s" by (intro runs_exec)
  have "codec_laws (ae_gossip demo_agent_env)" "key_laws (ae_gossip demo_agent_env) ''peerA''"
    by (simp_all add: demo_agent_env_def demo_gossip_laws)
  from agent_run_supervised [OF demo_group_laws demo_agent_laws this demo_agent_New run] s run show ?thesis by auto
qed

text \<open>The process apart, starting an agent is \<open>agent_New\<close> on the outcome of starting the service.\<close>

lemma agent_launch_New:
  "(case snd (agent_launch env se scfg now cfg w) of Inl err \<Rightarrow> Inl err | Inr (a, svc) \<Rightarrow> Inr a) =
   agent_New (env\<lparr>ae_NewService := (case snd (NewService se (scfg\<lparr>sc_IdentityKey := ac_IdentityKey cfg\<rparr>) True w) of
       Inl err \<Rightarrow> Inl err | Inr svc \<Rightarrow> Inr (sv_topics svc))\<rparr>) now cfg"
proof (cases "ac_OwnerKey cfg")
  case (Some key)
  obtain w1 r where svc: "NewService se (scfg\<lparr>sc_IdentityKey := ac_IdentityKey cfg\<rparr>) True w = (w1, r)"
    by (metis surj_pair)
  define m1 where "m1 = (if bm_AddedAt (ac_Meta cfg) = 0 then (ac_Meta cfg)\<lparr>bm_AddedAt := Unix now\<rparr> else ac_Meta cfg)"
  define meta where "meta = (if bm_Clock m1 = 0 then m1\<lparr>bm_Clock := 1\<rparr> else m1)\<lparr>bm_OwnerPK := ae_Public env key\<rparr>"
  consider "length key \<noteq> PrivateKeySize \<or> ac_IdentityKey cfg = None"
    | i where "length key = PrivateKeySize" "ac_IdentityKey cfg = Some i" by (cases "ac_IdentityKey cfg") auto
  then show ?thesis
  proof cases
    case 2
    show ?thesis
    proof (cases "NewCollector (ac_Collector cfg)")
      case (Inl err)
      with 2 show ?thesis by (simp add: agent_launch_def agent_New_def Some)
    next
      case (Inr collector)
      with 2 show ?thesis
        by (cases r; cases "CanonicalBackendMeta (ae_reg env) meta")
          (simp_all add: agent_launch_def agent_New_def Let_def svc [unfolded 2(2)] Some
            m1_def [symmetric] meta_def [symmetric])
    qed
  qed (auto simp: agent_launch_def agent_New_def Some)
qed (simp add: agent_launch_def agent_New_def)

text \<open>
  A refused record leaves the network running. When the service starts and the record of the backend
  has no identifier, chain or host, \<^verbatim>\<open>New\<close> returns an error with the libp2p host still open and the database
  too; only the loops are cancelled, and the caller has no handle to close the rest.
\<close>

theorem refused_agent_leaks_host:
  assumes "ac_OwnerKey cfg = Some key" and "length key = PrivateKeySize" and "NewCollector (ac_Collector cfg) = Inr collector"
    and "starts se (scfg\<lparr>sc_IdentityKey := ac_IdentityKey cfg\<rparr>)"
    and "bm_ID (ac_Meta cfg) = [] \<or> bm_ChainID (ac_Meta cfg) = [] \<or> bm_Host (ac_Meta cfg) = []"
  shows "\<exists>w err. agent_launch env se scfg now cfg idle = (w, Inl err) \<and> w_host w \<and> w_loops w = []
    \<and> (w_db w \<longleftrightarrow> sc_DataDir scfg \<noteq> [])"
proof -
  obtain svc where run: "NewService se (scfg\<lparr>sc_IdentityKey := ac_IdentityKey cfg\<rparr>) True idle =
      (connectBootstraps se (sc_Bootstrap scfg) (startMaintenance svc (startAntiEntropy svc
         (idle\<lparr>w_host := True, w_validators := w_validators idle @ all_topics, w_db := (sc_DataDir scfg \<noteq> []),
            w_loops := w_loops idle @ map Consume all_topics, w_handler := True\<rparr>))), Inr svc)"
    using NewService_ok [OF assms(4), of True idle] by auto
  obtain i where ident: "ac_IdentityKey cfg = Some i" using assms(4) by (auto simp: starts_def)
  have "\<exists>err. agent_launch env se scfg now cfg idle =
      (svc_cancel (fst (NewService se (scfg\<lparr>sc_IdentityKey := ac_IdentityKey cfg\<rparr>) True idle)), Inl err)"
    using assms(1-3,5) ident unfolding agent_launch_def run Let_def by auto
  then show ?thesis
    by (auto simp: run svc_cancel_def connectBootstraps_keeps startMaintenance_def startAntiEntropy_def Let_def)
qed

theorem refused_agent_leaks_host_witness:
  "\<exists>w err. agent_launch demo_agent_env demo_start \<lparr>sc_Bootstrap = [], sc_DataDir = [], sc_IdentityKey = None,
       sc_SyncInterval = 0, sc_PruneInterval = 0\<rparr> 0 (demo_agent_cfg\<lparr>ac_Meta := demo_meta [] 1 []\<rparr>) idle = (w, Inl err)
     \<and> w_host w"
proof -
  let ?cfg = "demo_agent_cfg\<lparr>ac_Meta := demo_meta [] 1 []\<rparr>"
  have "NewCollector (ac_Collector ?cfg) = Inr (demo_collector zero_sample)"
    by (simp add: NewCollector_def demo_agent_cfg_def demo_collector_def second_def)
  from refused_agent_leaks_host [OF _ _ this, of "replicate 64 0" demo_start "\<lparr>sc_Bootstrap = [], sc_DataDir = [],
      sc_IdentityKey = None, sc_SyncInterval = 0, sc_PruneInterval = 0\<rparr>" demo_agent_env 0]
  show ?thesis
    by (auto simp: demo_agent_cfg_def demo_start_def starts_def PrivateKeySize_def demo_meta_def)
qed

end
