(* ===== verification/Mesh_Config.thy ===== *)
theory Mesh_Config
  imports Go_Base64
begin

text \<open>
  \<^verbatim>\<open>pkg/config/config.go\<close>: sizes in human-readable form, and the defaults and checks of a
  configuration. Reading the file and decoding it with \<^verbatim>\<open>viper\<close> is an argument: an error, or the
  decoded configuration. \<open>Sscanf_f\<close> models \<^verbatim>\<open>fmt.Sscanf(s, "%f", ...)\<close> on decimal numbers; on the
  other tokens that the verb knows (hexadecimal numbers, infinities, not-a-number) it gives
  \<open>NotDecimal\<close>, and no property speaks about them. A float is a real, so results are exact.
\<close>

section \<open>Sizes\<close>

datatype size_error = EmptySize | InvalidSize | NotDecimal

definition upper_char :: "char \<Rightarrow> char" where
  "upper_char c = (let n = of_char c :: nat in if 97 \<le> n \<and> n \<le> 122 then char_of (n - 32) else c)"

definition ToUpper :: "string \<Rightarrow> string" where
  "ToUpper s = map upper_char s"

definition is_digit :: "char \<Rightarrow> bool" where
  "is_digit c \<longleftrightarrow> digit_val c \<noteq> None"

definition number :: "string \<Rightarrow> nat" where
  "number ds = (case undec 0 ds of None \<Rightarrow> 0 | Some n \<Rightarrow> n)"

text \<open>A sign, or none.\<close>

definition take_sign :: "string \<Rightarrow> bool \<times> string" where
  "take_sign s = (case s of c # t \<Rightarrow> if c = CHR ''-'' then (True, t) else if c = CHR ''+'' then (False, t) else (False, s)
                  | [] \<Rightarrow> (False, s))"

text \<open>
  The token of a decimal number: digits, perhaps a point and more digits, perhaps an exponent. What
  follows the token is not read. An underscore among the digits belongs to the token and makes it
  invalid, as does an exponent without digits, and one with the letter P. (The text is in upper case
  by then.)
\<close>

definition in_token :: "char \<Rightarrow> bool" where
  "in_token c \<longleftrightarrow> is_digit c \<or> c = CHR ''_''"

definition scan_decimal :: "string \<Rightarrow> size_error + real" where
  "scan_decimal s =
     (let (neg, s1) = take_sign s;
          ds = takeWhile in_token s1; s2 = dropWhile in_token s1;
          (fs, s3) = (case s2 of c # t \<Rightarrow> if c = CHR ''.'' then (takeWhile in_token t, dropWhile in_token t) else ([], s2)
                      | [] \<Rightarrow> ([], s2));
          (expo, valid) =
            (case s3 of
               c # t \<Rightarrow>
                 if c = CHR ''P'' then (0, False)
                 else if c = CHR ''E''
                 then (let (eneg, t1) = take_sign t; es = takeWhile in_token t1
                       in (if eneg then - int (number es) else int (number es), es \<noteq> [] \<and> CHR ''_'' \<notin> set es))
                 else (0, True)
             | [] \<Rightarrow> (0, True))
      in if \<not> valid \<or> ds @ fs = [] \<or> CHR ''_'' \<in> set (ds @ fs) then Inl InvalidSize
         else let v = real (number (ds @ fs)) * (10 powi (expo - int (length fs)))
              in Inr (if neg then - v else v))"

definition Sscanf_f :: "string \<Rightarrow> size_error + real" where
  "Sscanf_f input =
     (let s = dropWhile is_space input; t = snd (take_sign s)
      in if HasPrefix s ''NAN'' \<or> HasPrefix t ''INF'' \<or> HasPrefix t ''0X''
         then Inl NotDecimal else scan_decimal s)"

definition parseFloat :: "string \<Rightarrow> size_error + real" where
  "parseFloat s = Sscanf_f s"

definition size_units :: "(string \<times> int) list" where
  "size_units = [(''TIB'', 2 ^ 40), (''GIB'', 2 ^ 30), (''MIB'', 2 ^ 20), (''KIB'', 2 ^ 10),
     (''TB'', 1000000000000), (''GB'', 1000000000), (''MB'', 1000000), (''KB'', 1000)]"

fun unit_loop :: "string \<Rightarrow> (string \<times> int) list \<Rightarrow> size_error + int" where
  "unit_loop s [] = (case parseFloat s of Inl err \<Rightarrow> Inl err | Inr v \<Rightarrow> Inr (trunc_real v))"
| "unit_loop s ((suf, factor) # units) =
     (if HasSuffix s suf
      then (case parseFloat (TrimSuffix s suf) of
              Inl err \<Rightarrow> Inl err | Inr v \<Rightarrow> Inr (trunc_real (v * real_of_int factor)))
      else unit_loop s units)"

definition parseByteSize :: "string \<Rightarrow> size_error + int" where
  "parseByteSize input =
     (let s = TrimSpace (ToUpper input) in if s = [] then Inl EmptySize else unit_loop s size_units)"

definition UnmarshalText :: "string \<Rightarrow> int \<Rightarrow> int \<times> size_error option" where
  "UnmarshalText text b = (case parseByteSize text of Inl err \<Rightarrow> (b, Some err) | Inr value \<Rightarrow> (value, None))"

section \<open>The configuration\<close>

record MeshConfig =
  mc_ListenAddrs :: "string list"
  mc_Bootstrap :: "string list"
  mc_AllowlistChains :: "string list"
  mc_DataDir :: string
  mc_GossipKey :: string
  mc_HTTPMetrics :: string
  mc_AntiEntropyEvery :: duration

record EdgeConfig =
  eg_ID :: string
  eg_ListenHTTP :: string
  eg_ListenHTTPS :: string
  eg_EnableH3 :: bool
  eg_Chains :: "string list"
  eg_Country :: string
  eg_Region :: string
  eg_AdvertiseIPs :: "string list"
  eg_NSServing :: bool
  eg_BackendScheme :: string

record BackendConfig =
  bc_ID :: string
  bc_ChainID :: string
  bc_Host :: string
  bc_Caps :: "(string, bool) gomap"
  bc_Archival :: bool
  bc_Metadata :: "(string, string) gomap"
  bc_VerifyListen :: string
  bc_IdentityKey :: string
  bc_OwnerKey :: string
  bc_Country :: string
  bc_Region :: string
  bc_IPs :: "string list"
  bc_RPCEndpoint :: string
  bc_LCDEndpoint :: string
  bc_PromEndpoint :: string

record cfg_Probe =
  pb_Interval :: duration
  pb_Timeout :: duration

record CacheConfig =
  ch_Enabled :: bool
  ch_MaxBytes :: int
  ch_MaxItemBytes :: int
  ch_TTLHeighted :: string

record cfg_Rate =
  rt_PerIPRPS :: int
  rt_Burst :: int

record SelectorConfig =
  sl_DeltaHeight :: int
  sl_SoftmaxT :: real

record TLSConfig =
  tl_ACMEEmail :: string
  tl_Domains :: "string list"

record DNSConfig =
  dn_Zone :: string
  dn_NSLabels :: "string list"
  dn_TTLNSA :: int
  dn_TTLService :: int
  dn_DNSSEC :: bool
  dn_Listen :: string
  dn_Chains :: "string list"
  dn_MaxAnswers :: int
  dn_EnableECS :: bool
  dn_RRLQPS :: real
  dn_RRLBurst :: int
  dn_RRLWindow :: duration
  dn_GeoEnabled :: bool
  dn_GeoCityDB :: string
  dn_GeoASNDB :: string
  dn_GeoWeight :: real
  dn_GeoReloadSec :: int

record mesh_cfg =
  cf_Mesh :: MeshConfig
  cf_Edge :: EdgeConfig
  cf_Backend :: BackendConfig
  cf_Probe :: cfg_Probe
  cf_Cache :: CacheConfig
  cf_Rate :: cfg_Rate
  cf_Selector :: SelectorConfig
  cf_TLS :: TLSConfig
  cf_DNS :: DNSConfig

text \<open>\<^verbatim>\<open>if field == zero { field = value }\<close>.\<close>

definition or_default :: "'a \<Rightarrow> 'a \<Rightarrow> 'a \<Rightarrow> 'a" where
  "or_default zero value x = (if x = zero then value else x)"

text \<open>The defaults of \<^verbatim>\<open>Load\<close>, field by field.\<close>

definition default_mesh :: "mesh_cfg \<Rightarrow> mesh_cfg" where
  "default_mesh cfg = cfg
     \<lparr>cf_Probe := (cf_Probe cfg)\<lparr>pb_Interval := or_default 0 (2 * second) (pb_Interval (cf_Probe cfg)),
                                 pb_Timeout := or_default 0 (2 * second) (pb_Timeout (cf_Probe cfg))\<rparr>,
      cf_Mesh := (cf_Mesh cfg)\<lparr>mc_AntiEntropyEvery := or_default 0 (10 * second) (mc_AntiEntropyEvery (cf_Mesh cfg))\<rparr>,
      cf_Rate := (cf_Rate cfg)\<lparr>rt_PerIPRPS := or_default 0 100 (rt_PerIPRPS (cf_Rate cfg)),
                               rt_Burst := or_default 0 200 (rt_Burst (cf_Rate cfg))\<rparr>,
      cf_Selector := (cf_Selector cfg)\<lparr>sl_DeltaHeight := or_default 0 2 (sl_DeltaHeight (cf_Selector cfg)),
                                       sl_SoftmaxT := or_default 0 0.7 (sl_SoftmaxT (cf_Selector cfg))\<rparr>,
      cf_Cache := (cf_Cache cfg)\<lparr>ch_TTLHeighted := or_default [] ''infinite'' (ch_TTLHeighted (cf_Cache cfg))\<rparr>\<rparr>"

definition default_dns :: "DNSConfig \<Rightarrow> DNSConfig" where
  "default_dns d = d
     \<lparr>dn_Listen := or_default [] '':53'' (dn_Listen d), dn_TTLNSA := or_default 0 30 (dn_TTLNSA d),
      dn_TTLService := or_default 0 20 (dn_TTLService d), dn_MaxAnswers := or_default 0 4 (dn_MaxAnswers d)\<rparr>"

definition check_rrl :: "DNSConfig \<Rightarrow> string + DNSConfig" where
  "check_rrl d =
     (if dn_RRLQPS d < 0 then Inl ''config: dns rrl qps cannot be negative''
      else if dn_RRLBurst d < 0 then Inl ''config: dns rrl burst cannot be negative''
      else if dn_RRLWindow d < 0 then Inl ''config: dns rrl window cannot be negative''
      else let d = (if dn_RRLQPS d > 0 \<and> dn_RRLBurst d = 0
                    then (let d = d\<lparr>dn_RRLBurst := trunc_real (dn_RRLQPS d * 2)\<rparr>
                          in if dn_RRLBurst d = 0 then d\<lparr>dn_RRLBurst := 1\<rparr> else d)
                    else d);
               d = (if dn_RRLWindow d = 0 then d\<lparr>dn_RRLWindow := 300 * second\<rparr> else d)
           in Inr d)"

definition Load :: "string + mesh_cfg \<Rightarrow> string + mesh_cfg" where
  "Load decoded =
     (case decoded of
        Inl err \<Rightarrow> Inl err
      | Inr cfg \<Rightarrow>
          let cfg = default_mesh cfg
          in case check_rrl (default_dns (cf_DNS cfg)) of
               Inl err \<Rightarrow> Inl err
             | Inr d \<Rightarrow> Inr (cfg\<lparr>cf_DNS := d\<rparr>))"

section \<open>Facts\<close>

lemma trunc_real_of_int [simp]: "trunc_real (real_of_int n) = n"
  by (simp add: trunc_real_def)

lemma trunc_real_pos: "0 < x \<Longrightarrow> 0 \<le> trunc_real x"
  by (simp add: trunc_real_def)

lemma or_default_idem [simp]: "or_default z v (or_default z v x) = or_default z v x"
  by (simp add: or_default_def)

lemma or_default_nonzero [simp]: "v \<noteq> z \<Longrightarrow> or_default z v x \<noteq> z"
  by (simp add: or_default_def)

lemma second_nonzero [simp]: "second \<noteq> 0"
  by (simp add: second_def)

lemma default_mesh_idem [simp]: "default_mesh (default_mesh cfg) = default_mesh cfg"
  by (simp add: default_mesh_def)

lemma default_dns_idem [simp]: "default_dns (default_dns d) = default_dns d"
  by (simp add: default_dns_def)

text \<open>What a loaded configuration has.\<close>

definition loaded :: "mesh_cfg \<Rightarrow> bool" where
  "loaded cfg \<longleftrightarrow>
     pb_Interval (cf_Probe cfg) \<noteq> 0 \<and> pb_Timeout (cf_Probe cfg) \<noteq> 0 \<and> mc_AntiEntropyEvery (cf_Mesh cfg) \<noteq> 0 \<and>
     rt_PerIPRPS (cf_Rate cfg) \<noteq> 0 \<and> rt_Burst (cf_Rate cfg) \<noteq> 0 \<and> sl_DeltaHeight (cf_Selector cfg) \<noteq> 0 \<and>
     sl_SoftmaxT (cf_Selector cfg) \<noteq> 0 \<and> ch_TTLHeighted (cf_Cache cfg) \<noteq> [] \<and> dn_Listen (cf_DNS cfg) \<noteq> [] \<and>
     dn_TTLNSA (cf_DNS cfg) \<noteq> 0 \<and> dn_TTLService (cf_DNS cfg) \<noteq> 0 \<and> dn_MaxAnswers (cf_DNS cfg) \<noteq> 0 \<and>
     0 \<le> dn_RRLQPS (cf_DNS cfg) \<and> 0 \<le> dn_RRLBurst (cf_DNS cfg) \<and> 0 < dn_RRLWindow (cf_DNS cfg) \<and>
     (dn_RRLQPS (cf_DNS cfg) > 0 \<longrightarrow> dn_RRLBurst (cf_DNS cfg) > 0)"

lemma check_rrl_dns:
  "check_rrl d = Inr d' \<Longrightarrow> dn_Listen d' = dn_Listen d \<and> dn_TTLNSA d' = dn_TTLNSA d
    \<and> dn_TTLService d' = dn_TTLService d \<and> dn_MaxAnswers d' = dn_MaxAnswers d \<and> dn_Zone d' = dn_Zone d
    \<and> dn_RRLQPS d' = dn_RRLQPS d"
  by (auto simp: check_rrl_def Let_def split: if_splits)

lemma check_rrl_ok:
  "check_rrl d = Inr d' \<Longrightarrow> 0 \<le> dn_RRLQPS d' \<and> 0 \<le> dn_RRLBurst d' \<and> 0 < dn_RRLWindow d'
    \<and> (dn_RRLQPS d' > 0 \<longrightarrow> dn_RRLBurst d' > 0)"
  using trunc_real_pos [of "dn_RRLQPS d * 2"]
  by (auto simp: check_rrl_def Let_def second_def split: if_splits)

lemma check_rrl_idem: "check_rrl d = Inr d' \<Longrightarrow> check_rrl d' = Inr d'"
  using check_rrl_ok [of d d'] by (auto simp: check_rrl_def Let_def)

lemma Load_loaded:
  assumes "Load (Inr cfg) = Inr cfg'"
  shows "loaded cfg'" and "dn_Zone (cf_DNS cfg') = dn_Zone (cf_DNS cfg)"
proof -
  obtain d where d: "check_rrl (default_dns (cf_DNS (default_mesh cfg))) = Inr d" "cfg' = (default_mesh cfg)\<lparr>cf_DNS := d\<rparr>"
    using assms by (auto simp: Load_def Let_def split: sum.splits)
  show "loaded cfg'"
    using check_rrl_dns [OF d(1)] check_rrl_ok [OF d(1)] by (simp add: loaded_def d(2) default_mesh_def default_dns_def)
  show "dn_Zone (cf_DNS cfg') = dn_Zone (cf_DNS cfg)"
    using check_rrl_dns [OF d(1)] by (simp add: d(2) default_mesh_def default_dns_def)
qed

subsection \<open>Numbers with a unit\<close>

lemma dec_token: "c \<in> set (dec n) \<Longrightarrow> in_token c \<and> is_digit c \<and> c \<noteq> CHR ''_'' \<and> \<not> is_space c"
proof -
  assume "c \<in> set (dec n)"
  then obtain d where "d < 10" "c = digit d" using dec_digits by blast
  then have d: "is_digit c" "of_char c = (48 + d :: nat)" by (simp add: is_digit_def, simp add: digit_def)
  then have "c \<noteq> CHR ''_''" "\<not> is_space c" by (auto simp: is_digit_def digit_val_def is_space_def Let_def)
  with d show ?thesis by (simp add: in_token_def)
qed

lemma upper_digit: "is_digit c \<Longrightarrow> upper_char c = c"
  by (auto simp: is_digit_def upper_char_def digit_val_def Let_def split: if_splits)

lemma ToUpper_append [simp]: "ToUpper (s @ t) = ToUpper s @ ToUpper t"
  by (simp add: ToUpper_def)

lemma ToUpper_dec [simp]: "ToUpper (dec n) = dec n"
  unfolding ToUpper_def by (rule map_idI) (simp add: upper_digit dec_token)

lemma dec_take_sign: "take_sign (dec n @ r) = (False, dec n @ r)"
proof -
  obtain c t where "dec n = c # t" by (cases "dec n") auto
  with dec_head_not_sign [of n c t] show ?thesis by (simp add: take_sign_def)
qed

text \<open>Digits are read up to the first character that cannot continue the number; the rest is not read.\<close>

lemma scan_dec:
  assumes "r = [] \<or> \<not> in_token (hd r) \<and> hd r \<notin> {CHR ''.'', CHR ''E'', CHR ''P''}"
  shows "scan_decimal (dec n @ r) = Inr (real n)"
proof -
  have all: "\<forall>c \<in> set (dec n). in_token c" by (simp add: dec_token)
  then have tw: "takeWhile in_token (dec n) = dec n" "dropWhile in_token (dec n) = []" by simp_all
  have r: "takeWhile in_token r = []" "dropWhile in_token r = r" using assms by (cases r; auto)+
  have "takeWhile in_token (dec n @ r) = dec n" "dropWhile in_token (dec n @ r) = r"
    using r all by (simp_all add: takeWhile_append2 dropWhile_append2)
  moreover have "CHR ''_'' \<notin> set (dec n)" using dec_token by blast
  ultimately show ?thesis
    using assms dec_take_sign [of n "[]"] by (cases r) (simp_all add: scan_decimal_def dec_take_sign number_def tw)
qed

lemma parseFloat_dec:
  assumes "r = [] \<or> \<not> in_token (hd r) \<and> hd r \<notin> {CHR ''.'', CHR ''E'', CHR ''P'', CHR ''X''}"
  shows "parseFloat (dec n @ r) = Inr (real n)"
proof -
  obtain c t where ct: "dec n = c # t" by (cases "dec n") auto
  then have c: "is_digit c" "\<not> is_space c" using dec_token [of c n] by auto
  then have "c \<noteq> CHR ''N'' \<and> c \<noteq> CHR ''I''" by (auto simp: is_digit_def digit_val_def)
  moreover have "\<not> HasPrefix (dec n @ r) ''0X''"
  proof
    assume "HasPrefix (dec n @ r) ''0X''"
    then have "c = CHR ''0''" "hd (t @ r) = CHR ''X''" "t @ r \<noteq> []" by (auto simp: ct HasPrefix_def prefix_def)
    moreover have "CHR ''X'' \<notin> set t" using dec_token [of "CHR ''X''" n] ct by (auto simp: is_digit_def digit_val_def)
    ultimately show False using assms by (cases t) auto
  qed
  moreover have "dropWhile is_space (dec n @ r) = dec n @ r" using c ct by simp
  moreover have "\<not> HasPrefix (dec n @ r) ''NAN''" "\<not> HasPrefix (dec n @ r) ''INF''"
    using \<open>c \<noteq> CHR ''N'' \<and> c \<noteq> CHR ''I''\<close> by (auto simp: ct HasPrefix_def)
  moreover have "scan_decimal (dec n @ r) = Inr (real n)" using assms by (intro scan_dec) auto
  ultimately show ?thesis by (simp add: parseFloat_def Sscanf_f_def Let_def dec_take_sign)
qed

lemma suffix_rev: "HasSuffix s p \<longleftrightarrow> prefix (rev p) (rev s)"
  by (simp add: HasSuffix_def suffix_to_prefix)

text \<open>No unit is the end of another, so the loop stops at the unit that was written.\<close>

lemma unit_loop_unit:
  assumes "(U, f) \<in> set us" and "parseFloat x = Inr v"
    and "\<forall>(p, g) \<in> set us. (p, g) = (U, f) \<or> \<not> HasSuffix p U \<and> \<not> HasSuffix U p"
  shows "unit_loop (x @ U) us = Inr (trunc_real (v * real_of_int f))"
  using assms
proof (induction us)
  case (Cons e us)
  obtain p g where e: "e = (p, g)" by (cases e)
  show ?case
  proof (cases "e = (U, f)")
    case True
    then show ?thesis using Cons.prems(2) by (simp add: HasSuffix_def suffix_def)
  next
    case False
    then have "\<not> HasSuffix p U \<and> \<not> HasSuffix U p" using Cons.prems(3) e by auto
    then have "\<not> HasSuffix (x @ U) p" by (auto simp: HasSuffix_def suffix_append dest: suffix_same_cases [of p "x @ U" U])
    with False Cons e show ?thesis by auto
  qed
qed simp

lemma units_apart:
  "(U, f) \<in> set size_units \<Longrightarrow>
   \<forall>(p, g) \<in> set size_units. (p, g) = (U, f) \<or> \<not> HasSuffix p U \<and> \<not> HasSuffix U p"
proof -
  have "list_all (\<lambda>(U, f). list_all (\<lambda>(p, g). (p, g) = (U, f) \<or> \<not> suffix U p \<and> \<not> suffix p U) size_units) size_units"
    by code_simp
  then show "(U, f) \<in> set size_units \<Longrightarrow> ?thesis" unfolding list_all_iff HasSuffix_def by fast
qed

lemma TrimSpace_ends:
  assumes "s \<noteq> []" and "\<not> is_space (hd s)" and "\<not> is_space (last s)"
  shows "TrimSpace s = s"
proof -
  have "dropWhile is_space s = s" using assms(1,2) by (cases s) auto
  moreover have "dropWhile is_space (rev s) = rev s" using assms(1,3) by (cases s rule: rev_cases) auto
  ultimately show ?thesis by (simp add: TrimSpace_def)
qed

lemma dec_hd: "\<not> is_space (hd (dec n))" "dec n \<noteq> []"
  using dec_token [of "hd (dec n)" n] by simp_all

section \<open>Properties\<close>

text \<open>
  A size with a unit is the number times the unit: for each of the eight units, in any mix of
  upper and lower case and with or without a space, and for sizes up to \<open>2^53\<close> bytes.
\<close>

theorem byte_size_with_unit:
  assumes "(ToUpper u, f) \<in> set size_units" and "gap \<in> {[], '' ''}" and "int n * f \<le> 2 ^ 53"
  shows "parseByteSize (dec n @ gap @ u) = Inr (int n * f)"
proof -
  let ?U = "ToUpper u" and ?s = "dec n @ gap @ ToUpper u"
  have "ToUpper gap = gap" using assms(2) by (auto simp: ToUpper_def upper_char_def)
  then have up: "ToUpper (dec n @ gap @ u) = ?s" by simp
  have U: "?U \<in> {''TIB'', ''GIB'', ''MIB'', ''KIB'', ''TB'', ''GB'', ''MB'', ''KB''}"
    using assms(1) by (auto simp: size_units_def)
  then have "TrimSpace ?s = ?s" using dec_hd [of n]
    by (intro TrimSpace_ends) (auto simp: hd_append last_append is_space_def)
  moreover have "parseFloat (dec n @ gap) = Inr (real n)"
    using assms(2) by (intro parseFloat_dec) (auto simp: in_token_def is_digit_def digit_val_def)
  then have "unit_loop ?s size_units = Inr (trunc_real (real n * real_of_int f))"
    using unit_loop_unit [OF assms(1) _ units_apart [OF assms(1)], of "dec n @ gap"] by simp
  moreover have "trunc_real (real n * real_of_int f) = int n * f"
    by (metis of_int_mult of_int_of_nat_eq trunc_real_of_int)
  moreover have "?s \<noteq> []" by simp
  ultimately show ?thesis by (simp only: parseByteSize_def up Let_def if_False simp_thms)
qed

theorem byte_size_with_unit_witness: "parseByteSize (dec 512 @ '' '' @ ''MiB'') = Inr (512 * 2 ^ 20)"
proof -
  have "ToUpper ''MiB'' = ''MIB''" by code_simp
  then show ?thesis using byte_size_with_unit [of "''MiB''" "2 ^ 20" "'' ''" 512] by (simp add: size_units_def)
qed

text \<open>
  Text after the number is ignored: a size with the short units K, M, G or T, in either case,
  is accepted as that number of bytes.
\<close>

theorem byte_size_short_unit_ignored:
  assumes "c \<in> set ''KMGTkmgt''" and "int n \<le> 2 ^ 53"
  shows "parseByteSize (dec n @ [c]) = Inr (int n)"
proof -
  have "list_all (\<lambda>c. ToUpper [c] \<in> {''K'', ''M'', ''G'', ''T''}) ''KMGTkmgt''" by code_simp
  then obtain C where C: "ToUpper [c] = [C]" "C \<in> set ''KMGT''" using assms(1) unfolding list_all_iff by fastforce
  have "TrimSpace (dec n @ [C]) = dec n @ [C]"
    using C(2) dec_hd [of n] by (intro TrimSpace_ends) (auto simp: hd_append is_space_def)
  moreover have "parseFloat (dec n @ [C]) = Inr (real n)"
    using C(2) by (intro parseFloat_dec) (auto simp: in_token_def is_digit_def digit_val_def)
  moreover have "trunc_real (real n) = int n" by (metis of_int_of_nat_eq trunc_real_of_int)
  ultimately show ?thesis
    using C(2) by (auto simp: parseByteSize_def C(1) size_units_def suffix_rev)
qed

theorem byte_size_short_unit_ignored_witness: "parseByteSize (dec 512 @ ''M'') = Inr 512"
  using byte_size_short_unit_ignored [of "CHR ''M''" 512] by simp


definition demo_file :: mesh_cfg where
  "demo_file = \<lparr>
     cf_Mesh = \<lparr>mc_ListenAddrs = [], mc_Bootstrap = [], mc_AllowlistChains = [], mc_DataDir = [], mc_GossipKey = ''AQ=='',
       mc_HTTPMetrics = [], mc_AntiEntropyEvery = 0\<rparr>,
     cf_Edge = \<lparr>eg_ID = ''e1'', eg_ListenHTTP = [], eg_ListenHTTPS = [], eg_EnableH3 = False, eg_Chains = [''c1''],
       eg_Country = ''DE'', eg_Region = [], eg_AdvertiseIPs = [''10.0.0.1''], eg_NSServing = True, eg_BackendScheme = []\<rparr>,
     cf_Backend = \<lparr>bc_ID = ''b1'', bc_ChainID = ''c1'', bc_Host = ''h'', bc_Caps = [(''rpc'', True)], bc_Archival = False,
       bc_Metadata = [], bc_VerifyListen = [], bc_IdentityKey = [], bc_OwnerKey = EncodeToString (replicate 64 0), bc_Country = ''DE'',
       bc_Region = [], bc_IPs = [], bc_RPCEndpoint = [], bc_LCDEndpoint = [], bc_PromEndpoint = []\<rparr>,
     cf_Probe = \<lparr>pb_Interval = 0, pb_Timeout = 0\<rparr>,
     cf_Cache = \<lparr>ch_Enabled = False, ch_MaxBytes = 0, ch_MaxItemBytes = 0, ch_TTLHeighted = []\<rparr>,
     cf_Rate = \<lparr>rt_PerIPRPS = 0, rt_Burst = 0\<rparr>,
     cf_Selector = \<lparr>sl_DeltaHeight = 0, sl_SoftmaxT = 0\<rparr>,
     cf_TLS = \<lparr>tl_ACMEEmail = [], tl_Domains = []\<rparr>,
     cf_DNS = \<lparr>dn_Zone = '' mesh '', dn_NSLabels = [], dn_TTLNSA = 0, dn_TTLService = 0, dn_DNSSEC = False, dn_Listen = [],
       dn_Chains = [''c1'', '' ''], dn_MaxAnswers = 0, dn_EnableECS = True, dn_RRLQPS = 10, dn_RRLBurst = 0, dn_RRLWindow = 0,
       dn_GeoEnabled = False, dn_GeoCityDB = [], dn_GeoASNDB = [], dn_GeoWeight = 0, dn_GeoReloadSec = 0\<rparr>\<rparr>"

lemma demo_loads: "\<exists>cfg. Load (Inr demo_file) = Inr cfg \<and> dn_RRLBurst (cf_DNS cfg) = 20"
  by (simp add: Load_def check_rrl_def default_dns_def default_mesh_def demo_file_def or_default_def trunc_real_def Let_def)


end
