(* ===== verification/Mesh_Commands.thy ===== *)
theory Mesh_Commands
  imports Mesh_Config Mesh_Agent Edge_Proxy Dns_Handler
begin

text \<open>
  The commands \<^verbatim>\<open>cmd/meshproxy\<close>, \<^verbatim>\<open>cmd/meshagent\<close> and \<^verbatim>\<open>cmd/meshdns\<close>: how a loaded configuration
  becomes the configuration of the packages, and the advertiser of an edge node. The decoding of
  private keys and the opening of a geo database are arguments; an identity key is opaque. \<^verbatim>\<open>Fatal\<close>
  is an error. Flags, logging, servers and signals are left out.
\<close>

section \<open>Durations\<close>

text \<open>\<^verbatim>\<open>time.ParseDuration\<close>, with exact arithmetic for fractions (of at most 18 digits).\<close>

definition duration_units :: "(string \<times> nat) list" where
  "duration_units = [(''ns'', 1), (''us'', 1000), ([CHR 0xC2, CHR 0xB5, CHR ''s''], 1000),
     ([CHR 0xCE, CHR 0xBC, CHR ''s''], 1000), (''ms'', 1000000), (''s'', 1000000000),
     (''m'', 60000000000), (''h'', 3600000000000)]"

text \<open>One turn of the loop: a number, perhaps with a fraction, and its unit; the value and the rest.\<close>

definition unit_char :: "char \<Rightarrow> bool" where
  "unit_char c \<longleftrightarrow> \<not> (c = CHR ''.'' \<or> is_digit c)"

definition take_fraction :: "string \<Rightarrow> string \<times> string" where
  "take_fraction s = (case s of c # t \<Rightarrow> if c = CHR ''.'' then (takeWhile is_digit t, dropWhile is_digit t) else ([], s)
                      | [] \<Rightarrow> ([], s))"

definition duration_step :: "string \<Rightarrow> (nat \<times> string) option" where
  "duration_step s =
     (if s = [] \<or> unit_char (hd s) then None
      else
        let ds = takeWhile is_digit s; v = number ds;
            (fs, s2) = take_fraction (dropWhile is_digit s);
            u = takeWhile unit_char s2; s3 = dropWhile unit_char s2
        in if v > 2 ^ 63 \<or> (ds = [] \<and> fs = []) \<or> u = [] then None
           else case map_of duration_units u of
             None \<Rightarrow> None
           | Some unit \<Rightarrow>
               if v > 2 ^ 63 div unit then None
               else let v = v * unit + number fs * unit div 10 ^ length fs
                    in if v > 2 ^ 63 then None else Some (v, s3))"

lemma take_fraction_length: "length (snd (take_fraction s)) \<le> length s"
  by (simp add: take_fraction_def length_dropWhile_le le_SucI split: list.split)

lemma duration_step_shorter: "duration_step s = Some (v, s') \<Longrightarrow> length s' < length s"
proof -
  assume step: "duration_step s = Some (v, s')"
  define s2 where "s2 = snd (take_fraction (dropWhile is_digit s))"
  have "s' = dropWhile unit_char s2" "takeWhile unit_char s2 \<noteq> []"
    using step by (auto simp: duration_step_def s2_def Let_def case_prod_unfold split: if_splits option.splits)
  then have "length s' < length s2"
    by (metis length_append length_greater_0_conv less_add_same_cancel2 takeWhile_dropWhile_id)
  also have "length s2 \<le> length s"
    unfolding s2_def by (meson length_dropWhile_le order_trans take_fraction_length)
  finally show ?thesis .
qed

function duration_loop :: "nat \<Rightarrow> string \<Rightarrow> nat option" where
  "duration_loop d s =
     (if s = [] then Some d
      else case duration_step s of
             None \<Rightarrow> None
           | Some (v, s') \<Rightarrow> if d + v > 2 ^ 63 then None else duration_loop (d + v) s')"
  by pat_completeness auto
termination
  by (relation "measure (\<lambda>(d, s). length s)") (auto dest: duration_step_shorter)

declare duration_loop.simps [simp del]

definition ParseDuration :: "string \<Rightarrow> duration option" where
  "ParseDuration s =
     (let (neg, s) = take_sign s
      in if s = ''0'' then Some 0
         else if s = [] then None
         else case duration_loop 0 s of
                None \<Rightarrow> None
              | Some d \<Rightarrow> if neg then Some (- int d) else if d > 2 ^ 63 - 1 then None else Some (int d))"

section \<open>The edge proxy\<close>

definition parseCacheTTL :: "string \<Rightarrow> string + (duration \<times> bool)" where
  "parseCacheTTL raw =
     (let value = TrimSpace (ToLower raw)
      in if value = [] \<or> value = ''infinite'' \<or> value = ''forever'' \<or> value = ''none'' then Inr (0, True)
         else case ParseDuration raw of
                None \<Rightarrow> Inl ''cache ttl''
              | Some t \<Rightarrow> Inr (t, False))"

definition buildSelectorConfig :: "mesh_cfg \<Rightarrow> sel_Config" where
  "buildSelectorConfig cfg =
     (let sel = sel_DefaultConfig;
          sel = (if sl_DeltaHeight (cf_Selector cfg) > 0 then sel\<lparr>HeightDelta := sl_DeltaHeight (cf_Selector cfg)\<rparr> else sel);
          sel = (if sl_SoftmaxT (cf_Selector cfg) > 0 then sel\<lparr>SoftmaxTemperature := sl_SoftmaxT (cf_Selector cfg)\<rparr> else sel)
      in sel)"

definition buildProxyConfig :: "mesh_cfg \<Rightarrow> Store \<Rightarrow> string + proxy_Config" where
  "buildProxyConfig cfg store =
     (let chains = foldl (\<lambda>chains chain. chains @ [chain]) [] (eg_Chains (cf_Edge cfg))
      in case parseCacheTTL (ch_TTLHeighted (cf_Cache cfg)) of
           Inl err \<Rightarrow> Inl err
         | Inr (t, forever) \<Rightarrow>
             let backendScheme = (if eg_BackendScheme (cf_Edge cfg) = [] then ''https'' else eg_BackendScheme (cf_Edge cfg))
             in Inr \<lparr>pc_Store = Some store, pc_Chains = chains, pc_Selector = buildSelectorConfig cfg,
                     CacheEnabled = ch_Enabled (cf_Cache cfg), CacheMaxBytes = ch_MaxBytes (cf_Cache cfg),
                     CacheMaxItemBytes = ch_MaxItemBytes (cf_Cache cfg), CacheTTLHeighted = t,
                     CacheTTLInfinite = forever, NegativeCacheTTL = 5 * second,
                     RateLimit = \<lparr>PerIPRPS = rt_PerIPRPS (cf_Rate cfg), Burst = rt_Burst (cf_Rate cfg),
                                  Window = 600 * second\<rparr>,
                     EdgeCountry = eg_Country (cf_Edge cfg), EdgeRegion = eg_Region (cf_Edge cfg),
                     BackendScheme = backendScheme\<rparr>)"

subsection \<open>The advertiser\<close>

record edgeAdvertiser =
  ad_cfg :: EdgeConfig
  ad_sequence :: u64

definition newEdgeAdvertiser :: "EdgeConfig \<Rightarrow> edgeAdvertiser" where
  "newEdgeAdvertiser cfg = \<lparr>ad_cfg = cfg, ad_sequence = 0\<rparr>"

text \<open>The key of the node: its raw public part, and signing.\<close>

record advert_env =
  av_Raw :: "string + bytes"
  av_Sign :: "bytes \<Rightarrow> string + bytes"

definition advert_ips :: "EdgeConfig \<Rightarrow> IP list" where
  "advert_ips cfg = List.map_filter (\<lambda>raw. ParseIP (TrimSpace raw)) (eg_AdvertiseIPs cfg)"

text \<open>The sequence number is drawn before the key is looked at, so it is used up by failures too.\<close>

definition advert_publish ::
    "'pk gossip_env \<Rightarrow> reg_env \<Rightarrow> advert_env \<Rightarrow> time \<Rightarrow> string list \<Rightarrow> Store \<Rightarrow> edgeAdvertiser \<Rightarrow>
     edgeAdvertiser \<times> Store \<times> (string + bytes)" where
  "advert_publish g renv av now topics s a =
     (let ips = advert_ips (ad_cfg a)
      in if ips = [] then (a, s, Inl ''no advertise IPs configured'')
         else
           let a = a\<lparr>ad_sequence := ad_sequence a + 1\<rparr>;
               advert = \<lparr>na_ID = eg_ID (ad_cfg a), na_NSServing = eg_NSServing (ad_cfg a), na_IPs = ips,
                         na_Country = eg_Country (ad_cfg a), na_Region = eg_Region (ad_cfg a),
                         na_AtUnix = Unix now, na_PubKey = [], na_Sig = [], na_Clock = ad_sequence a\<rparr>
           in case av_Raw av of
                Inl err \<Rightarrow> (a, s, Inl err)
              | Inr pubKey \<Rightarrow>
                  (let advert = advert\<lparr>na_PubKey := pubKey\<rparr>
                   in case CanonicalNodeAdvert renv advert of
                        Inl err \<Rightarrow> (a, s, Inl err)
                      | Inr payload \<Rightarrow>
                          (case av_Sign av payload of
                             Inl err \<Rightarrow> (a, s, Inl err)
                           | Inr sig \<Rightarrow>
                               let (s, out) = PublishNodeAdvert g renv now topics s (advert\<lparr>na_Sig := sig\<rparr>)
                               in (a, s, out))))"

text \<open>\<^verbatim>\<open>Run\<close>: one publication at once and one per tick, unless the node has no identifier.\<close>

fun advert_loop ::
    "'pk gossip_env \<Rightarrow> reg_env \<Rightarrow> advert_env \<Rightarrow> string list \<Rightarrow> time list \<Rightarrow> Store \<Rightarrow> edgeAdvertiser \<Rightarrow>
     edgeAdvertiser \<times> Store \<times> (string + bytes) list" where
  "advert_loop g renv av topics [] s a = (a, s, [])"
| "advert_loop g renv av topics (now # ticks) s a =
     (let (a, s, out) = advert_publish g renv av now topics s a;
          (a, s, outs) = advert_loop g renv av topics ticks s a
      in (a, s, out # outs))"

definition advert_Run ::
    "'pk gossip_env \<Rightarrow> reg_env \<Rightarrow> advert_env \<Rightarrow> string list \<Rightarrow> time list \<Rightarrow> Store \<Rightarrow> edgeAdvertiser \<Rightarrow>
     edgeAdvertiser \<times> Store \<times> (string + bytes) list" where
  "advert_Run g renv av topics ticks s a =
     (if eg_ID (ad_cfg a) = [] then (a, s, []) else advert_loop g renv av topics ticks s a)"

section \<open>The agent\<close>

record key_env =
  ke_UnmarshalPrivateKey :: "bytes \<Rightarrow> string + bytes"

definition parseIdentityKey :: "key_env \<Rightarrow> string \<Rightarrow> string + bytes" where
  "parseIdentityKey ke b64 =
     (case DecodeString (TrimSpace b64) of
        Inl err \<Rightarrow> Inl (''decode identity key: '' @ err)
      | Inr raw \<Rightarrow>
          (case ke_UnmarshalPrivateKey ke raw of
             Inl err \<Rightarrow> Inl (''unmarshal identity key: '' @ err) | Inr key \<Rightarrow> Inr key))"

definition parseOwnerKey :: "key_env \<Rightarrow> string \<Rightarrow> string + bytes" where
  "parseOwnerKey ke b64 =
     (if TrimSpace b64 = [] then Inl ''owner key missing''
      else case DecodeString (TrimSpace b64) of
        Inl err \<Rightarrow> Inl (''decode owner key: '' @ err)
      | Inr raw \<Rightarrow>
          if length raw \<noteq> PrivateKeySize
          then Inl (''owner key length '' @ dec (length raw) @ '', expected '' @ dec PrivateKeySize)
          else Inr raw)"

fun ip_loop :: "IP list \<Rightarrow> string list \<Rightarrow> string + IP list" where
  "ip_loop ips [] = Inr ips"
| "ip_loop ips (item # items) =
     (case ParseIP (TrimSpace item) of
        None \<Rightarrow> Inl (''invalid IP address '' @ item)
      | Some ip \<Rightarrow> ip_loop (ips @ [ip]) items)"

definition parseIPList :: "string list \<Rightarrow> string + IP list" where
  "parseIPList items = (if items = [] then Inr [] else ip_loop [] items)"

definition sanitizeEndpoint :: "string \<Rightarrow> string \<Rightarrow> string" where
  "sanitizeEndpoint endpoint defaultScheme =
     (let endpoint = TrimSpace endpoint
      in if endpoint = [] then endpoint
         else if HasPrefix endpoint ''http://'' \<or> HasPrefix endpoint ''https://'' then endpoint
         else if Contains endpoint ''://'' then endpoint
         else defaultScheme @ ''://'' @ endpoint)"

fun firstNonEmpty :: "string list \<Rightarrow> string" where
  "firstNonEmpty [] = []"
| "firstNonEmpty (v # vs) = (if TrimSpace v \<noteq> [] then v else firstNonEmpty vs)"

definition agent_endpoints :: "BackendConfig \<Rightarrow> string \<times> string \<times> string" where
  "agent_endpoints b =
     (let rpc = firstNonEmpty [bc_RPCEndpoint b, go_get [] (bc_Metadata b) ''rpc_endpoint'', bc_Host b];
          rpc = sanitizeEndpoint rpc ''http'';
          rpc = TrimSuffix rpc ''/'';
          rpc = TrimSuffix rpc ''/status'';
          lcd = firstNonEmpty [bc_LCDEndpoint b, go_get [] (bc_Metadata b) ''lcd_endpoint''];
          lcd = (if lcd = [] \<and> bc_Host b \<noteq> []
                 then sanitizeEndpoint (bc_Host b) ''http'' @ ''/cosmos/base/tendermint/v1beta1/node_info''
                 else if lcd \<noteq> [] then sanitizeEndpoint lcd ''http'' else lcd);
          prom = firstNonEmpty [bc_PromEndpoint b, go_get [] (bc_Metadata b) ''prom_endpoint''];
          prom = (if prom \<noteq> [] then sanitizeEndpoint prom ''http'' else prom)
      in (rpc, lcd, prom))"

definition agent_main :: "key_env \<Rightarrow> time \<Rightarrow> mesh_cfg \<Rightarrow> string + agent_Config" where
  "agent_main ke now cfg =
     (let b = cf_Backend cfg;
          identityKeyB64 = firstNonEmpty [bc_IdentityKey b, mc_GossipKey (cf_Mesh cfg)]
      in if identityKeyB64 = [] then Inl ''missing gossip identity key in configuration''
         else case parseIdentityKey ke identityKeyB64 of
           Inl err \<Rightarrow> Inl err
         | Inr identityKey \<Rightarrow>
             (case parseOwnerKey ke (bc_OwnerKey b) of
                Inl err \<Rightarrow> Inl err
              | Inr ownerKey \<Rightarrow>
                  (case parseIPList (bc_IPs b) of
                     Inl err \<Rightarrow> Inl err
                   | Inr ips \<Rightarrow>
                       let (rpc, lcd, prom) = agent_endpoints b;
                           meta = \<lparr>bm_ID = bc_ID b, bm_Host = bc_Host b, bm_IPs = ips, bm_Country = bc_Country b,
                                   bm_Region = bc_Region b, bm_ChainID = bc_ChainID b, bm_Caps = bc_Caps b,
                                   bm_Archival = bc_Archival b, bm_OwnerPK = [], bm_AddedAt = Unix now, bm_Sig = [],
                                   bm_Clock = 1\<rparr>
                       in Inr \<lparr>ac_IdentityKey = Some identityKey, ac_Meta = meta,
                               ac_MetricsInterval = pb_Interval (cf_Probe cfg),
                               ac_VerifyListen = bc_VerifyListen b, ac_OwnerKey = Some ownerKey,
                               ac_Collector = \<lparr>cc_ChainID = bm_ChainID meta, cc_RPCEndpoint = rpc,
                                               cc_LCDEndpoint = lcd, cc_PromEndpoint = prom,
                                               cc_Timeout = pb_Timeout (cf_Probe cfg)\<rparr>\<rparr>)))"

section \<open>The name server\<close>

definition dns_chains :: "string list \<Rightarrow> ChainID list" where
  "dns_chains cs = foldl (\<lambda>chains chain. let chain = TrimSpace chain in if chain = [] then chains else chains @ [chain]) [] cs"

text \<open>
  \<open>open_db\<close> opens the geo databases: an error, or the lookup. \<open>service\<close> is what \<^verbatim>\<open>gossip.NewService\<close>
  returns: an error, or the topics joined (\<open>Gossip_Start\<close>). The periodic reload of the databases is an event of
  \<open>Geo_Provider\<close>.
\<close>

definition geo_provider :: "(string \<Rightarrow> string \<Rightarrow> string + geo_lookup) \<Rightarrow> DNSConfig \<Rightarrow> string + geo_lookup option" where
  "geo_provider open_db d =
     (if dn_GeoEnabled d \<and> dn_GeoCityDB d \<noteq> []
      then (case open_db (dn_GeoCityDB d) (dn_GeoASNDB d) of Inl err \<Rightarrow> Inl err | Inr l \<Rightarrow> Inr (Some l))
      else if dn_GeoEnabled d then Inr (Some (stub_Lookup NewStubProvider)) else Inr None)"

definition dns_main ::
    "key_env \<Rightarrow> (string + string list) \<Rightarrow> (string \<Rightarrow> string \<Rightarrow> string + geo_lookup) \<Rightarrow> dns_env \<Rightarrow> mesh_cfg \<Rightarrow>
     string + (RegistryZoneView, 'l) Handler" where
  "dns_main ke service open_db de cfg =
     (let d = cf_DNS cfg;
          zone = TrimSpace (dn_Zone d)
      in if zone = [] then Inl ''dns zone must be configured''
         else if firstNonEmpty [mc_GossipKey (cf_Mesh cfg)] = [] then Inl ''gossip identity key required''
         else case parseIdentityKey ke (firstNonEmpty [mc_GossipKey (cf_Mesh cfg)]) of
           Inl err \<Rightarrow> Inl err
         | Inr identityKey \<Rightarrow>
             (case service of
                Inl err \<Rightarrow> Inl err
              | Inr gossipSvc \<Rightarrow>
             (case geo_provider open_db d of
                Inl err \<Rightarrow> Inl err
              | Inr geoProvider \<Rightarrow>
                  (let geoWeight = (if dn_GeoWeight d \<le> 0 then 0.5 else dn_GeoWeight d)
                   in case NewRegistryZoneView de
                             \<lparr>zc_Store = Some (NewStore (30 * second)), zc_Zone = zone, zc_NSLabels = dn_NSLabels d,
                              zc_TTLNSA = word_of_int (dn_TTLNSA d), zc_TTLService = word_of_int (dn_TTLService d),
                              zc_GeoProvider = geoProvider, zc_GeoWeight = geoWeight\<rparr> of
                        Inl err \<Rightarrow> Inl err
                      | Inr zoneView \<Rightarrow>
                          NewHandler \<lparr>dc_Zone = zone, dc_Chains = dns_chains (dn_Chains d), dc_NSLabels = dn_NSLabels d,
                                      dc_TTLService = word_of_int (dn_TTLService d), dc_TTLNSA = word_of_int (dn_TTLNSA d),
                                      dc_MaxAnswers = dn_MaxAnswers d, dc_EnableECS = dn_EnableECS d,
                                      dc_RRLRate = dn_RRLQPS d, dc_RRLBurst = dn_RRLBurst d,
                                      dc_RRLWindow = dn_RRLWindow d\<rparr> (Some zoneView)))))"

section \<open>Adverts\<close>

definition node_key_laws :: "reg_env \<Rightarrow> advert_env \<Rightarrow> bool" where
  "node_key_laws renv av \<longleftrightarrow>
     (\<forall>raw. av_Raw av = Inr raw \<longrightarrow> length raw = PublicKeySize \<and>
        (\<forall>m sig. av_Sign av m = Inr sig \<longrightarrow> ed25519_Verify renv raw m sig))"

lemma CanonicalNodeAdvert_sig [simp]: "CanonicalNodeAdvert env (a\<lparr>na_Sig := s\<rparr>) = CanonicalNodeAdvert env a"
  by (simp add: CanonicalNodeAdvert_def)

lemma advert_publish_Inr:
  assumes "node_key_laws renv av" and "advert_publish g renv av now topics s a = (a', s', Inr data)"
  obtains advert where "PublishNodeAdvert g renv now topics s advert = (s', Inr data)"
    and "authentic_advert renv advert" and "na_ID advert = eg_ID (ad_cfg a)"
    and "na_NSServing advert = eg_NSServing (ad_cfg a)" and "na_IPs advert = advert_ips (ad_cfg a)"
    and "na_Clock advert = ad_sequence a + 1" and "advert_ips (ad_cfg a) \<noteq> []"
    and "a' = a\<lparr>ad_sequence := ad_sequence a + 1\<rparr>"
proof -
  have ips: "advert_ips (ad_cfg a) \<noteq> []" using assms(2) by (auto simp: advert_publish_def Let_def split: if_splits)
  obtain raw where raw: "av_Raw av = Inr raw"
    using assms(2) ips by (auto simp: advert_publish_def Let_def split: sum.splits)
  define adv where "adv = \<lparr>na_ID = eg_ID (ad_cfg a), na_NSServing = eg_NSServing (ad_cfg a), na_IPs = advert_ips (ad_cfg a),
     na_Country = eg_Country (ad_cfg a), na_Region = eg_Region (ad_cfg a), na_AtUnix = Unix now, na_PubKey = raw,
     na_Sig = [], na_Clock = ad_sequence a + 1\<rparr>"
  note run = assms(2) [unfolded advert_publish_def Let_def raw sum.case]
  obtain enc where enc: "CanonicalNodeAdvert renv adv = Inr enc"
    using run ips by (auto simp: adv_def split: sum.splits)
  obtain sig where sig: "av_Sign av enc = Inr sig"
    using run ips enc by (auto simp: adv_def split: sum.splits)
  show thesis
  proof (rule that [of "adv\<lparr>na_Sig := sig\<rparr>"])
    show "PublishNodeAdvert g renv now topics s (adv\<lparr>na_Sig := sig\<rparr>) = (s', Inr data)"
      "a' = a\<lparr>ad_sequence := ad_sequence a + 1\<rparr>"
      using run ips enc sig by (auto simp: adv_def split: prod.splits)
    have "length raw = PublicKeySize" "ed25519_Verify renv raw enc sig"
      using assms(1) raw sig by (auto simp: node_key_laws_def)
    then show "authentic_advert renv (adv\<lparr>na_Sig := sig\<rparr>)" by (simp add: authentic_advert_def enc) (simp add: adv_def)
  qed (simp_all add: adv_def ips)
qed

lemma publish_advert_delivered:
  assumes "codec_laws g" and "key_laws g own"
    and "PublishNodeAdvert g renv now topics s advert = (s', Inr data)"
  shows "topicValidator g TopicNodeAdverts own data"
    and "consume g renv' now' t TopicNodeAdverts own data = fst (ApplyNodeAdvert renv' t advert)"
proof -
  obtain buf where buf: "marshal_advert g advert = Inr buf"
    and pub: "Publish g now topics TopicNodeAdverts buf (na_Clock advert) = Inr data"
    using assms(3) by (auto simp: PublishNodeAdvert_def split: sum.splits)
  moreover have "unmarshal_advert g buf = Inr advert" using assms(1) buf by (simp add: codec_laws_def)
  ultimately show "topicValidator g TopicNodeAdverts own data"
    "consume g renv' now' t TopicNodeAdverts own data = fst (ApplyNodeAdvert renv' t advert)"
    using publish_delivered [OF assms(1,2) pub]
    by (simp_all add: handlePayload_def TopicBackendsMeta_def TopicBackendsMetrics_def TopicNodeAdverts_def)
qed

text \<open>What a store does with a genuine advert.\<close>

lemma Apply_advert_entry:
  assumes "authentic_advert env a"
  shows "map_of (st_nodes (fst (ApplyNodeAdvert env t a))) (na_ID a) =
    (if wins (map_of (st_nodes t)) (na_ID a) (advert_entry a) then Some (advert_entry a) else map_of (st_nodes t) (na_ID a))"
    and "\<not> wins (map_of (st_nodes t)) (na_ID a) (advert_entry a) \<Longrightarrow> st_nodes (fst (ApplyNodeAdvert env t a)) = st_nodes t"
  by (auto simp: Apply_advert_authentic [OF assms] lww_Merge_def wins_def split: option.splits)

section \<open>Endpoints\<close>

lemma Contains_append: "Contains (a @ p @ b) p"
  by (auto simp: Contains_def sublist_def)

lemma HasPrefix_Contains: "HasPrefix e (a @ p) \<Longrightarrow> Contains e p"
  by (auto simp: HasPrefix_def prefix_def intro: Contains_append [of a p, simplified append_assoc])

lemma sanitizeEndpoint_scheme:
  "sanitizeEndpoint e scheme = [] \<longleftrightarrow> TrimSpace e = []"
  "sanitizeEndpoint e scheme \<noteq> [] \<Longrightarrow> Contains (sanitizeEndpoint e scheme) ''://''"
proof -
  show "sanitizeEndpoint e scheme = [] \<longleftrightarrow> TrimSpace e = []" by (simp add: sanitizeEndpoint_def Let_def)
  show "sanitizeEndpoint e scheme \<noteq> [] \<Longrightarrow> Contains (sanitizeEndpoint e scheme) ''://''"
    using HasPrefix_Contains [of "TrimSpace e" "''http''" "''://''"] HasPrefix_Contains [of "TrimSpace e" "''https''" "''://''"]
      Contains_append [of scheme "''://''"]
    by (auto simp: sanitizeEndpoint_def Let_def split: if_splits)
qed

lemma TrimSuffix_cases: "TrimSuffix s p = s \<or> s = TrimSuffix s p @ p"
  by (cases "HasSuffix s p") (simp add: HasSuffix_TrimSuffix, simp add: TrimSuffix_def)

lemma endpoint_survives:
  assumes "Contains e ''://''"
  shows "TrimSuffix (TrimSuffix e ''/'') ''/status'' \<noteq> []"
proof
  assume nil: "TrimSuffix (TrimSuffix e ''/'') ''/status'' = []"
  have "e \<in> {[], ''/'', ''/status'', ''/status/''}"
    using nil TrimSuffix_cases [of e "''/''"] TrimSuffix_cases [of "TrimSuffix e ''/''" "''/status''"] by auto
  moreover have "\<not> Contains e' ''://''" if "e' \<in> {[], ''/'', ''/status'', ''/status/''}" for e'
    using that unfolding Contains_def by (auto simp: sublist_Cons_right)
  ultimately show False using assms by blast
qed

lemma firstNonEmpty_last: "TrimSpace v \<noteq> [] \<Longrightarrow> TrimSpace (firstNonEmpty (vs @ [v])) \<noteq> []"
  by (induction vs) auto

lemma agent_rpc_endpoint: "TrimSpace (bc_Host b) \<noteq> [] \<Longrightarrow> fst (agent_endpoints b) \<noteq> []"
  using firstNonEmpty_last [of "bc_Host b" "[bc_RPCEndpoint b, go_get [] (bc_Metadata b) ''rpc_endpoint'']"]
  unfolding agent_endpoints_def Let_def fst_conv append.simps
  by (intro endpoint_survives sanitizeEndpoint_scheme(2)) (simp only: sanitizeEndpoint_scheme(1) not_False_eq_True)

section \<open>Properties\<close>

text \<open>
  A configuration that loads starts the name server. With a zone, an identity key that decodes, a
  gossip service that starts and geo databases that open (if any are configured), the server of a loaded
  configuration is built: its
  zone is the registry's, it answers with at least one record where there are any, its answers live
  longer than zero, and it limits rates exactly when a rate was configured.
\<close>

theorem loaded_config_starts_dns:
  assumes "Load (Inr file) = Inr cfg" and "TrimSpace (dn_Zone (cf_DNS file)) \<noteq> []"
    and "TrimSpace (mc_GossipKey (cf_Mesh cfg)) \<noteq> []" and "parseIdentityKey ke (mc_GossipKey (cf_Mesh cfg)) = Inr key"
    and "geo_provider open_db (cf_DNS cfg) = Inr lookup"
  shows "\<exists>h :: (RegistryZoneView, 'l) Handler. dns_main ke (Inr topics) open_db de cfg = Inr h \<and> dc_MaxAnswers (ha_cfg h) > 0 \<and> dc_TTLService (ha_cfg h) \<noteq> 0
    \<and> store_wf (zv_store (ha_zone h)) \<and> zv_geoProvider (ha_zone h) = lookup
    \<and> 0 < zv_geoWeight (ha_zone h) \<and> zv_geoWeight (ha_zone h) \<le> 1
    \<and> (ha_rateLimit h \<noteq> None \<longleftrightarrow> dn_RRLQPS (cf_DNS cfg) > 0)
    \<and> (case ha_rateLimit h of None \<Rightarrow> True | Some l \<Rightarrow> rq_burst l > 0 \<and> rq_ttl l > 0)"
proof -
  have ok: "loaded cfg" "TrimSpace (dn_Zone (cf_DNS cfg)) \<noteq> []" using Load_loaded [OF assms(1)] assms(2) by simp_all
  define g where "g = (if dn_GeoWeight (cf_DNS cfg) \<le> 0 then 0.5 else dn_GeoWeight (cf_DNS cfg))"
  have g: "g > 0" by (simp add: g_def)
  let ?zc = "\<lparr>zc_Store = Some (NewStore (30 * second)), zc_Zone = TrimSpace (dn_Zone (cf_DNS cfg)),
    zc_NSLabels = dn_NSLabels (cf_DNS cfg), zc_TTLNSA = word_of_int (dn_TTLNSA (cf_DNS cfg)),
    zc_TTLService = word_of_int (dn_TTLService (cf_DNS cfg)), zc_GeoProvider = lookup, zc_GeoWeight = g\<rparr>"
  obtain v where v: "NewRegistryZoneView de ?zc = Inr v" "store_wf (zv_store v)" "zv_geoProvider v = lookup"
    "0 < zv_geoWeight v" "zv_geoWeight v \<le> 1"
    using ok(2) g by (auto simp: NewRegistryZoneView_def Let_def)
  have rrl: "0 \<le> dn_RRLQPS (cf_DNS cfg)" "0 < dn_RRLWindow (cf_DNS cfg)"
    using ok(1) by (simp_all add: loaded_def)
  have key: "mc_GossipKey (cf_Mesh cfg) \<noteq> []" using assms(3) by (auto simp: TrimSpace_def)
  let ?hc = "\<lparr>dc_Zone = TrimSpace (dn_Zone (cf_DNS cfg)),
      dc_Chains = dns_chains (dn_Chains (cf_DNS cfg)), dc_NSLabels = dn_NSLabels (cf_DNS cfg),
      dc_TTLService = word_of_int (dn_TTLService (cf_DNS cfg)), dc_TTLNSA = word_of_int (dn_TTLNSA (cf_DNS cfg)),
      dc_MaxAnswers = dn_MaxAnswers (cf_DNS cfg), dc_EnableECS = dn_EnableECS (cf_DNS cfg),
      dc_RRLRate = dn_RRLQPS (cf_DNS cfg), dc_RRLBurst = dn_RRLBurst (cf_DNS cfg),
      dc_RRLWindow = dn_RRLWindow (cf_DNS cfg)\<rparr>"
  have "(dns_main ke (Inr topics) open_db de cfg :: string + (RegistryZoneView, 'l) Handler) = NewHandler ?hc (Some v)"
    using ok(2) assms(3-5) v(1) key by (simp add: dns_main_def Let_def g_def)
  moreover obtain h :: "(RegistryZoneView, 'l) Handler" where "NewHandler ?hc (Some v) = Inr h" "ha_zone h = v" "dc_MaxAnswers (ha_cfg h) > 0"
    "dc_TTLService (ha_cfg h) \<noteq> 0" "if dc_RRLRate ?hc > 0 then \<exists>l. ha_rateLimit h = Some l \<and> rq_burst l > 0 \<and> rq_ttl l > 0
       else ha_rateLimit h = None"
    using NewHandler_runs [of ?hc v] ok(2) rrl by auto
  ultimately show ?thesis using v(2-5) by (intro exI [of _ h]) (auto split: if_splits)
qed

definition demo_keys :: key_env where
  "demo_keys = \<lparr>ke_UnmarshalPrivateKey = (\<lambda>b. Inr b)\<rparr>"

lemma demo_trim: "TrimSpace '' mesh '' = ''mesh''" "TrimSpace ''AQ=='' = ''AQ==''" "TrimSpace ''h'' = ''h''"
  "DecodeString ''AQ=='' = Inr [1]"
  by code_simp+

theorem loaded_config_starts_dns_witness:
  "\<exists>cfg h. Load (Inr demo_file) = Inr cfg
    \<and> dns_main demo_keys (Inr []) (\<lambda>_ _. Inl ''no database'') demo_dns cfg = (Inr (h :: (RegistryZoneView, int) Handler))
    \<and> ha_rateLimit h \<noteq> None"
proof -
  obtain cfg where cfg: "Load (Inr demo_file) = Inr cfg" using demo_loads by blast
  then have k: "mc_GossipKey (cf_Mesh cfg) = ''AQ==''" "dn_GeoEnabled (cf_DNS cfg) = False" "dn_RRLQPS (cf_DNS cfg) = 10"
    by (auto simp: Load_def check_rrl_def default_dns_def default_mesh_def demo_file_def or_default_def Let_def split: if_splits)
  moreover have "TrimSpace (dn_Zone (cf_DNS demo_file)) = ''mesh''" by (simp add: demo_file_def demo_trim)
  ultimately obtain h :: "(RegistryZoneView, int) Handler" where
    "dns_main demo_keys (Inr []) (\<lambda>_ _. Inl ''no database'') demo_dns cfg = Inr h" "ha_rateLimit h \<noteq> None"
    using loaded_config_starts_dns [OF cfg, of demo_keys "[1]" "\<lambda>_ _. Inl ''no database''" None "[]" demo_dns]
    by (auto simp: geo_provider_def parseIdentityKey_def demo_keys_def demo_trim)
  with cfg show ?thesis by blast
qed

text \<open>
  A configuration that decodes starts the agent. When the keys and addresses of a configuration
  are accepted, the backend has an identifier, a chain and a host, the gossip service starts and the
  record can be encoded, then the agent is built, with the identifier, chain, host and capabilities of
  the configuration in its signed record and the status endpoint to probe.
\<close>

theorem agent_config_starts:
  assumes "agent_main ke now cfg = Inr ac" and "ae_NewService env = Inr topics" and "\<And>m. \<exists>enc. cbor_meta (ae_reg env) m = Inr enc"
    and "bc_ID (cf_Backend cfg) \<noteq> []" and "bc_ChainID (cf_Backend cfg) \<noteq> []" and "TrimSpace (bc_Host (cf_Backend cfg)) \<noteq> []"
  shows "\<exists>a. agent_New env now' ac = Inr a \<and> bm_ID (ag_meta a) = bc_ID (cf_Backend cfg)
    \<and> bm_ChainID (ag_meta a) = bc_ChainID (cf_Backend cfg) \<and> bm_Host (ag_meta a) = bc_Host (cf_Backend cfg)
    \<and> bm_Caps (ag_meta a) = bc_Caps (cf_Backend cfg)
    \<and> cc_RPCEndpoint (co_cfg (ag_collector a)) = fst (agent_endpoints (cf_Backend cfg)) \<and> ag_metricsInterval a > 0"
proof -
  obtain rpc lcd prom where ep: "agent_endpoints (cf_Backend cfg) = (rpc, lcd, prom)" by (cases "agent_endpoints (cf_Backend cfg)")
  have host: "bc_Host (cf_Backend cfg) \<noteq> []" using assms(6) by (auto simp: TrimSpace_def)
  have rpc: "rpc \<noteq> []" using agent_rpc_endpoint [OF assms(6)] ep by simp
  obtain key where key: "parseOwnerKey ke (bc_OwnerKey (cf_Backend cfg)) = Inr key"
    using assms(1) by (auto simp: agent_main_def Let_def split: if_splits sum.splits)
  then have len: "length key = PrivateKeySize" by (auto simp: parseOwnerKey_def split: if_splits sum.splits)
  have ac: "ac_OwnerKey ac = Some key" "ac_IdentityKey ac \<noteq> None" "cc_RPCEndpoint (ac_Collector ac) = rpc"
    "bm_ID (ac_Meta ac) = bc_ID (cf_Backend cfg)" "bm_ChainID (ac_Meta ac) = bc_ChainID (cf_Backend cfg)"
    "bm_Host (ac_Meta ac) = bc_Host (cf_Backend cfg)" "bm_Caps (ac_Meta ac) = bc_Caps (cf_Backend cfg)"
    using assms(1) key by (auto simp: agent_main_def Let_def ep split: if_splits sum.splits)
  obtain collector where col: "NewCollector (ac_Collector ac) = Inr collector" "cc_RPCEndpoint (co_cfg collector) = rpc"
    using rpc ac(3) by (simp add: NewCollector_def Let_def)
  have "\<exists>enc. CanonicalBackendMeta (ae_reg env) m = Inr enc" for m using assms(3) by (simp add: CanonicalBackendMeta_def)
  then obtain canon where canon: "\<And>m. CanonicalBackendMeta (ae_reg env) m = Inr (canon m)" by metis
  show ?thesis
    unfolding agent_New_def ac(1) option.case Let_def col(1) sum.case assms(2) canon
    using len ac(2,4-7) host assms(4,5) col(2) ep by (simp add: second_def)
qed

theorem agent_config_starts_witness:
  "\<exists>ac a. agent_main demo_keys 0 demo_file = Inr ac \<and> agent_New demo_agent_env 0 ac = Inr a \<and> bm_ID (ag_meta a) = ''b1''"
proof -
  obtain ac where ac: "agent_main demo_keys 0 demo_file = Inr ac"
    by (simp add: agent_main_def demo_file_def demo_keys_def parseIdentityKey_def parseOwnerKey_def parseIPList_def
        demo_trim PrivateKeySize_def Let_def case_prod_unfold TrimSpace_def [of "[]"])
  then show ?thesis
    using agent_config_starts [OF ac, of demo_agent_env "[TopicBackendsMeta]" 0]
    by (auto simp: demo_agent_env_def demo_env_def demo_file_def demo_trim)
qed

text \<open>
  What the advertiser publishes, a neighbour accepts. When an edge node hands its advert to the
  topic, the message passes the validator of a neighbour, and a neighbour that knows no newer advert
  of the node holds afterwards a live advert of the node with the configured addresses, signed with
  the node's key; the sequence number has gone up by one.
\<close>

theorem edge_advert_accepted:
  assumes "node_key_laws renv av" and "codec_laws g" and "key_laws g own"
    and "advert_publish g renv av now topics s a = (a', s', Inr data)" and "map_of (st_nodes t) (eg_ID (ad_cfg a)) = None"
  shows "topicValidator g TopicNodeAdverts own data \<and> ad_sequence a' = ad_sequence a + 1
    \<and> (\<exists>e. map_of (st_nodes (consume g renv now' t TopicNodeAdverts own data)) (eg_ID (ad_cfg a)) = Some e
        \<and> \<not> Tombstone e \<and> na_IPs (Value e) = advert_ips (ad_cfg a) \<and> na_NSServing (Value e) = eg_NSServing (ad_cfg a)
        \<and> authentic_advert renv (Value e))"
proof (rule advert_publish_Inr [OF assms(1,4)])
  fix advert
  assume adv: "PublishNodeAdvert g renv now topics s advert = (s', Inr data)" "authentic_advert renv advert"
    "na_ID advert = eg_ID (ad_cfg a)" "na_NSServing advert = eg_NSServing (ad_cfg a)" "na_IPs advert = advert_ips (ad_cfg a)"
    "a' = a\<lparr>ad_sequence := ad_sequence a + 1\<rparr>"
  have "map_of (st_nodes (fst (ApplyNodeAdvert renv t advert))) (eg_ID (ad_cfg a)) = Some (advert_entry advert)"
    using Apply_advert_entry(1) [OF adv(2), of t] assms(5) adv(3) by (simp add: wins_def)
  with adv show ?thesis
    by (simp add: publish_advert_delivered [OF assms(2,3) adv(1)] advert_entry_def)
qed

definition demo_advert :: NodeAdvert where
  "demo_advert = \<lparr>na_ID = ''e1'', na_NSServing = True, na_IPs = [IPv4 10 0 0 1], na_Country = ''DE'', na_Region = [],
     na_AtUnix = 0, na_PubKey = replicate 32 0, na_Sig = [2], na_Clock = 1\<rparr>"

definition demo_advert_envelope :: envelope where
  "demo_advert_envelope = \<lparr>ev_Topic = TopicNodeAdverts, ev_Clock = 1, ev_Time = 0, ev_Payload = [5],
     ev_PubKey = [1], ev_Signature = [5]\<rparr>"

definition demo_advert_gossip :: "bytes gossip_env" where
  "demo_advert_gossip = demo_gossip
     \<lparr>marshal_env := (\<lambda>e. if e = demo_advert_envelope then Inr [8] else Inl ''unsupported''),
      unmarshal_env := (\<lambda>b. if b = [8] then Inr demo_advert_envelope else Inl ''bad envelope''),
      marshal_advert := (\<lambda>a. if a = demo_advert then Inr [5] else Inl ''unsupported''),
      unmarshal_advert := (\<lambda>b. if b = [5] then Inr demo_advert else Inl ''bad advert'')\<rparr>"

definition demo_advert_key :: advert_env where
  "demo_advert_key = \<lparr>av_Raw = Inr (replicate 32 0), av_Sign = (\<lambda>m. Inr m)\<rparr>"

lemma demo_advert_laws:
  "node_key_laws demo_env demo_advert_key" "codec_laws demo_advert_gossip" "key_laws demo_advert_gossip ''peerA''"
  by (auto simp: node_key_laws_def demo_env_def demo_advert_key_def PublicKeySize_def codec_laws_def key_laws_def
      demo_advert_gossip_def demo_gossip_def split: if_splits)

lemma demo_advert_ips: "advert_ips (cf_Edge demo_file) = [IPv4 10 0 0 1]"
proof -
  have "ParseIP (TrimSpace ''10.0.0.1'') = Some (IPv4 10 0 0 1)" by code_simp
  then show ?thesis by (simp add: advert_ips_def demo_file_def List.map_filter_simps)
qed

lemma demo_advert_publish:
  "\<exists>a' s'. advert_publish demo_advert_gossip demo_env demo_advert_key 0 [TopicNodeAdverts] (NewStore 0)
     (newEdgeAdvertiser (cf_Edge demo_file)) = (a', s', Inr [8]) \<and> ad_sequence a' = 1"
proof -
  let ?adv = "\<lparr>na_ID = ''e1'', na_NSServing = True, na_IPs = [IPv4 10 0 0 1], na_Country = ''DE'', na_Region = [],
     na_AtUnix = 0, na_PubKey = replicate 32 0, na_Sig = [2], na_Clock = (0 :: u64) + 1\<rparr>"
  have adv: "?adv = demo_advert" by (simp add: demo_advert_def)
  have edge: "eg_ID (cf_Edge demo_file) = ''e1''" "eg_NSServing (cf_Edge demo_file)" "eg_Country (cf_Edge demo_file) = ''DE''"
    "eg_Region (cf_Edge demo_file) = []" by (simp_all add: demo_file_def)
  have "marshal_advert demo_advert_gossip demo_advert = Inr [5]" "na_Clock demo_advert = 1"
    by (simp add: demo_advert_gossip_def, simp add: demo_advert_def)
  moreover have "encodeEnvelope demo_advert_gossip 0 TopicNodeAdverts [5] 1 = Inr [8]"
    by (simp add: encodeEnvelope_def canonicalEnvelope_def demo_advert_gossip_def demo_gossip_def demo_advert_envelope_def Unix_def)
  ultimately have "PublishNodeAdvert demo_advert_gossip demo_env 0 [TopicNodeAdverts] t demo_advert =
      (fst (ApplyNodeAdvert demo_env t demo_advert), Inr [8])" for t
    by (simp add: PublishNodeAdvert_def Publish_def)
  with adv show ?thesis
    by (simp add: advert_publish_def newEdgeAdvertiser_def demo_advert_ips demo_advert_key_def CanonicalNodeAdvert_def
        demo_env_def [THEN arg_cong [of _ _ cbor_advert]] Unix_def edge Let_def)
qed

lemma demo_edge_id: "eg_ID (ad_cfg (newEdgeAdvertiser (cf_Edge demo_file))) = ''e1''"
  by (simp add: newEdgeAdvertiser_def demo_file_def)

theorem edge_advert_accepted_witness:
  "\<exists>e. map_of (st_nodes (consume demo_advert_gossip demo_env 5 (NewStore 0) TopicNodeAdverts ''peerA'' [8])) ''e1'' = Some e
    \<and> na_IPs (Value e) = [IPv4 10 0 0 1]"
proof -
  obtain a' s' where "advert_publish demo_advert_gossip demo_env demo_advert_key 0 [TopicNodeAdverts] (NewStore 0)
     (newEdgeAdvertiser (cf_Edge demo_file)) = (a', s', Inr [8])" using demo_advert_publish by blast
  from edge_advert_accepted [OF demo_advert_laws this, of "NewStore 0" 5] show ?thesis
    unfolding demo_edge_id by (auto simp: newEdgeAdvertiser_def demo_advert_ips NewStore_def NewLWWMap_def)
qed

text \<open>
  A restarted edge node is not heard. The sequence of an advertiser starts at zero again, while
  its neighbours remember the last number: they drop every advert of the restarted node, also one with
  new addresses, until its sequence has passed the number they hold.
\<close>

theorem restarted_edge_ignored:
  assumes "node_key_laws renv av" and "codec_laws g" and "key_laws g own"
    and "advert_publish g renv av now topics s a = (a', s', Inr data)"
    and "map_of (st_nodes t) (eg_ID (ad_cfg a)) = Some e" and "ad_sequence a' < Lamport (Clk e)"
  shows "st_nodes (consume g renv now' t TopicNodeAdverts own data) = st_nodes t"
proof (rule advert_publish_Inr [OF assms(1,4)])
  fix advert
  assume adv: "PublishNodeAdvert g renv now topics s advert = (s', Inr data)" "authentic_advert renv advert"
    "na_ID advert = eg_ID (ad_cfg a)" "na_Clock advert = ad_sequence a + 1" "a' = a\<lparr>ad_sequence := ad_sequence a + 1\<rparr>"
  have "\<not> wins (map_of (st_nodes t)) (na_ID advert) (advert_entry advert)"
    using assms(5,6) adv(3-5) by (auto simp: wins_def advert_entry_def advert_clock_def less_eq_Clock_def)
  with Apply_advert_entry(2) [OF adv(2)] show ?thesis
    by (simp add: publish_advert_delivered(2) [OF assms(2,3) adv(1)])
qed

theorem restarted_edge_ignored_witness:
  "st_nodes (consume demo_advert_gossip demo_env 5
     (demo_nodes [(''e1'', advert_entry (demo_advert\<lparr>na_Clock := 7, na_IPs := []\<rparr>))]) TopicNodeAdverts ''peerA'' [8]) =
   [(''e1'', advert_entry (demo_advert\<lparr>na_Clock := 7, na_IPs := []\<rparr>))]"
proof -
  obtain a' s' where run: "advert_publish demo_advert_gossip demo_env demo_advert_key 0 [TopicNodeAdverts] (NewStore 0)
     (newEdgeAdvertiser (cf_Edge demo_file)) = (a', s', Inr [8])" "ad_sequence a' = 1" using demo_advert_publish by blast
  let ?e = "advert_entry (demo_advert\<lparr>na_Clock := 7, na_IPs := []\<rparr>)"
  have "Lamport (Clk ?e) = 7" by (simp add: advert_entry_def advert_clock_def)
  with restarted_edge_ignored [OF demo_advert_laws run(1), of "demo_nodes [(''e1'', ?e)]" ?e 5] run(2) show ?thesis
    unfolding demo_edge_id by (simp add: demo_nodes_def)
qed

end
