(* ===== verification/Mesh_Tools.thy ===== *)
theory Mesh_Tools
  imports Mesh_Commands Gossip_Start
begin

text \<open>
  The key tool of \<^verbatim>\<open>cmd/meshctl/main.go\<close> against the readers of identity keys in \<^verbatim>\<open>cmd/meshd/main.go\<close> and
  \<^verbatim>\<open>cmd/meshproxy/main.go\<close> (those of the agent and the name server are in \<open>Mesh_Commands\<close>), the start of
  these two programs, and the pusher of \<^verbatim>\<open>pkg/metrics/metrics.go\<close>.
\<close>

section \<open>Identity keys\<close>

text \<open>The libp2p key package: a fresh pair, the peer of a public key, the encoding of a private key.\<close>

record 'pub key_tool =
  kt_GenerateKeyPair :: "string + bytes \<times> 'pub"
  kt_IDFromPublicKey :: "'pub \<Rightarrow> string + peerID"
  kt_MarshalPrivateKey :: "bytes \<Rightarrow> string + bytes"

text \<open>\<open>genkeys\<close>: the error on the console, or the peer and the key that are printed.\<close>

definition genkeys :: "'pub key_tool \<Rightarrow> string + peerID \<times> string" where
  "genkeys kt =
     (case kt_GenerateKeyPair kt of
        Inl err \<Rightarrow> Inl (''Error generating keypair: '' @ err)
      | Inr (privKey, pubKey) \<Rightarrow>
          (case kt_IDFromPublicKey kt pubKey of
             Inl err \<Rightarrow> Inl (''Error deriving peer ID: '' @ err)
           | Inr peerID \<Rightarrow>
               (case kt_MarshalPrivateKey kt privKey of
                  Inl err \<Rightarrow> Inl (''Error marshaling private key: '' @ err)
                | Inr privKeyBytes \<Rightarrow> Inr (peerID, EncodeToString privKeyBytes))))"

definition decode_identity :: "key_env \<Rightarrow> string \<Rightarrow> string + bytes" where
  "decode_identity ke b64 =
     (case DecodeString b64 of
        Inl err \<Rightarrow> Inl (''decode identity key: '' @ err)
      | Inr raw \<Rightarrow>
          (case ke_UnmarshalPrivateKey ke raw of
             Inl err \<Rightarrow> Inl (''unmarshal identity key: '' @ err) | Inr key \<Rightarrow> Inr key))"

definition meshd_parseIdentityKey :: "key_env \<Rightarrow> string \<Rightarrow> string + bytes" where
  "meshd_parseIdentityKey ke b64 = (if b64 = [] then Inl ''missing identity key'' else decode_identity ke b64)"

definition meshproxy_parseIdentityKey :: "key_env \<Rightarrow> string \<Rightarrow> string + bytes" where
  "meshproxy_parseIdentityKey ke b64 =
     (if TrimSpace b64 = [] then Inl ''missing identity key'' else decode_identity ke b64)"

text \<open>Encoded private keys are not empty and decode to the key.\<close>

definition key_codec_laws :: "'pub key_tool \<Rightarrow> key_env \<Rightarrow> bool" where
  "key_codec_laws kt ke \<longleftrightarrow>
     (\<forall>k raw. kt_MarshalPrivateKey kt k = Inr raw \<longrightarrow> raw \<noteq> [] \<and> ke_UnmarshalPrivateKey ke raw = Inr k)"

lemma genkeys_Inr:
  assumes "genkeys kt = Inr (pid, b64)"
  obtains k pub raw where "kt_GenerateKeyPair kt = Inr (k, pub)" and "kt_IDFromPublicKey kt pub = Inr pid"
    and "kt_MarshalPrivateKey kt k = Inr raw" and "b64 = EncodeToString raw"
  using assms by (auto simp: genkeys_def split: sum.splits prod.splits)

text \<open>
  C35. A generated key works everywhere: the key that \<^verbatim>\<open>meshctl genkeys\<close> prints is read back as the
  generated private key by every program of the mesh, with white space around it still by the agent and
  the name server.
\<close>

theorem generated_key_accepted:
  assumes "key_codec_laws kt ke" and "genkeys kt = Inr (pid, b64)"
  shows "\<exists>k pub. kt_GenerateKeyPair kt = Inr (k, pub) \<and> kt_IDFromPublicKey kt pub = Inr pid
    \<and> meshd_parseIdentityKey ke b64 = Inr k \<and> meshproxy_parseIdentityKey ke b64 = Inr k
    \<and> parseIdentityKey ke b64 = Inr k \<and> parseIdentityKey ke ('' '' @ b64 @ '' '') = Inr k"
proof (rule genkeys_Inr [OF assms(2)])
  fix k pub raw
  assume g: "kt_GenerateKeyPair kt = Inr (k, pub)" "kt_IDFromPublicKey kt pub = Inr pid"
    "kt_MarshalPrivateKey kt k = Inr raw" "b64 = EncodeToString raw"
  from assms(1) g(3) have raw: "raw \<noteq> []" "ke_UnmarshalPrivateKey ke raw = Inr k" by (auto simp: key_codec_laws_def)
  have "dropWhile is_space (b64 @ '' '') = b64 @ '' ''"
    using raw(1) EncodeToString_chars [of "hd b64" raw] by (cases b64) (simp_all add: g(4))
  moreover have "is_space CHR '' ''" by (simp add: is_space_def)
  moreover have "rev (dropWhile is_space (rev b64)) = b64"
    using TrimSpace_EncodeToString [of raw] EncodeToString_chars [of "hd b64" raw] raw(1)
    by (cases b64) (simp_all add: g(4) TrimSpace_def)
  ultimately have "TrimSpace ('' '' @ b64 @ '' '') = b64" by (simp add: TrimSpace_def)
  then show ?thesis
    using g raw by (simp add: meshd_parseIdentityKey_def meshproxy_parseIdentityKey_def parseIdentityKey_def decode_identity_def)
qed

definition demo_key_tool :: "nat key_tool" where
  "demo_key_tool = \<lparr>kt_GenerateKeyPair = Inr ([1], 7), kt_IDFromPublicKey = (\<lambda>_. Inr ''peerA''),
     kt_MarshalPrivateKey = (\<lambda>k. if k = [] then Inl ''empty key'' else Inr k)\<rparr>"

theorem generated_key_accepted_witness:
  "genkeys demo_key_tool = Inr (''peerA'', ''AQ=='') \<and> meshproxy_parseIdentityKey demo_keys ''AQ=='' = Inr [1]"
proof -
  have "EncodeToString [1] = ''AQ==''" by code_simp
  then have run: "genkeys demo_key_tool = Inr (''peerA'', ''AQ=='')" by (simp add: genkeys_def demo_key_tool_def)
  have "key_codec_laws demo_key_tool demo_keys" by (auto simp: key_codec_laws_def demo_key_tool_def demo_keys_def)
  from generated_key_accepted [OF this run] run show ?thesis by (auto simp: demo_key_tool_def)
qed

text \<open>
  The readers differ on white space: a key that the agent and the name server accept with a space
  after it is refused by the proxy and the daemon.
\<close>

theorem padded_key_refused:
  assumes "genkeys kt = Inr (pid, b64)"
  shows "(\<exists>err. meshd_parseIdentityKey ke (b64 @ '' '') = Inl err) \<and> (\<exists>err. meshproxy_parseIdentityKey ke (b64 @ '' '') = Inl err)"
proof (rule genkeys_Inr [OF assms])
  fix raw assume b64: "b64 = EncodeToString raw"
  have len: "length (EncodeToString bs) mod 4 = 0" for bs by (induction bs rule: EncodeToString.induct) simp_all
  have bad: "decode_groups cs = None" if "length cs mod 4 = 1" for cs
    using that by (induction cs rule: decode_groups.induct) (auto split: option.split)
  have "filter (\<lambda>c. \<not> line_end c) (EncodeToString raw @ '' '') = EncodeToString raw @ '' ''"
    using EncodeToString_chars by (auto simp: line_end_def intro!: filter_True)
  moreover have "length (EncodeToString raw @ '' '') mod 4 = 1" using len [of raw] by (simp add: mod_Suc)
  ultimately have "\<exists>err. DecodeString (b64 @ '' '') = Inl err" by (simp add: DecodeString_def b64 bad del: filter_append)
  then show ?thesis by (auto simp: meshd_parseIdentityKey_def meshproxy_parseIdentityKey_def decode_identity_def)
qed

theorem padded_key_refused_witness:
  "\<exists>err. meshproxy_parseIdentityKey demo_keys ''AQ== '' = Inl err"
proof -
  have "EncodeToString [1] = ''AQ==''" by code_simp
  then have "genkeys demo_key_tool = Inr (''peerA'', ''AQ=='')" by (simp add: genkeys_def demo_key_tool_def)
  from padded_key_refused [OF this, of demo_keys] show ?thesis by auto
qed

section \<open>Starting the daemon and the proxy\<close>

text \<open>
  \<^verbatim>\<open>main\<close> after the configuration is loaded, up to the servers: the first fatal error, or the running
  service, with the state of the process.
\<close>

definition meshd_main :: "key_env \<Rightarrow> start_env \<Rightarrow> mesh_cfg \<Rightarrow> process \<Rightarrow> process \<times> (string + Service)" where
  "meshd_main ke se cfg w =
     (case meshd_parseIdentityKey ke (mc_GossipKey (cf_Mesh cfg)) of
        Inl err \<Rightarrow> (w, Inl (''invalid identity key: '' @ err))
      | Inr privKey \<Rightarrow>
          NewService se \<lparr>sc_Bootstrap = mc_Bootstrap (cf_Mesh cfg), sc_DataDir = mc_DataDir (cf_Mesh cfg),
            sc_IdentityKey = Some privKey, sc_SyncInterval = 0, sc_PruneInterval = 0\<rparr> True w)"

definition proxy_svc :: "mesh_cfg \<Rightarrow> bytes \<Rightarrow> svc_Config" where
  "proxy_svc cfg privKey =
     \<lparr>sc_Bootstrap = mc_Bootstrap (cf_Mesh cfg), sc_DataDir = mc_DataDir (cf_Mesh cfg),
      sc_IdentityKey = Some privKey, sc_SyncInterval = mc_AntiEntropyEvery (cf_Mesh cfg), sc_PruneInterval = 0\<rparr>"

record ('s, 'l) proxy_process =
  pp_service :: Service
  pp_handler :: "('s, 'l) Proxy"
  pp_listen :: string
  pp_advertiser :: edgeAdvertiser

definition proxy_main ::
    "key_env \<Rightarrow> start_env \<Rightarrow> 's lru_ops \<Rightarrow> mesh_cfg \<Rightarrow> process \<Rightarrow> process \<times> (string + ('s, 'l) proxy_process)" where
  "proxy_main ke se lru cfg w =
     (case meshproxy_parseIdentityKey ke (mc_GossipKey (cf_Mesh cfg)) of
        Inl err \<Rightarrow> (w, Inl (''invalid identity key: '' @ err))
      | Inr privKey \<Rightarrow>
          let store = NewStore (10 * second)
          in case NewService se (proxy_svc cfg privKey) True w of
               (w, Inl err) \<Rightarrow> (w, Inl (''failed to start gossip service: '' @ err))
             | (w, Inr gossipSvc) \<Rightarrow>
                 (case buildProxyConfig cfg store of
                    Inl err \<Rightarrow> (w, Inl (''invalid proxy configuration: '' @ err))
                  | Inr proxyCfg \<Rightarrow>
                      (case NewProxy lru proxyCfg of
                         Inl err \<Rightarrow> (w, Inl (''failed to construct proxy: '' @ err))
                       | Inr handler \<Rightarrow>
                           let listenHTTP = (if eg_ListenHTTP (cf_Edge cfg) = [] then '':8080'' else eg_ListenHTTP (cf_Edge cfg))
                           in (w, Inr \<lparr>pp_service = gossipSvc, pp_handler = handler, pp_listen = listenHTTP,
                                       pp_advertiser = newEdgeAdvertiser (cf_Edge cfg)\<rparr>))))"

lemma NewProxy_runs:
  assumes "pc_Store cfg = Some store" and "\<And>n. 0 < n \<Longrightarrow> \<exists>s. lru_New lru n = Inr s"
  shows "\<exists>p :: ('s, 'l) Proxy. NewProxy lru cfg = Inr p \<and> px_store p = store \<and> px_allowedChains p = pc_Chains cfg
    \<and> px_selectorCfg p = pc_Selector cfg \<and> (px_rateLimiter p \<noteq> None \<longleftrightarrow> PerIPRPS (RateLimit cfg) > 0)
    \<and> (px_cache p \<noteq> None \<longleftrightarrow> CacheEnabled cfg)"
proof -
  let ?cap = "if CacheMaxBytes cfg > 0 \<and> CacheMaxItemBytes cfg > 0
    then (let est = CacheMaxBytes cfg div CacheMaxItemBytes cfg in if est > 0 then est else 1024) else 1024"
  have cap: "0 < ?cap" by (simp add: Let_def)
  then obtain s where "lru_New lru ?cap = Inr s" using assms(2) by blast
  with cap have "NewResponseCache lru ?cap (CacheMaxBytes cfg) = Inr \<lparr>rc_store = s, rc_maxBytes = CacheMaxBytes cfg, rc_currentBytes = 0\<rparr>"
    by (simp add: NewResponseCache_def)
  with assms(1) show ?thesis by (simp add: NewProxy_def Let_def)
qed

lemma proxy_main_runs:
  assumes "meshproxy_parseIdentityKey ke (mc_GossipKey (cf_Mesh cfg)) = Inr key"
    and "starts se (proxy_svc cfg key)" and "parseCacheTTL (ch_TTLHeighted (cf_Cache cfg)) = Inr (t, forever)"
    and "\<And>n. 0 < n \<Longrightarrow> \<exists>s. lru_New lru n = Inr s"
  shows "\<exists>w (pp :: ('s, 'l) proxy_process). proxy_main ke se lru cfg idle = (w, Inr pp)
    \<and> w_host w \<and> sv_topics (pp_service pp) = all_topics
    \<and> px_allowedChains (pp_handler pp) = eg_Chains (cf_Edge cfg) \<and> px_store (pp_handler pp) = NewStore (10 * second)
    \<and> px_selectorCfg (pp_handler pp) = buildSelectorConfig cfg
    \<and> (px_rateLimiter (pp_handler pp) \<noteq> None \<longleftrightarrow> rt_PerIPRPS (cf_Rate cfg) > 0)
    \<and> pp_listen pp \<noteq> [] \<and> ad_cfg (pp_advertiser pp) = cf_Edge cfg"
proof -
  obtain svc w where svc: "NewService se (proxy_svc cfg key) True idle = (w, Inr svc)" "sv_topics svc = all_topics" "w_host w"
    using NewService_ok [OF assms(2), of True idle] by (auto simp: connectBootstraps_keeps startMaintenance_def startAntiEntropy_def Let_def)
  have chains: "foldl (\<lambda>cs c. cs @ [c]) acc xs = acc @ xs" for acc xs :: "string list" by (induction xs arbitrary: acc) simp_all
  obtain pc where pc: "buildProxyConfig cfg (NewStore (10 * second)) = Inr pc" "pc_Store pc = Some (NewStore (10 * second))"
    "pc_Chains pc = eg_Chains (cf_Edge cfg)" "pc_Selector pc = buildSelectorConfig cfg" "PerIPRPS (RateLimit pc) = rt_PerIPRPS (cf_Rate cfg)"
    using assms(3) by (simp add: buildProxyConfig_def Let_def chains)
  obtain p :: "('s, 'l) Proxy" where p: "NewProxy lru pc = Inr p" "px_store p = NewStore (10 * second)"
    "px_allowedChains p = eg_Chains (cf_Edge cfg)" "px_selectorCfg p = buildSelectorConfig cfg"
    "px_rateLimiter p \<noteq> None \<longleftrightarrow> rt_PerIPRPS (cf_Rate cfg) > 0"
    using NewProxy_runs [OF pc(2) assms(4)] pc(3-5) by auto
  then show ?thesis
    using svc(2,3) by (simp add: proxy_main_def assms(1) svc(1) pc(1) p(1) newEdgeAdvertiser_def Let_def)
qed


definition demo_up :: start_env where
  "demo_up = demo_start\<lparr>se_badger := (\<lambda>_. None)\<rparr>"

lemma demo_loaded:
  obtains cfg where "Load (Inr demo_file) = Inr cfg" and "mc_GossipKey (cf_Mesh cfg) = ''AQ==''"
    and "ch_TTLHeighted (cf_Cache cfg) = ''infinite''" and "eg_Chains (cf_Edge cfg) = [''c1'']" and "\<not> dn_GeoEnabled (cf_DNS cfg)"
proof -
  obtain cfg where cfg: "Load (Inr demo_file) = Inr cfg" using demo_loads by blast
  then have "mc_GossipKey (cf_Mesh cfg) = ''AQ==''" "ch_TTLHeighted (cf_Cache cfg) = ''infinite''" "eg_Chains (cf_Edge cfg) = [''c1'']"
    "\<not> dn_GeoEnabled (cf_DNS cfg)"
    by (auto simp: Load_def check_rrl_def default_dns_def default_mesh_def demo_file_def or_default_def Let_def split: if_splits)
  with cfg show thesis by (rule that)
qed

lemma demo_proxy_starts:
  assumes "mc_GossipKey (cf_Mesh cfg) = ''AQ==''" and "ch_TTLHeighted (cf_Cache cfg) = ''infinite''"
  shows "meshproxy_parseIdentityKey demo_keys (mc_GossipKey (cf_Mesh cfg)) = Inr [1]"
    and "starts demo_up (proxy_svc cfg [1])" and "parseCacheTTL (ch_TTLHeighted (cf_Cache cfg)) = Inr (0, True)"
    and "0 < n \<Longrightarrow> \<exists>s. lru_New list_lru n = Inr s"
proof -
  show "parseCacheTTL (ch_TTLHeighted (cf_Cache cfg)) = Inr (0, True)" unfolding assms by code_simp
qed (simp_all add: assms meshproxy_parseIdentityKey_def decode_identity_def demo_trim demo_keys_def starts_def demo_up_def
    demo_start_def proxy_svc_def list_lru_def)


section \<open>The pusher\<close>

text \<open>A channel is open or closed; \<open>None\<close> as the result of an operation is the panic of closing a closed channel.\<close>

datatype channel = Open | Closed

record Pusher =
  pu_cancel :: "channel option"

definition NewPusher :: Pusher where
  "NewPusher = \<lparr>pu_cancel = None\<rparr>"

definition pusher_Start :: "Pusher \<Rightarrow> Pusher" where
  "pusher_Start p = p\<lparr>pu_cancel := Some Open\<rparr>"

definition pusher_Stop :: "Pusher \<Rightarrow> Pusher option" where
  "pusher_Stop p =
     (case pu_cancel p of
        None \<Rightarrow> Some p
      | Some Open \<Rightarrow> Some (p\<lparr>pu_cancel := Some Closed\<rparr>)
      | Some Closed \<Rightarrow> None)"

definition Push :: "Pusher \<Rightarrow> string option" where
  "Push p = Some ''push not implemented''"

text \<open>
  Stopping is not idempotent: a pusher that was started can be stopped once; a second stop closes
  the closed channel and panics, unless it was started again in between.
\<close>

theorem pusher_second_stop_panics:
  "\<exists>p'. pusher_Stop (pusher_Start p) = Some p' \<and> pusher_Stop p' = None \<and> pusher_Stop (pusher_Start p') \<noteq> None
    \<and> pusher_Stop NewPusher = Some NewPusher"
  by (simp add: pusher_Stop_def pusher_Start_def NewPusher_def)

end
