(* ===== verification/Geo_Provider.thy ===== *)
theory Geo_Provider
  imports Geo_Score
begin

text \<open>
  The MaxMind provider (\<^verbatim>\<open>pkg/geo/maxmind.go\<close>). An opened database is a handle; the handles open in the
  process are part of the state, so that a handle that is forgotten or used after it was closed shows.
  What the database files hold at the time of a call is an argument.
\<close>

section \<open>Databases\<close>

record city_record =
  cr_Latitude :: real
  cr_Longitude :: real
  cr_IsoCode :: string
  cr_Names :: "(string, string) gomap"
  cr_Subdivisions :: "string list"

text \<open>
  The geoip2 package: opening a path (an error, or no error), the city and the system number of an
  address in a database, and the error of closing.
\<close>

record geoip =
  gi_Open :: "string \<Rightarrow> string option"
  gi_City :: "nat \<Rightarrow> IP \<Rightarrow> string + city_record"
  gi_ASN :: "nat \<Rightarrow> IP \<Rightarrow> string + u64"
  gi_Close :: "nat \<Rightarrow> string option"

record handles =
  h_next :: nat
  h_open :: "nat set"

definition geoip_Open :: "geoip \<Rightarrow> string \<Rightarrow> handles \<Rightarrow> handles \<times> (string + nat)" where
  "geoip_Open gi path w =
     (case gi_Open gi path of
        Some err \<Rightarrow> (w, Inl err)
      | None \<Rightarrow> (\<lparr>h_next = Suc (h_next w), h_open = insert (h_next w) (h_open w)\<rparr>, Inr (h_next w)))"

definition geoip_Close :: "geoip \<Rightarrow> nat \<Rightarrow> handles \<Rightarrow> handles \<times> string option" where
  "geoip_Close gi db w = (w\<lparr>h_open := h_open w - {db}\<rparr>, gi_Close gi db)"

section \<open>The provider\<close>

record MaxMindProvider =
  mm_cityDB :: "nat option"
  mm_asnDB :: "nat option"
  mm_fallback :: StubProvider

record MaxMindConfig =
  CityDBPath :: string
  ASNDBPath :: string

text \<open>Both databases of a configuration, with the city database closed again when the other fails.\<close>

definition open_both ::
    "geoip \<Rightarrow> string \<Rightarrow> MaxMindConfig \<Rightarrow> handles \<Rightarrow> handles \<times> (string + nat \<times> nat option)" where
  "open_both gi verb cfg w =
     (if CityDBPath cfg = [] then (w, Inl ''geo: city database path required'')
      else case geoip_Open gi (CityDBPath cfg) w of
        (w, Inl err) \<Rightarrow> (w, Inl (''geo: '' @ verb @ '' city database: '' @ err))
      | (w, Inr cityDB) \<Rightarrow>
          if ASNDBPath cfg \<noteq> []
          then (case geoip_Open gi (ASNDBPath cfg) w of
                  (w, Inl err) \<Rightarrow>
                    (fst (geoip_Close gi cityDB w), Inl (''geo: '' @ verb @ '' asn database: '' @ err))
                | (w, Inr asnDB) \<Rightarrow> (w, Inr (cityDB, Some asnDB)))
          else (w, Inr (cityDB, None)))"

definition NewMaxMindProvider :: "geoip \<Rightarrow> MaxMindConfig \<Rightarrow> handles \<Rightarrow> handles \<times> (string + MaxMindProvider)" where
  "NewMaxMindProvider gi cfg w =
     (case open_both gi ''open'' cfg w of
        (w, Inl err) \<Rightarrow> (w, Inl err)
      | (w, Inr (cityDB, asnDB)) \<Rightarrow>
          (w, Inr \<lparr>mm_cityDB = Some cityDB, mm_asnDB = asnDB, mm_fallback = NewStubProvider\<rparr>))"

text \<open>
  An address that is \<^verbatim>\<open>nil\<close> is the empty list; the lookup of an empty address that is not \<^verbatim>\<open>nil\<close> has the
  same result, since the stub places it nowhere.
\<close>

definition normal_location :: "Location \<Rightarrow> Location" where
  "normal_location loc =
     (let loc = (if Country loc = [] then loc\<lparr>Country := ''ZZ''\<rparr> else loc);
          loc = (if Region loc = [] then loc\<lparr>Region := ''unknown''\<rparr> else loc);
          loc = (if City loc = [] then loc\<lparr>City := ''unknown''\<rparr> else loc)
      in loc)"

definition maxmind_Lookup :: "geoip \<Rightarrow> MaxMindProvider \<Rightarrow> geo_lookup" where
  "maxmind_Lookup gi p ip =
     (if ip = [] then Inr (Some (location 0 0 ''ZZ'' ''unknown'' ''unknown''))
      else case mm_cityDB p of
        None \<Rightarrow> stub_Lookup (mm_fallback p) ip
      | Some cityDB \<Rightarrow>
          (case gi_City gi cityDB ip of
             Inl _ \<Rightarrow> stub_Lookup (mm_fallback p) ip
           | Inr record \<Rightarrow>
               let loc = \<lparr>Latitude = cr_Latitude record, Longitude = cr_Longitude record, Country = cr_IsoCode record,
                          Region = [], City = go_get [] (cr_Names record) ''en'', ASN = 0\<rparr>;
                   loc = (case cr_Subdivisions record of [] \<Rightarrow> loc | s # _ \<Rightarrow> loc\<lparr>Region := s\<rparr>);
                   loc = (case mm_asnDB p of
                            None \<Rightarrow> loc
                          | Some asnDB \<Rightarrow>
                              (case gi_ASN gi asnDB ip of Inl _ \<Rightarrow> loc | Inr n \<Rightarrow> loc\<lparr>ASN := ucast n\<rparr>))
               in Inr (Some (normal_location loc))))"

definition close_db :: "geoip \<Rightarrow> nat option \<Rightarrow> handles \<Rightarrow> handles \<times> string option" where
  "close_db gi db w = (case db of None \<Rightarrow> (w, None) | Some d \<Rightarrow> geoip_Close gi d w)"

definition maxmind_Close :: "geoip \<Rightarrow> MaxMindProvider \<Rightarrow> handles \<Rightarrow> handles \<times> MaxMindProvider \<times> string list" where
  "maxmind_Close gi p w =
     (let (w, e1) = close_db gi (mm_cityDB p) w;
          (w, e2) = close_db gi (mm_asnDB p) w;
          errs = (case e1 of None \<Rightarrow> [] | Some e \<Rightarrow> [''close city db: '' @ e])
               @ (case e2 of None \<Rightarrow> [] | Some e \<Rightarrow> [''close asn db: '' @ e])
      in (w, p\<lparr>mm_cityDB := None, mm_asnDB := None\<rparr>, errs))"

definition Reload :: "geoip \<Rightarrow> MaxMindConfig \<Rightarrow> MaxMindProvider \<Rightarrow> handles \<Rightarrow> handles \<times> MaxMindProvider \<times> string option" where
  "Reload gi cfg p w =
     (case open_both gi ''reload'' cfg w of
        (w, Inl err) \<Rightarrow> (w, p, Some err)
      | (w, Inr (newCityDB, newASNDB)) \<Rightarrow>
          let w = fst (close_db gi (mm_cityDB p) w);
              w = fst (close_db gi (mm_asnDB p) w)
          in (w, p\<lparr>mm_cityDB := Some newCityDB, mm_asnDB := newASNDB\<rparr>, None))"

text \<open>The life of a provider: reloads and closings, each with the files as they are at the time.\<close>

datatype mm_event = DoReload geoip MaxMindConfig | DoClose geoip

fun mm_step :: "handles \<times> MaxMindProvider \<Rightarrow> mm_event \<Rightarrow> handles \<times> MaxMindProvider" where
  "mm_step (w, p) (DoReload gi cfg) = (case Reload gi cfg p w of (w, p, _) \<Rightarrow> (w, p))"
| "mm_step (w, p) (DoClose gi) = (case maxmind_Close gi p w of (w, p, _) \<Rightarrow> (w, p))"

section \<open>Invariant\<close>

definition held :: "MaxMindProvider \<Rightarrow> nat set" where
  "held p = set_option (mm_cityDB p) \<union> set_option (mm_asnDB p)"

definition handles_ok :: "handles \<Rightarrow> bool" where
  "handles_ok w \<longleftrightarrow> (\<forall>d \<in> h_open w. d < h_next w)"

text \<open>Beside handles that others hold, exactly those of the provider are open, and it holds none twice.\<close>

definition mm_inv :: "nat set \<Rightarrow> handles \<times> MaxMindProvider \<Rightarrow> bool" where
  "mm_inv others = (\<lambda>(w, p).
     handles_ok w \<and> h_open w = others \<union> held p \<and> others \<inter> held p = {}
     \<and> (mm_cityDB p = None \<longrightarrow> mm_asnDB p = None)
     \<and> (\<forall>d. mm_cityDB p = Some d \<longrightarrow> mm_asnDB p \<noteq> Some d) \<and> mm_fallback p = NewStubProvider)"

lemma open_both_spec:
  assumes "open_both gi verb cfg w = (w', r)" and "handles_ok w"
  shows "handles_ok w'" and "case r of
      Inl _ \<Rightarrow> h_open w' = h_open w
    | Inr (c, a) \<Rightarrow> h_open w' = h_open w \<union> {c} \<union> set_option a \<and> ({c} \<union> set_option a) \<inter> h_open w = {} \<and> a \<noteq> Some c"
proof -
  have fresh: "h_next w \<notin> h_open w" "Suc (h_next w) \<notin> h_open w" using assms(2) by (auto simp: handles_ok_def)
  note run = assms(1) [unfolded open_both_def geoip_Open_def geoip_Close_def]
  show "handles_ok w'"
    using run assms(2) by (auto simp: handles_ok_def less_Suc_eq split: if_splits option.splits)
  show "case r of
      Inl _ \<Rightarrow> h_open w' = h_open w
    | Inr (c, a) \<Rightarrow> h_open w' = h_open w \<union> {c} \<union> set_option a \<and> ({c} \<union> set_option a) \<inter> h_open w = {} \<and> a \<noteq> Some c"
    using run fresh by (auto split: if_splits option.splits)
qed

lemma close_db_open:
  "h_open (fst (close_db gi db w)) = h_open w - set_option db" "handles_ok w \<Longrightarrow> handles_ok (fst (close_db gi db w))"
  by (auto simp: close_db_def geoip_Close_def handles_ok_def split: option.splits)

lemma Reload_inv:
  assumes "mm_inv others (w, p)" and "Reload gi cfg p w = (w', p', e)"
  shows "mm_inv others (w', p')" and "e \<noteq> None \<Longrightarrow> p' = p \<and> h_open w' = h_open w"
proof -
  obtain w1 r where run: "open_both gi ''reload'' cfg w = (w1, r)" by (cases "open_both gi ''reload'' cfg w")
  from assms(1) have ok: "handles_ok w" by (simp add: mm_inv_def)
  note spec = open_both_spec [OF run ok]
  have "mm_inv others (w', p') \<and> (e \<noteq> None \<longrightarrow> p' = p \<and> h_open w' = h_open w)"
  proof (cases r)
    case (Inl err)
    with assms run spec show ?thesis by (simp add: Reload_def mm_inv_def)
  next
    case (Inr new)
    obtain c a where new: "new = (c, a)" by (cases new)
    from assms(2) have w': "w' = fst (close_db gi (mm_asnDB p) (fst (close_db gi (mm_cityDB p) w1)))"
      and p': "p' = p\<lparr>mm_cityDB := Some c, mm_asnDB := a\<rparr>" "e = None"
      by (simp_all add: Reload_def run Inr new Let_def)
    from spec(2) have c: "h_open w1 = h_open w \<union> {c} \<union> set_option a" "({c} \<union> set_option a) \<inter> h_open w = {}" "a \<noteq> Some c"
      by (simp_all add: Inr new)
    from assms(1) have p: "h_open w = others \<union> held p" "others \<inter> held p = {}" "mm_fallback p = NewStubProvider"
      by (simp_all add: mm_inv_def)
    have held': "held p' = {c} \<union> set_option a" by (simp add: held_def p')
    have "h_open w' = h_open w1 - held p" by (auto simp: w' close_db_open held_def)
    then have "h_open w' = others \<union> held p'" using p c(1,2) held' by blast
    moreover have "others \<inter> held p' = {}" using p(1) c(2) held' by blast
    ultimately show ?thesis
      using spec(1) p(3) c(3) by (simp add: mm_inv_def p' w' close_db_open)
  qed
  then show "mm_inv others (w', p')" and "e \<noteq> None \<Longrightarrow> p' = p \<and> h_open w' = h_open w" by simp_all
qed

lemma Close_inv:
  assumes "mm_inv others (w, p)" and "maxmind_Close gi p w = (w', p', errs)"
  shows "mm_inv others (w', p')" and "h_open w' = others" and "held p' = {}"
proof -
  have w': "w' = fst (close_db gi (mm_asnDB p) (fst (close_db gi (mm_cityDB p) w)))"
    and p': "p' = p\<lparr>mm_cityDB := None, mm_asnDB := None\<rparr>"
    using assms(2) by (simp_all add: maxmind_Close_def Let_def split: prod.splits)
  show open': "h_open w' = others" using assms(1) by (auto simp: w' close_db_open mm_inv_def held_def)
  show held': "held p' = {}" by (simp add: p' held_def)
  show "mm_inv others (w', p')"
    using assms(1) open' held' by (simp add: mm_inv_def p' w' close_db_open)
qed

lemma mm_step_inv:
  assumes "mm_inv others s"
  shows "mm_inv others (mm_step s e)"
proof -
  obtain w p where s: "s = (w, p)" by (cases s)
  show ?thesis
  proof (cases e)
    case (DoReload gi cfg)
    obtain w' p' err where "Reload gi cfg p w = (w', p', err)" by (cases "Reload gi cfg p w")
    with Reload_inv(1) [OF assms [unfolded s] this] show ?thesis by (simp add: s DoReload)
  next
    case (DoClose gi)
    obtain w' p' errs where "maxmind_Close gi p w = (w', p', errs)" by (cases "maxmind_Close gi p w")
    with Close_inv(1) [OF assms [unfolded s] this] show ?thesis by (simp add: s DoClose)
  qed
qed

interpretation mm_runs: invariant_system mm_step any "mm_inv others" for others
  by unfold_locales (rule mm_step_inv)

lemma mm_run_inv: "mm_inv others s \<Longrightarrow> mm_inv others (foldl mm_step s es)"
  by (rule mm_runs.run_inv) simp_all

lemma New_inv:
  assumes "NewMaxMindProvider gi cfg w = (w', r)" and "handles_ok w"
  shows "case r of Inl _ \<Rightarrow> h_open w' = h_open w | Inr p \<Rightarrow> mm_inv (h_open w) (w', p) \<and> mm_cityDB p \<noteq> None"
proof -
  obtain w1 r1 where run: "open_both gi ''open'' cfg w = (w1, r1)" by (cases "open_both gi ''open'' cfg w")
  show ?thesis
    using open_both_spec [OF run assms(2)] assms(1)
    by (auto simp: NewMaxMindProvider_def run mm_inv_def held_def split: sum.splits)
qed

lemma stub_places:
  "\<exists>loc. stub_Lookup NewStubProvider ip = Inr (Some loc) \<and> Country loc \<noteq> [] \<and> Region loc \<noteq> [] \<and> City loc \<noteq> []"
  by (simp add: stub_Lookup_def NewStubProvider_def location_def)

section \<open>Properties\<close>

text \<open>
  No database is leaked or used after it was closed. A provider that cannot be built leaves the open
  databases as they were. After any sequence of reloads, failing ones included, and closings, the
  databases open beside those of others are exactly the ones the provider holds, so every lookup reads
  open databases; a reload that fails changes nothing, and after closing none is left.
\<close>

theorem maxmind_handles:
  assumes "handles_ok w" and "NewMaxMindProvider gi cfg w = (w0, r)"
  shows "case r of
      Inl _ \<Rightarrow> h_open w0 = h_open w
    | Inr p0 \<Rightarrow>
        (case foldl mm_step (w0, p0) es of (w1, p1) \<Rightarrow>
           h_open w1 = h_open w \<union> held p1 \<and> h_open w \<inter> held p1 = {}
           \<and> (\<forall>gi' cfg'. case Reload gi' cfg' p1 w1 of (w2, p2, e) \<Rightarrow> e \<noteq> None \<longrightarrow> p2 = p1 \<and> h_open w2 = h_open w1)
           \<and> (\<forall>gi'. h_open (fst (maxmind_Close gi' p1 w1)) = h_open w))"
proof (cases r)
  case (Inr p0)
  obtain w1 p1 where run: "foldl mm_step (w0, p0) es = (w1, p1)" by (cases "foldl mm_step (w0, p0) es")
  have inv: "mm_inv (h_open w) (w1, p1)"
    using New_inv [OF assms(2,1)] mm_run_inv [of "h_open w" "(w0, p0)" es] by (simp add: Inr run)
  then show ?thesis
    using Reload_inv(2) [OF inv] Close_inv(2) [OF inv]
    by (auto simp: Inr run mm_inv_def split: prod.splits) (metis prod.collapse)+
qed (use New_inv [OF assms(2,1)] in simp)

definition demo_geoip :: geoip where
  "demo_geoip = \<lparr>gi_Open = (\<lambda>path. if path = ''bad'' then Some ''no such file'' else None),
     gi_City = (\<lambda>_ _. Inr \<lparr>cr_Latitude = 1, cr_Longitude = 2, cr_IsoCode = ''DE'', cr_Names = [], cr_Subdivisions = []\<rparr>),
     gi_ASN = (\<lambda>_ _. Inr 64512), gi_Close = (\<lambda>_. None)\<rparr>"

definition demo_provider :: MaxMindProvider where
  "demo_provider = \<lparr>mm_cityDB = Some 0, mm_asnDB = Some 1, mm_fallback = NewStubProvider\<rparr>"

lemma demo_provider_New:
  "NewMaxMindProvider demo_geoip \<lparr>CityDBPath = ''city'', ASNDBPath = ''asn''\<rparr> \<lparr>h_next = 0, h_open = {}\<rparr> =
     (\<lparr>h_next = 2, h_open = {0, 1}\<rparr>, Inr demo_provider)"
  by (auto simp: NewMaxMindProvider_def open_both_def geoip_Open_def demo_geoip_def demo_provider_def)

theorem maxmind_handles_witness:
  "case foldl mm_step (\<lparr>h_next = 2, h_open = {0, 1}\<rparr>, demo_provider)
     [DoReload demo_geoip \<lparr>CityDBPath = ''bad'', ASNDBPath = []\<rparr>, DoReload demo_geoip \<lparr>CityDBPath = ''new'', ASNDBPath = []\<rparr>]
   of (w1, p1) \<Rightarrow> h_open w1 = held p1 \<and> h_open (fst (maxmind_Close demo_geoip p1 w1)) = {}"
  using maxmind_handles [OF _ demo_provider_New, of "[DoReload demo_geoip \<lparr>CityDBPath = ''bad'', ASNDBPath = []\<rparr>,
      DoReload demo_geoip \<lparr>CityDBPath = ''new'', ASNDBPath = []\<rparr>]"]
  by (auto simp: handles_ok_def simp del: foldl_Cons split: prod.splits)

text \<open>
  A lookup always places the client somewhere. Whatever state of its life a provider is in and
  whatever the databases answer, errors included, the lookup of an address succeeds, with a country, a
  region and a city that are not empty; after closing, it is the lookup of the stub.
\<close>

theorem maxmind_places:
  assumes "NewMaxMindProvider gi cfg w = (w0, Inr p0)" and "handles_ok w" and "foldl mm_step (w0, p0) es = (w1, p1)"
  shows "\<exists>loc. maxmind_Lookup gi' p1 ip = Inr (Some loc) \<and> Country loc \<noteq> [] \<and> Region loc \<noteq> [] \<and> City loc \<noteq> []
    \<and> (held p1 = {} \<longrightarrow> stub_Lookup NewStubProvider ip = Inr (Some loc))"
proof -
  have "mm_inv (h_open w) (w1, p1)"
    using New_inv [OF assms(1,2)] mm_run_inv [of "h_open w" "(w0, p0)" es] by (simp add: assms(3))
  then have fb: "mm_fallback p1 = NewStubProvider" by (simp add: mm_inv_def)
  have stub: "\<exists>loc. stub_Lookup NewStubProvider ip = Inr (Some loc) \<and> Country loc \<noteq> [] \<and> Region loc \<noteq> [] \<and> City loc \<noteq> []" for ip
    by (rule stub_places)
  have nil: "stub_Lookup NewStubProvider [] = Inr (Some (location 0 0 ''ZZ'' ''unknown'' ''unknown''))"
    by (simp add: stub_Lookup_def NewStubProvider_def IP_String_def)
  have norm: "Country (normal_location l) \<noteq> [] \<and> Region (normal_location l) \<noteq> [] \<and> City (normal_location l) \<noteq> []" for l
    by (simp add: normal_location_def Let_def)
  show ?thesis
    using stub [of ip] norm nil
    by (cases "ip = []"; cases "mm_cityDB p1")
      (auto simp: maxmind_Lookup_def fb held_def Let_def location_def split: sum.split)
qed

theorem maxmind_places_witness:
  "\<exists>loc. maxmind_Lookup demo_geoip demo_provider (IPv4 8 8 8 8) = Inr (Some loc) \<and> Region loc \<noteq> []"
  using maxmind_places [OF demo_provider_New, of "[]" _ _ demo_geoip "IPv4 8 8 8 8"] by (auto simp: handles_ok_def)

end
