(* ===== verification/Mesh_Daemons.thy ===== *)
theory Mesh_Daemons
  imports Agent_Lifecycle Mesh_Tools Geo_Provider
begin

text \<open>
  The programs from a loaded configuration to their exit status (\<^verbatim>\<open>main\<close> of \<^verbatim>\<open>cmd/meshdns\<close>, \<^verbatim>\<open>cmd/meshproxy\<close>,
  \<^verbatim>\<open>cmd/meshagent\<close> and \<^verbatim>\<open>cmd/meshd\<close>): start, the event that ends them, and the order in which everything is closed,
  deferred calls included. A fatal error exits with status 1 and skips the deferred calls. Sockets are
  represented by whether a server listens; how long a server takes to close is an argument.
\<close>

section \<open>Data\<close>

text \<open>What ends the \<^verbatim>\<open>select\<close> of a program: a signal, or the error of a server.\<close>

datatype stop_cause = Signal | ServeError string

text \<open>The state of the process beside the programs' own data: network, geo databases and servers.\<close>

record world =
  wo_net :: process
  wo_geo :: handles
  wo_listen :: "string list"
  wo_advertising :: bool

text \<open>What a program has done when it is over: the messages it logged and its exit status.\<close>

type_synonym exit = "string list \<times> int"

definition fatal :: "string \<Rightarrow> exit" where
  "fatal msg = ([msg], 1)"

definition log_error :: "string \<Rightarrow> string option \<Rightarrow> string list" where
  "log_error msg err = (case err of None \<Rightarrow> [] | Some e \<Rightarrow> [msg @ '': '' @ e])"

section \<open>The name server\<close>

definition dns_svc :: "mesh_cfg \<Rightarrow> bytes \<Rightarrow> svc_Config" where
  "dns_svc cfg identityKey =
     \<lparr>sc_Bootstrap = mc_Bootstrap (cf_Mesh cfg), sc_DataDir = mc_DataDir (cf_Mesh cfg), sc_IdentityKey = Some identityKey,
      sc_SyncInterval = mc_AntiEntropyEvery (cf_Mesh cfg),
      sc_PruneInterval = wrap_i64 (mc_AntiEntropyEvery (cf_Mesh cfg) * 3)\<rparr>"

definition dns_geo_cfg :: "mesh_cfg \<Rightarrow> MaxMindConfig" where
  "dns_geo_cfg cfg = \<lparr>CityDBPath = dn_GeoCityDB (cf_DNS cfg), ASNDBPath = dn_GeoASNDB (cf_DNS cfg)\<rparr>"

text \<open>The provider of the name server: of the databases, with what has to be closed, or the stub.\<close>

definition dns_open_geo ::
    "geoip \<Rightarrow> mesh_cfg \<Rightarrow> handles \<Rightarrow> handles \<times> (string + MaxMindProvider option \<times> geo_lookup option)" where
  "dns_open_geo gi cfg hs =
     (if dn_GeoEnabled (cf_DNS cfg) \<and> dn_GeoCityDB (cf_DNS cfg) \<noteq> []
      then (case NewMaxMindProvider gi (dns_geo_cfg cfg) hs of
              (hs, Inl err) \<Rightarrow> (hs, Inl err)
            | (hs, Inr p) \<Rightarrow> (hs, Inr (Some p, Some (maxmind_Lookup gi p))))
      else if dn_GeoEnabled (cf_DNS cfg) then (hs, Inr (None, Some (stub_Lookup NewStubProvider)))
      else (hs, Inr (None, None)))"

record 'l dns_process =
  dp_service :: Service
  dp_provider :: "MaxMindProvider option"
  dp_handler :: "(RegistryZoneView, 'l) Handler"

definition dns_launch ::
    "key_env \<Rightarrow> start_env \<Rightarrow> geoip \<Rightarrow> dns_env \<Rightarrow> mesh_cfg \<Rightarrow> world \<Rightarrow> world \<times> (string + 'l dns_process)" where
  "dns_launch ke se gi de cfg w =
     (let d = cf_DNS cfg;
          zone = TrimSpace (dn_Zone d);
          identityKeyB64 = firstNonEmpty [mc_GossipKey (cf_Mesh cfg)]
      in if zone = [] then (w, Inl ''dns zone must be configured'')
         else if identityKeyB64 = [] then (w, Inl ''gossip identity key required'')
         else case parseIdentityKey ke identityKeyB64 of
           Inl err \<Rightarrow> (w, Inl err)
         | Inr identityKey \<Rightarrow>
             (case NewService se (dns_svc cfg identityKey) True (wo_net w) of
                (net, Inl err) \<Rightarrow> (w\<lparr>wo_net := net\<rparr>, Inl err)
              | (net, Inr gossipSvc) \<Rightarrow>
                  (case dns_open_geo gi cfg (wo_geo w) of
                     (hs, Inl err) \<Rightarrow> (w\<lparr>wo_net := net, wo_geo := hs\<rparr>, Inl err)
                   | (hs, Inr (provider, geoProvider)) \<Rightarrow>
                       let w = w\<lparr>wo_net := net, wo_geo := hs\<rparr>;
                           geoWeight = (if dn_GeoWeight d \<le> 0 then 0.5 else dn_GeoWeight d)
                       in case NewRegistryZoneView de
                                 \<lparr>zc_Store = Some (NewStore (30 * second)), zc_Zone = zone, zc_NSLabels = dn_NSLabels d,
                                  zc_TTLNSA = word_of_int (dn_TTLNSA d), zc_TTLService = word_of_int (dn_TTLService d),
                                  zc_GeoProvider = geoProvider, zc_GeoWeight = geoWeight\<rparr> of
                            Inl err \<Rightarrow> (w, Inl err)
                          | Inr zoneView \<Rightarrow>
                              (case NewHandler \<lparr>dc_Zone = zone, dc_Chains = dns_chains (dn_Chains d), dc_NSLabels = dn_NSLabels d,
                                      dc_TTLService = word_of_int (dn_TTLService d), dc_TTLNSA = word_of_int (dn_TTLNSA d),
                                      dc_MaxAnswers = dn_MaxAnswers d, dc_EnableECS = dn_EnableECS d,
                                      dc_RRLRate = dn_RRLQPS d, dc_RRLBurst = dn_RRLBurst d,
                                      dc_RRLWindow = dn_RRLWindow d\<rparr> (Some zoneView) of
                                 Inl err \<Rightarrow> (w, Inl err)
                               | Inr handler \<Rightarrow>
                                   (w\<lparr>wo_listen := wo_listen w @ [''udp'', ''tcp'']\<rparr>,
                                    Inr \<lparr>dp_service = gossipSvc, dp_provider = provider, dp_handler = handler\<rparr>)))))"

text \<open>The goroutine that reloads the databases, one tick for each state of the files; there is none when
  no interval is configured.\<close>

definition dns_reloads :: "mesh_cfg \<Rightarrow> geoip list \<Rightarrow> MaxMindProvider \<Rightarrow> handles \<Rightarrow> handles \<times> MaxMindProvider" where
  "dns_reloads cfg files p hs =
     (if dn_GeoReloadSec (cf_DNS cfg) > 0
      then foldl mm_step (hs, p) (map (\<lambda>gi. DoReload gi (dns_geo_cfg cfg)) files) else (hs, p))"

text \<open>
  From the \<^verbatim>\<open>select\<close> to the end of \<^verbatim>\<open>main\<close>: \<open>udp\<close> and \<open>tcp\<close> are the errors of closing the servers; the deferred calls
  close the databases first and the gossip service then.
\<close>

definition dns_finish ::
    "start_env \<Rightarrow> geoip \<Rightarrow> stop_cause \<Rightarrow> string option \<Rightarrow> string option \<Rightarrow> bool \<Rightarrow> 'l dns_process \<Rightarrow> world \<Rightarrow> world \<times> exit" where
  "dns_finish se gi cause udp tcp inTime dp w =
     (let w = w\<lparr>wo_net := svc_cancel (wo_net w)\<rparr>;
          w = w\<lparr>wo_listen := removeAll ''udp'' (wo_listen w)\<rparr>;
          w = w\<lparr>wo_listen := removeAll ''tcp'' (wo_listen w)\<rparr>;
          logs = log_error ''udp shutdown'' udp @ log_error ''tcp shutdown'' tcp
                 @ (case cause of Signal \<Rightarrow> [] | ServeError err \<Rightarrow> [''dns server stopped: '' @ err]);
          w = (case dp_provider dp of
                 None \<Rightarrow> w | Some p \<Rightarrow> w\<lparr>wo_geo := fst (maxmind_Close gi p (wo_geo w))\<rparr>);
          (net, err) = Shutdown se inTime (dp_service dp) (wo_net w)
      in (w\<lparr>wo_net := net\<rparr>, logs @ log_error ''gossip shutdown'' err, 0))"

text \<open>The outside world of a run of the name server: what the files hold, and how it ends.\<close>

record dns_run =
  dr_files :: geoip
  dr_reloads :: "geoip list"
  dr_cause :: stop_cause
  dr_udp :: "string option"
  dr_tcp :: "string option"
  dr_inTime :: bool

definition meshdns :: "key_env \<Rightarrow> start_env \<Rightarrow> dns_env \<Rightarrow> dns_run \<Rightarrow> mesh_cfg \<Rightarrow> world \<Rightarrow> world \<times> exit" where
  "meshdns ke se de r cfg w =
     (case (dns_launch ke se (dr_files r) de cfg w :: world \<times> (string + real dns_process)) of
        (w, Inl err) \<Rightarrow> (w, fatal err)
      | (w, Inr dp) \<Rightarrow>
          (case dp_provider dp of
             None \<Rightarrow> dns_finish se (dr_files r) (dr_cause r) (dr_udp r) (dr_tcp r) (dr_inTime r) dp w
           | Some p \<Rightarrow>
               (case dns_reloads cfg (dr_reloads r) p (wo_geo w) of
                  (hs, p) \<Rightarrow> dns_finish se (dr_files r) (dr_cause r) (dr_udp r) (dr_tcp r) (dr_inTime r)
                    (dp\<lparr>dp_provider := Some p\<rparr>) (w\<lparr>wo_geo := hs\<rparr>))))"

section \<open>The edge proxy\<close>

text \<open>
  \<open>httpTime\<close> and \<open>dbTime\<close>: how long closing the HTTP server and the database take. Both run under one context
  of ten seconds.
\<close>

definition proxy_finish ::
    "start_env \<Rightarrow> duration \<Rightarrow> duration \<Rightarrow> stop_cause \<Rightarrow> ('s, 'l) proxy_process \<Rightarrow> world \<Rightarrow> world \<times> exit" where
  "proxy_finish se httpTime dbTime cause pp w =
     (let logs = (case cause of Signal \<Rightarrow> [] | ServeError err \<Rightarrow> [''http server error: '' @ err]);
          w = w\<lparr>wo_net := svc_cancel (wo_net w), wo_advertising := False\<rparr>;
          deadline = 10 * second;
          w = w\<lparr>wo_listen := removeAll (pp_listen pp) (wo_listen w)\<rparr>;
          http = (if httpTime < deadline then None else Some ''context deadline exceeded'');
          inTime = (min httpTime deadline + dbTime < deadline);
          (net, err) = Shutdown se inTime (pp_service pp) (wo_net w)
      in (w\<lparr>wo_net := net\<rparr>, logs @ log_error ''http shutdown'' http @ log_error ''gossip shutdown'' err, 0))"

definition meshproxy ::
    "key_env \<Rightarrow> start_env \<Rightarrow> 's lru_ops \<Rightarrow> duration \<Rightarrow> duration \<Rightarrow> stop_cause \<Rightarrow> mesh_cfg \<Rightarrow> world \<Rightarrow> world \<times> exit" where
  "meshproxy ke se lru httpTime dbTime cause cfg w =
     (case (proxy_main ke se lru cfg (wo_net w) :: process \<times> (string + ('s, real) proxy_process)) of
        (net, Inl err) \<Rightarrow> (w\<lparr>wo_net := net\<rparr>, fatal err)
      | (net, Inr pp) \<Rightarrow>
          proxy_finish se httpTime dbTime cause pp
            (w\<lparr>wo_net := net, wo_listen := wo_listen w @ [pp_listen pp], wo_advertising := (eg_ID (cf_Edge cfg) \<noteq> [])\<rparr>))"

section \<open>The agent and the daemon\<close>

text \<open>
  After \<^verbatim>\<open>Run\<close>: the agent is closed within ten seconds, and once more by the deferred call, without a limit.
  \<open>result\<close> is what \<^verbatim>\<open>Run\<close> returned.
\<close>

definition agent_finish :: "start_env \<Rightarrow> go_error option \<Rightarrow> bool \<Rightarrow> Service \<Rightarrow> world \<Rightarrow> world \<times> exit" where
  "agent_finish se result inTime svc w =
     (let logs = (case result of None \<Rightarrow> [] | Some err \<Rightarrow> [''meshagent run error'']);
          (net, err) = agent_Close se inTime svc (wo_net w);
          logs = logs @ log_error ''meshagent shutdown error'' err;
          (net, _) = agent_Close se True svc net
      in (w\<lparr>wo_net := net\<rparr>, logs, 0))"

definition agent_svc :: "mesh_cfg \<Rightarrow> svc_Config" where
  "agent_svc cfg =
     \<lparr>sc_Bootstrap = mc_Bootstrap (cf_Mesh cfg), sc_DataDir = mc_DataDir (cf_Mesh cfg), sc_IdentityKey = None,
      sc_SyncInterval = mc_AntiEntropyEvery (cf_Mesh cfg),
      sc_PruneInterval = wrap_i64 (mc_AntiEntropyEvery (cf_Mesh cfg) * 3)\<rparr>"

definition meshagent ::
    "key_env \<Rightarrow> 'pk agent_env \<Rightarrow> start_env \<Rightarrow> time \<Rightarrow> go_error option \<Rightarrow> bool \<Rightarrow> mesh_cfg \<Rightarrow> world \<Rightarrow> world \<times> exit" where
  "meshagent ke env se now result inTime cfg w =
     (case agent_main ke now cfg of
        Inl err \<Rightarrow> (w, fatal err)
      | Inr ac \<Rightarrow>
          (case agent_launch env se (agent_svc cfg) now ac (wo_net w) of
             (net, Inl err) \<Rightarrow> (w\<lparr>wo_net := net\<rparr>, fatal (''failed to start mesh agent: '' @ err))
           | (net, Inr (ag, svc)) \<Rightarrow> agent_finish se result inTime svc (w\<lparr>wo_net := net\<rparr>)))"

definition meshd :: "key_env \<Rightarrow> start_env \<Rightarrow> bool \<Rightarrow> mesh_cfg \<Rightarrow> world \<Rightarrow> world \<times> exit" where
  "meshd ke se inTime cfg w =
     (case meshd_main ke se cfg (wo_net w) of
        (net, Inl err) \<Rightarrow> (w\<lparr>wo_net := net\<rparr>, fatal err)
      | (net, Inr svc) \<Rightarrow>
          (case Shutdown se inTime svc net of
             (net, err) \<Rightarrow> (w\<lparr>wo_net := net\<rparr>, log_error ''gossip shutdown'' err, 0)))"

section \<open>The programs from their command line\<close>

text \<open>
  What every \<^verbatim>\<open>main\<close> begins with: \<open>path\<close> is the flag or the environment variable, \<open>read\<close> reads and decodes a file, \<open>logger\<close> is
  the error of building the logger.
\<close>

definition boot :: "string \<Rightarrow> (string \<Rightarrow> string + mesh_cfg) \<Rightarrow> string option \<Rightarrow> string \<Rightarrow> exit + mesh_cfg" where
  "boot prog read logger path =
     (if path = [] then Inl ([prog @ '': configuration file required''], 1)
      else case Load (read path) of
        Inl err \<Rightarrow> Inl ([prog @ '': load config: '' @ err], 1)
      | Inr cfg \<Rightarrow>
          (case logger of
             Some err \<Rightarrow> Inl ([prog @ '': logger init: '' @ err], 1)
           | None \<Rightarrow> Inr cfg))"

definition main_meshdns ::
    "key_env \<Rightarrow> start_env \<Rightarrow> dns_env \<Rightarrow> dns_run \<Rightarrow> (string \<Rightarrow> string + mesh_cfg) \<Rightarrow> string option \<Rightarrow> string \<Rightarrow> world \<Rightarrow> world \<times> exit" where
  "main_meshdns ke se de r read logger path w =
     (case boot ''meshdns'' read logger path of Inl e \<Rightarrow> (w, e) | Inr cfg \<Rightarrow> meshdns ke se de r cfg w)"

definition main_meshproxy ::
    "key_env \<Rightarrow> start_env \<Rightarrow> 's lru_ops \<Rightarrow> duration \<Rightarrow> duration \<Rightarrow> stop_cause \<Rightarrow> (string \<Rightarrow> string + mesh_cfg) \<Rightarrow> string option \<Rightarrow>
     string \<Rightarrow> world \<Rightarrow> world \<times> exit" where
  "main_meshproxy ke se lru httpTime dbTime cause read logger path w =
     (case boot ''meshproxy'' read logger path of Inl e \<Rightarrow> (w, e) | Inr cfg \<Rightarrow> meshproxy ke se lru httpTime dbTime cause cfg w)"

definition main_meshagent ::
    "key_env \<Rightarrow> 'pk agent_env \<Rightarrow> start_env \<Rightarrow> time \<Rightarrow> go_error option \<Rightarrow> bool \<Rightarrow> (string \<Rightarrow> string + mesh_cfg) \<Rightarrow> string option \<Rightarrow>
     string \<Rightarrow> world \<Rightarrow> world \<times> exit" where
  "main_meshagent ke env se now result inTime read logger path w =
     (case boot ''meshagent'' read logger path of Inl e \<Rightarrow> (w, e) | Inr cfg \<Rightarrow> meshagent ke env se now result inTime cfg w)"

definition main_meshd ::
    "key_env \<Rightarrow> start_env \<Rightarrow> bool \<Rightarrow> (string \<Rightarrow> string + mesh_cfg) \<Rightarrow> string option \<Rightarrow> string \<Rightarrow> world \<Rightarrow> world \<times> exit" where
  "main_meshd ke se inTime read logger path w =
     (case boot ''meshd'' read logger path of Inl e \<Rightarrow> (w, e) | Inr cfg \<Rightarrow> meshd ke se inTime cfg w)"

section \<open>Facts\<close>

text \<open>The network after a shutdown: \<open>db\<close> says whether the database is still open.\<close>

definition closed_net :: "bool \<Rightarrow> process \<Rightarrow> process" where
  "closed_net db w = w\<lparr>w_host := False, w_db := db, w_loops := [], w_handler := False, w_peers := []\<rparr>"

lemma Shutdown_closed:
  "fst (Shutdown se inTime svc w) = closed_net (w_db w \<and> \<not> (sv_db svc \<and> inTime)) w"
  by (cases w) (simp add: Shutdown_def svc_cancel_def closed_net_def Let_def)

lemma closed_net_simps [simp]:
  "w_db (svc_cancel w) = w_db w" "w_validators (svc_cancel w) = w_validators w"
  "closed_net db (svc_cancel w) = closed_net db w" "closed_net db (closed_net db' w) = closed_net db w"
  "w_db (closed_net db w) = db" "w_validators (closed_net db w) = w_validators w"
  by (simp_all add: svc_cancel_def closed_net_def)

lemma started:
  assumes "NewService se cfg True w = (net, Inr svc)"
  shows "w_db net = sv_db svc" "sv_db svc \<longleftrightarrow> sc_DataDir cfg \<noteq> []"
    "closed_net db net = closed_net db (w\<lparr>w_validators := w_validators w @ all_topics\<rparr>)"
proof -
  have "starts se cfg" using NewService_fails [of se cfg True w] assms by auto
  from NewService_ok [OF this, of True w] obtain v where
    net: "net = connectBootstraps se (sc_Bootstrap cfg) (startMaintenance svc (startAntiEntropy svc v))"
    and v: "v = w\<lparr>w_host := True, w_validators := w_validators w @ all_topics, w_db := (sc_DataDir cfg \<noteq> []),
            w_loops := w_loops w @ map Consume all_topics, w_handler := True\<rparr>"
    and db: "sv_db svc = (sc_DataDir cfg \<noteq> [])" using assms by auto
  have n: "w_db net = w_db v" "w_validators net = w_validators v"
    by (simp_all add: net connectBootstraps_keeps startMaintenance_def startAntiEntropy_def Let_def)
  then show "w_db net = sv_db svc" "sv_db svc \<longleftrightarrow> sc_DataDir cfg \<noteq> []" by (simp_all add: v db)
  show "closed_net db net = closed_net db (w\<lparr>w_validators := w_validators w @ all_topics\<rparr>)"
    using n(2) by (simp add: closed_net_def v)
qed

text \<open>What \<^verbatim>\<open>dns_main\<close> is told of the service and of the databases.\<close>

definition dns_service :: "key_env \<Rightarrow> start_env \<Rightarrow> mesh_cfg \<Rightarrow> process \<Rightarrow> string + string list" where
  "dns_service ke se cfg net =
     (case parseIdentityKey ke (firstNonEmpty [mc_GossipKey (cf_Mesh cfg)]) of
        Inl err \<Rightarrow> Inl err
      | Inr key \<Rightarrow>
          (case snd (NewService se (dns_svc cfg key) True net) of Inl err \<Rightarrow> Inl err | Inr svc \<Rightarrow> Inr (sv_topics svc)))"

definition dns_open_db :: "geoip \<Rightarrow> handles \<Rightarrow> string \<Rightarrow> string \<Rightarrow> string + geo_lookup" where
  "dns_open_db gi hs city asn =
     (case snd (NewMaxMindProvider gi \<lparr>CityDBPath = city, ASNDBPath = asn\<rparr> hs) of
        Inl err \<Rightarrow> Inl err | Inr p \<Rightarrow> Inr (maxmind_Lookup gi p))"

lemma dns_open_geo_provider:
  "(case snd (dns_open_geo gi cfg hs) of Inl err \<Rightarrow> Inl err | Inr (p, l) \<Rightarrow> Inr l) = geo_provider (dns_open_db gi hs) (cf_DNS cfg)"
  by (simp add: dns_open_geo_def geo_provider_def dns_open_db_def dns_geo_cfg_def case_prod_unfold split: sum.split)

text \<open>The process apart, the start of the name server is \<^verbatim>\<open>dns_main\<close>.\<close>

lemma dns_launch_main:
  "(case snd (dns_launch ke se gi de cfg w) of Inl err \<Rightarrow> Inl err | Inr dp \<Rightarrow> Inr (dp_handler dp)) =
   dns_main ke (dns_service ke se cfg (wo_net w)) (dns_open_db gi (wo_geo w)) de cfg"
proof (cases "parseIdentityKey ke (firstNonEmpty [mc_GossipKey (cf_Mesh cfg)])")
  case (Inl err)
  then show ?thesis by (simp add: dns_launch_def dns_main_def Let_def)
next
  case (Inr key)
  obtain net r where svc: "NewService se (dns_svc cfg key) True (wo_net w) = (net, r)" by (metis surj_pair)
  obtain hs g where geo: "dns_open_geo gi cfg (wo_geo w) = (hs, g)" by (metis surj_pair)
  have g: "geo_provider (dns_open_db gi (wo_geo w)) (cf_DNS cfg) = (case g of Inl err \<Rightarrow> Inl err | Inr (p, l) \<Rightarrow> Inr l)"
    by (simp add: dns_open_geo_provider [symmetric] geo)
  show ?thesis
  proof (cases r)
    case (Inl err)
    with Inr svc show ?thesis by (simp add: dns_launch_def dns_main_def dns_service_def Let_def)
  next
    case r: (Inr svc')
    show ?thesis
    proof (cases g)
      case (Inl err)
      with Inr svc r geo g show ?thesis by (simp add: dns_launch_def dns_main_def dns_service_def Let_def)
    next
      case (Inr pl)
      obtain p l where "pl = (p, l)" by (cases pl)
      with Inr \<open>parseIdentityKey ke _ = Inr key\<close> svc r geo g show ?thesis
        by (simp add: dns_launch_def dns_main_def dns_service_def Let_def split: sum.split)
    qed
  qed
qed

lemma dns_launch_Inr:
  assumes "dns_launch ke se gi de cfg w = (w', Inr dp)" and "handles_ok (wo_geo w)"
  shows "wo_listen w' = wo_listen w @ [''udp'', ''tcp'']" "wo_advertising w' = wo_advertising w"
    and "\<exists>key. NewService se (dns_svc cfg key) True (wo_net w) = (wo_net w', Inr (dp_service dp))"
    and "case dp_provider dp of None \<Rightarrow> wo_geo w' = wo_geo w | Some p \<Rightarrow> mm_inv (h_open (wo_geo w)) (wo_geo w', p)"
proof -
  have geo: "case p of None \<Rightarrow> hs = wo_geo w | Some p \<Rightarrow> mm_inv (h_open (wo_geo w)) (hs, p)"
    if "dns_open_geo gi cfg (wo_geo w) = (hs, Inr (p, l))" for hs p l
    using that New_inv [OF _ assms(2), of gi "dns_geo_cfg cfg"]
    by (fastforce simp: dns_open_geo_def split: if_splits prod.splits sum.splits)
  note run = assms(1) [unfolded dns_launch_def Let_def]
  show "wo_listen w' = wo_listen w @ [''udp'', ''tcp'']" "wo_advertising w' = wo_advertising w"
    "\<exists>key. NewService se (dns_svc cfg key) True (wo_net w) = (wo_net w', Inr (dp_service dp))"
    using run by (auto split: if_splits sum.splits prod.splits)
  show "case dp_provider dp of None \<Rightarrow> wo_geo w' = wo_geo w | Some p \<Rightarrow> mm_inv (h_open (wo_geo w)) (wo_geo w', p)"
  proof (rule exE)
    show "\<exists>l. dns_open_geo gi cfg (wo_geo w) = (wo_geo w', Inr (dp_provider dp, l))"
      using run by (auto split: if_splits sum.splits prod.splits)
  qed (rule geo)
qed

lemma dns_reloads_inv:
  assumes "mm_inv others (hs, p)" and "dns_reloads cfg files p hs = (hs', p')"
  shows "mm_inv others (hs', p')"
proof (cases "dn_GeoReloadSec (cf_DNS cfg) > 0")
  case True
  with assms(2) mm_run_inv [OF assms(1), of "map (\<lambda>gi. DoReload gi (dns_geo_cfg cfg)) files"]
  show ?thesis by (simp add: dns_reloads_def)
qed (use assms in \<open>simp add: dns_reloads_def\<close>)

lemma dns_finish_ends:
  assumes "dns_finish se gi cause udp tcp inTime dp w = (w', logs, status)"
    and "case dp_provider dp of None \<Rightarrow> h_open (wo_geo w) = others | Some p \<Rightarrow> mm_inv others (wo_geo w, p)"
    and "w_db (wo_net w) = sv_db (dp_service dp)"
  shows "status = 0" "h_open (wo_geo w') = others" "set (wo_listen w') = set (wo_listen w) - {''udp'', ''tcp''}"
    "wo_net w' = closed_net (sv_db (dp_service dp) \<and> \<not> inTime) (wo_net w)"
    "(\<exists>err. cause = ServeError err \<and> ''dns server stopped: '' @ err \<in> set logs) \<or> cause = Signal"
proof -
  note run = assms(1) [unfolded dns_finish_def Let_def case_prod_unfold]
  show "status = 0" using run by simp
  show "set (wo_listen w') = set (wo_listen w) - {''udp'', ''tcp''}" using run by (auto split: option.splits)
  show "wo_net w' = closed_net (sv_db (dp_service dp) \<and> \<not> inTime) (wo_net w)"
    using run assms(3) by (auto simp: Shutdown_closed split: option.splits)
  show "(\<exists>err. cause = ServeError err \<and> ''dns server stopped: '' @ err \<in> set logs) \<or> cause = Signal"
    using run by (cases cause) auto
  show "h_open (wo_geo w') = others"
  proof (cases "dp_provider dp")
    case None
    with run assms(2) show ?thesis by auto
  next
    case (Some p)
    obtain hs p' errs where c: "maxmind_Close gi p (wo_geo w) = (hs, p', errs)" by (metis prod_cases3)
    have "mm_inv others (wo_geo w, p)" using assms(2) Some by simp
    from Close_inv(2) [OF this c] run Some c show ?thesis by auto
  qed
qed

section \<open>Properties\<close>


definition demo_world :: world where
  "demo_world = \<lparr>wo_net = idle, wo_geo = \<lparr>h_next = 0, h_open = {}\<rparr>, wo_listen = [], wo_advertising = False\<rparr>"

definition demo_dns_run :: dns_run where
  "demo_dns_run = \<lparr>dr_files = \<lparr>gi_Open = (\<lambda>_. None), gi_City = (\<lambda>_ _. Inl []), gi_ASN = (\<lambda>_ _. Inl []), gi_Close = (\<lambda>_. None)\<rparr>,
     dr_reloads = [], dr_cause = ServeError ''address already in use'', dr_udp = None, dr_tcp = None, dr_inTime = True\<rparr>"


text \<open>
  The proxy ends clean, if with the wrong status. Started from a fresh network, the program ends with
  no server listening, no advertiser, no loops and no host, and the database is closed when closing it and the
  HTTP server fit into the ten seconds they share. Only a failed start gives status 1: when the HTTP server fails,
  for instance because its address is in use, the error is logged and the status is 0, so a supervisor that
  restarts on failure does not restart it.
\<close>

theorem proxy_ends_clean:
  assumes "wo_net w = idle" and "wo_listen w = []" and "0 \<le> httpTime" and "0 \<le> dbTime"
    and "(proxy_main ke se lru cfg idle :: process \<times> (string + ('s, real) proxy_process)) = (net, r)"
    and "meshproxy ke se lru httpTime dbTime cause cfg w = (w', logs, status)"
  shows "case r of
      Inl err \<Rightarrow> status = 1
    | Inr pp \<Rightarrow> status = 0 \<and> wo_listen w' = [] \<and> \<not> wo_advertising w'
        \<and> wo_net w' = idle\<lparr>w_validators := all_topics, w_db := (mc_DataDir (cf_Mesh cfg) \<noteq> [] \<and> 10 * second \<le> httpTime + dbTime)\<rparr>
        \<and> (case cause of Signal \<Rightarrow> True | ServeError err \<Rightarrow> ''http server error: '' @ err \<in> set logs)"
proof (cases r)
  case (Inl err)
  then show ?thesis using assms by (simp add: meshproxy_def fatal_def)
next
  case (Inr pp)
  obtain key where svc: "NewService se (proxy_svc cfg key) True idle = (net, Inr (pp_service pp))"
    using assms(5) Inr by (auto simp: proxy_main_def Let_def split: sum.splits prod.splits)
  have fin: "proxy_finish se httpTime dbTime cause pp
      (w\<lparr>wo_net := net, wo_listen := [pp_listen pp], wo_advertising := (eg_ID (cf_Edge cfg) \<noteq> [])\<rparr>) = (w', logs, status)"
    using assms Inr by (simp add: meshproxy_def)
  note run = fin [unfolded proxy_finish_def Let_def case_prod_unfold]
  have "wo_net w' = closed_net (mc_DataDir (cf_Mesh cfg) \<noteq> [] \<and> 10 * second \<le> httpTime + dbTime) (idle\<lparr>w_validators := all_topics\<rparr>)"
    using run started [OF svc] assms(3,4)
    by (cases "httpTime \<le> 10 * second") (auto simp: Shutdown_closed proxy_svc_def idle_def min_def not_less)
  moreover have "status = 0" "wo_listen w' = []" "\<not> wo_advertising w'" using run by auto
  moreover have "case cause of Signal \<Rightarrow> True | ServeError err \<Rightarrow> ''http server error: '' @ err \<in> set logs"
    using run by (auto split: stop_cause.splits)
  ultimately show ?thesis by (simp add: Inr closed_net_def idle_def)
qed

theorem proxy_ends_clean_witness:
  "\<exists>cfg w' logs. Load (Inr demo_file) = Inr cfg
     \<and> meshproxy demo_keys demo_up list_lru 0 0 (ServeError ''address already in use'') cfg demo_world = (w', logs, 0)
     \<and> ''http server error: address already in use'' \<in> set logs"
proof (rule demo_loaded)
  fix cfg assume cfg: "Load (Inr demo_file) = Inr cfg" and key: "mc_GossipKey (cf_Mesh cfg) = ''AQ==''"
    and ttl: "ch_TTLHeighted (cf_Cache cfg) = ''infinite''"
  obtain net and pp :: "(nat \<times> items, real) proxy_process" where pp: "proxy_main demo_keys demo_up list_lru cfg idle = (net, Inr pp)"
    using proxy_main_runs [OF demo_proxy_starts [OF key ttl]] by blast
  obtain w' logs status where run:
    "meshproxy demo_keys demo_up list_lru 0 0 (ServeError ''address already in use'') cfg demo_world = (w', logs, status)"
    by (metis prod_cases3)
  have "wo_net demo_world = idle" "wo_listen demo_world = []" by (simp_all add: demo_world_def)
  from proxy_ends_clean [OF this _ _ pp run] cfg run show ?thesis by auto
qed

text \<open>
  The agent ends clean. Whatever ended \<^verbatim>\<open>Run\<close>, and even when the first attempt to close runs into its limit, the
  deferred second one closes the database too; the network is left as before the start, and the status is 0.
\<close>

theorem agent_ends_clean:
  assumes "wo_net w = idle" and "agent_main ke now cfg = Inr ac"
    and "agent_launch env se (agent_svc cfg) now ac idle = (net, Inr (a, svc))"
    and "meshagent ke env se now result inTime cfg w = (w', logs, status)"
  shows "wo_net w' = idle\<lparr>w_validators := all_topics\<rparr> \<and> status = 0
    \<and> (result \<noteq> None \<longrightarrow> ''meshagent run error'' \<in> set logs)"
proof -
  have svc: "NewService se (agent_svc cfg\<lparr>sc_IdentityKey := ac_IdentityKey ac\<rparr>) True idle = (net, Inr svc)"
    using assms(3) by (auto simp: agent_launch_def Let_def split: option.splits if_splits sum.splits prod.splits)
  have run: "agent_finish se result inTime svc (w\<lparr>wo_net := net\<rparr>) = (w', logs, status)"
    using assms by (simp add: meshagent_def)
  have "wo_net w' = closed_net False (idle\<lparr>w_validators := all_topics\<rparr>)"
    using run started [OF svc] by (auto simp: agent_finish_def agent_Close_def Shutdown_closed case_prod_unfold Let_def idle_def)
  moreover have "status = 0" "result \<noteq> None \<longrightarrow> ''meshagent run error'' \<in> set logs"
    using run by (auto simp: agent_finish_def case_prod_unfold Let_def)
  ultimately show ?thesis by (simp add: closed_net_def idle_def)
qed

theorem agent_ends_clean_witness:
  "\<exists>w' logs. meshagent demo_keys demo_agent_env demo_up 0 (Some (Failure ''in use'')) False demo_file demo_world = (w', logs, 0)
     \<and> \<not> w_host (wo_net w') \<and> ''meshagent run error'' \<in> set logs"
proof -
  obtain ac where ac: "agent_main demo_keys 0 demo_file = Inr ac"
    by (simp add: agent_main_def demo_file_def demo_keys_def parseIdentityKey_def parseOwnerKey_def parseIPList_def
        demo_trim PrivateKeySize_def Let_def case_prod_unfold TrimSpace_def [of "[]"])
  then have "ac_IdentityKey ac \<noteq> None" by (auto simp: agent_main_def Let_def split: if_splits sum.splits prod.splits)
  then have "starts demo_up (agent_svc demo_file\<lparr>sc_IdentityKey := ac_IdentityKey ac\<rparr>)"
    by (simp add: starts_def demo_up_def demo_start_def agent_svc_def demo_file_def)
  from NewService_ok [OF this, of True idle] obtain svc where
    "snd (NewService demo_up (agent_svc demo_file\<lparr>sc_IdentityKey := ac_IdentityKey ac\<rparr>) True idle) = Inr svc" by auto
  moreover have "\<exists>a. agent_New (demo_agent_env\<lparr>ae_NewService := Inr (sv_topics svc)\<rparr>) 0 ac = Inr a"
    using agent_config_starts [OF ac, of "demo_agent_env\<lparr>ae_NewService := Inr (sv_topics svc)\<rparr>" "sv_topics svc" 0]
    by (auto simp: demo_agent_env_def demo_env_def demo_file_def demo_trim)
  ultimately obtain net a svc' where launch: "agent_launch demo_agent_env demo_up (agent_svc demo_file) 0 ac idle = (net, Inr (a, svc'))"
    using agent_launch_New [of demo_agent_env demo_up "agent_svc demo_file" 0 ac idle]
    by (cases "agent_launch demo_agent_env demo_up (agent_svc demo_file) 0 ac idle") (auto split: sum.splits)
  obtain w' logs status where run:
    "meshagent demo_keys demo_agent_env demo_up 0 (Some (Failure ''in use'')) False demo_file demo_world = (w', logs, status)"
    by (metis prod_cases3)
  have "wo_net demo_world = idle" by (simp add: demo_world_def)
  from agent_ends_clean [OF this ac launch run] run show ?thesis by (auto simp: idle_def)
qed

text \<open>
  A program that fails touches nothing before it has its configuration, and every failure has status 1 and
  one line of output: the four programs agree on this, whatever stops them.
\<close>

theorem programs_fail_early:
  assumes "path = [] \<or> (\<exists>err. Load (read path) = Inl err) \<or> logger \<noteq> None"
  shows "\<exists>msg. main_meshdns ke se de r read logger path w = (w, [''meshdns'' @ msg], 1)
    \<and> main_meshproxy ke se lru t1 t2 cause read logger path w = (w, [''meshproxy'' @ msg], 1)
    \<and> main_meshagent ke env se now result inTime read logger path w = (w, [''meshagent'' @ msg], 1)
    \<and> main_meshd ke se inTime read logger path w = (w, [''meshd'' @ msg], 1)"
proof -
  obtain msg where msg: "boot prog read logger path = Inl ([prog @ msg], 1)" for prog
  proof (cases "path = []")
    case True
    then show ?thesis by (intro that [of "'': configuration file required''"]) (simp add: boot_def)
  next
    case False
    show ?thesis
    proof (cases "Load (read path)")
      case (Inl err)
      with False show ?thesis by (intro that [of "'': load config: '' @ err"]) (simp add: boot_def)
    next
      case (Inr cfg)
      with False assms obtain err where "logger = Some err" by auto
      with False Inr show ?thesis by (intro that [of "'': logger init: '' @ err"]) (simp add: boot_def)
    qed
  qed
  then show ?thesis by (auto simp: main_meshdns_def main_meshproxy_def main_meshagent_def main_meshd_def)
qed

end
