(* ===== verification/Mesh_Observability.thy ===== *)
theory Mesh_Observability
  imports Mesh_Tools
begin

text \<open>
  What the programs show of themselves: the collectors of \<^verbatim>\<open>pkg/metrics/metrics.go\<close>, the tracing provider of
  \<^verbatim>\<open>pkg/tracing/tracing.go\<close>, the logger of \<^verbatim>\<open>pkg/logging/logging.go\<close> and the printing commands of
  \<^verbatim>\<open>cmd/meshctl/main.go\<close>. Prometheus, OpenTelemetry and zap are arguments: what is modelled is what they are
  asked for, in which order, and what is left behind when they refuse.
\<close>

section \<open>Collectors\<close>

datatype collector_kind = Counter | Gauge | Histogram

record opts =
  op_kind :: collector_kind
  op_Namespace :: string
  op_Name :: string
  op_Help :: string
  op_labels :: "string list"
  op_DefBuckets :: bool

definition new_counter :: "string \<Rightarrow> string \<Rightarrow> string \<Rightarrow> string list \<Rightarrow> opts" where
  "new_counter ns name help labels =
     \<lparr>op_kind = Counter, op_Namespace = ns, op_Name = name, op_Help = help, op_labels = labels, op_DefBuckets = False\<rparr>"

definition new_gauge :: "string \<Rightarrow> string \<Rightarrow> string \<Rightarrow> string list \<Rightarrow> opts" where
  "new_gauge ns name help labels =
     \<lparr>op_kind = Gauge, op_Namespace = ns, op_Name = name, op_Help = help, op_labels = labels, op_DefBuckets = False\<rparr>"

definition new_histogram :: "string \<Rightarrow> string \<Rightarrow> string \<Rightarrow> string list \<Rightarrow> bool \<Rightarrow> opts" where
  "new_histogram ns name help labels buckets =
     \<lparr>op_kind = Histogram, op_Namespace = ns, op_Name = name, op_Help = help, op_labels = labels, op_DefBuckets = buckets\<rparr>"

record 'r Metrics =
  mt_registry :: 'r
  RequestsTotal :: opts
  RequestDuration :: opts
  CacheHits :: opts
  BackendFailures :: opts
  ActiveConnections :: opts
  RateLimitedRequests :: opts
  NodeAdvertsPublished :: opts
  MetricsCollectionDuration :: opts
  RegistrySize :: opts
  GossipMessagesSent :: opts
  GossipMessagesRecv :: opts

text \<open>The registry of Prometheus: a new one, and registering a collector, \<open>None\<close> for a panic.\<close>

record 'r prometheus =
  pm_NewRegistry :: 'r
  pm_MustRegister :: "'r \<Rightarrow> opts \<Rightarrow> 'r option"

fun must_register :: "'r prometheus \<Rightarrow> 'r \<Rightarrow> opts list \<Rightarrow> 'r option" where
  "must_register pm r [] = Some r"
| "must_register pm r (c # cs) = (case pm_MustRegister pm r c of None \<Rightarrow> None | Some r' \<Rightarrow> must_register pm r' cs)"

definition collectors :: "'r Metrics \<Rightarrow> opts list" where
  "collectors m =
     [RequestsTotal m, RequestDuration m, CacheHits m, BackendFailures m, ActiveConnections m, RateLimitedRequests m,
      NodeAdvertsPublished m, MetricsCollectionDuration m, RegistrySize m, GossipMessagesSent m, GossipMessagesRecv m]"

definition new_collectors :: "'r \<Rightarrow> string \<Rightarrow> 'r Metrics" where
  "new_collectors reg namespace =
     \<lparr>mt_registry = reg,
      RequestsTotal = new_counter namespace ''requests_total'' ''Total HTTP requests by status code'' [''code'', ''method''],
      RequestDuration = new_histogram namespace ''request_duration_seconds'' ''HTTP request latency'' [''method''] True,
      CacheHits = new_counter namespace ''cache_hits_total'' ''Cache hits and misses'' [''status''],
      BackendFailures = new_counter namespace ''backend_failures_total'' ''Backend request failures'' [''backend''],
      ActiveConnections = new_gauge namespace ''active_connections'' ''Active client connections'' [''type''],
      RateLimitedRequests = new_counter namespace ''rate_limited_requests_total'' ''Requests rejected by rate limiter'' [],
      NodeAdvertsPublished = new_counter namespace ''node_adverts_published_total'' ''Node advertisements published to gossip'' [],
      MetricsCollectionDuration = new_histogram namespace ''metrics_collection_duration_seconds'' ''Time to collect backend metrics'' [] False,
      RegistrySize = new_gauge namespace ''registry_entries'' ''Number of entries in CRDT registry'' [],
      GossipMessagesSent = new_counter namespace ''gossip_messages_sent_total'' ''Gossip messages sent'' [],
      GossipMessagesRecv = new_counter namespace ''gossip_messages_received_total'' ''Gossip messages received'' []\<rparr>"

definition NewMetrics :: "'r prometheus \<Rightarrow> string \<Rightarrow> 'r Metrics option" where
  "NewMetrics pm namespace =
     (let reg = pm_NewRegistry pm;
          m = new_collectors reg namespace
      in case must_register pm reg (collectors m) of
           None \<Rightarrow> None
         | Some reg \<Rightarrow> Some (m\<lparr>mt_registry := reg\<rparr>))"

text \<open>
  \<^verbatim>\<open>ListenAndServe\<close>: a server whose only route is the exposition of the registry. \<open>gather\<close> is the text that Prometheus
  makes of a registry; other paths get the reply of the multiplexer.
\<close>

definition metrics_serve :: "('r \<Rightarrow> string) \<Rightarrow> 'r Metrics \<Rightarrow> string \<Rightarrow> int \<times> string" where
  "metrics_serve gather m path =
     (if path = ''/metrics'' then (200, gather (mt_registry m)) else (404, ''404 page not found''))"

subsection \<open>Registration\<close>

definition name_char :: "char \<Rightarrow> bool" where
  "name_char c \<longleftrightarrow> c \<in> set ''abcdefghijklmnopqrstuvwxyzABCDEFGHIJKLMNOPQRSTUVWXYZ0123456789_:''"

definition name_start :: "char \<Rightarrow> bool" where
  "name_start c \<longleftrightarrow> name_char c \<and> c \<notin> set ''0123456789''"

text \<open>The documented syntax of metric names; a namespace may be left out.\<close>

fun valid_name :: "string \<Rightarrow> bool" where
  "valid_name [] = False"
| "valid_name (c # cs) \<longleftrightarrow> name_start c \<and> list_all name_char cs"

definition valid_opts :: "opts \<Rightarrow> bool" where
  "valid_opts c \<longleftrightarrow> (op_Namespace c = [] \<or> valid_name (op_Namespace c)) \<and> valid_name (op_Name c)
     \<and> list_all valid_name (op_labels c) \<and> distinct (op_labels c)"

text \<open>
  What the package documents: \<open>known r\<close> are the collectors of a registry, by namespace and name; a valid collector is
  accepted exactly when no other of its name is known.
\<close>

definition registry_laws :: "'r prometheus \<Rightarrow> ('r \<Rightarrow> (string \<times> string) list) \<Rightarrow> bool" where
  "registry_laws pm known \<longleftrightarrow>
     known (pm_NewRegistry pm) = []
     \<and> (\<forall>r c. pm_MustRegister pm r c = None \<longleftrightarrow> \<not> valid_opts c \<or> (op_Namespace c, op_Name c) \<in> set (known r))
     \<and> (\<forall>r c r'. pm_MustRegister pm r c = Some r' \<longrightarrow> known r' = known r @ [(op_Namespace c, op_Name c)])"

lemma must_register_all:
  assumes "registry_laws pm known" and "list_all valid_opts cs"
    and "distinct (known r @ map (\<lambda>c. (op_Namespace c, op_Name c)) cs)"
  shows "\<exists>r'. must_register pm r cs = Some r' \<and> known r' = known r @ map (\<lambda>c. (op_Namespace c, op_Name c)) cs"
  using assms(2,3)
proof (induction cs arbitrary: r)
  case (Cons c cs)
  then have "pm_MustRegister pm r c \<noteq> None" using assms(1) by (auto simp: registry_laws_def)
  then obtain r' where r': "pm_MustRegister pm r c = Some r'" by auto
  then have "known r' = known r @ [(op_Namespace c, op_Name c)]" using assms(1) by (simp add: registry_laws_def)
  with Cons.IH [of r'] Cons.prems r' show ?case by simp
qed simp

lemma new_collectors_names:
  "map op_Name (collectors (new_collectors reg namespace)) =
     [''requests_total'', ''request_duration_seconds'', ''cache_hits_total'', ''backend_failures_total'', ''active_connections'',
      ''rate_limited_requests_total'', ''node_adverts_published_total'', ''metrics_collection_duration_seconds'',
      ''registry_entries'', ''gossip_messages_sent_total'', ''gossip_messages_received_total'']"
  "map op_Namespace (collectors (new_collectors reg namespace)) = replicate 11 namespace"
  by (simp_all add: collectors_def new_collectors_def new_counter_def new_gauge_def new_histogram_def eval_nat_numeral)

lemma new_collectors_valid:
  "list_all valid_opts (collectors (new_collectors reg namespace)) \<longleftrightarrow> namespace = [] \<or> valid_name namespace"
  by (simp add: collectors_def new_collectors_def new_counter_def new_gauge_def new_histogram_def valid_opts_def
      name_start_def name_char_def)

lemma collectors_registry [simp]: "collectors (m\<lparr>mt_registry := r\<rparr>) = collectors m"
  by (simp add: collectors_def)

text \<open>
  The metrics register. For every registry that keeps its contract, building the metrics panics exactly
  for a namespace that is neither empty nor a valid name; otherwise the eleven collectors are known,
  each under a name of its own, and the exposition is served under its path only.
\<close>

theorem new_metrics_registers:
  assumes "registry_laws pm known"
  shows "if namespace = [] \<or> valid_name namespace
    then \<exists>m. NewMetrics pm namespace = Some m
      \<and> known (mt_registry m) = map (\<lambda>c. (namespace, op_Name c)) (collectors m) \<and> distinct (map op_Name (collectors m))
      \<and> length (collectors m) = 11 \<and> metrics_serve gather m ''/metrics'' = (200, gather (mt_registry m))
    else NewMetrics pm namespace = None"
proof -
  let ?m = "new_collectors (pm_NewRegistry pm) namespace"
  have len: "length (collectors ?m) = 11" by (simp add: collectors_def)
  have ns: "op_Namespace c = namespace" if "c \<in> set (collectors ?m)" for c
    using that new_collectors_names(2) [of "pm_NewRegistry pm" namespace] by (metis in_set_replicate list.set_map image_eqI)
  then have keys: "map (\<lambda>c. (op_Namespace c, op_Name c)) (collectors ?m) = map (\<lambda>c. (namespace, op_Name c)) (collectors ?m)"
    by simp
  have dist: "distinct (map op_Name (collectors ?m))" unfolding new_collectors_names by simp
  have new: "known (pm_NewRegistry pm) = []" using assms by (simp add: registry_laws_def)
  show ?thesis
  proof (cases "namespace = [] \<or> valid_name namespace")
    case True
    then have "list_all valid_opts (collectors ?m)" by (simp add: new_collectors_valid)
    moreover have "distinct (known (pm_NewRegistry pm) @ map (\<lambda>c. (op_Namespace c, op_Name c)) (collectors ?m))"
      using dist unfolding keys new by (simp add: distinct_map inj_on_def)
    ultimately obtain r where "must_register pm (pm_NewRegistry pm) (collectors ?m) = Some r"
      "known r = map (\<lambda>c. (namespace, op_Name c)) (collectors ?m)"
      using must_register_all [OF assms, of "collectors ?m" "pm_NewRegistry pm"] unfolding keys new by auto
    with True dist len show ?thesis by (simp add: NewMetrics_def metrics_serve_def Let_def)
  next
    case False
    then have "\<not> valid_opts (RequestsTotal ?m)" by (simp add: valid_opts_def new_collectors_def new_counter_def)
    then have "pm_MustRegister pm (pm_NewRegistry pm) (RequestsTotal ?m) = None" using assms by (simp add: registry_laws_def)
    with False show ?thesis by (simp add: NewMetrics_def collectors_def Let_def)
  qed
qed

definition demo_prometheus :: "(string \<times> string) list prometheus" where
  "demo_prometheus = \<lparr>pm_NewRegistry = [],
     pm_MustRegister = (\<lambda>r c. if \<not> valid_opts c \<or> (op_Namespace c, op_Name c) \<in> set r then None
       else Some (r @ [(op_Namespace c, op_Name c)]))\<rparr>"

theorem new_metrics_registers_witness:
  "\<exists>m. NewMetrics demo_prometheus ''mesh'' = Some m \<and> length (mt_registry m) = 11"
proof -
  have "registry_laws demo_prometheus id" by (simp add: registry_laws_def demo_prometheus_def)
  moreover have "valid_name ''mesh''" by (simp add: name_start_def name_char_def)
  ultimately show ?thesis using new_metrics_registers [of demo_prometheus id "''mesh''" "\<lambda>_. []"] by auto
qed

section \<open>Tracing\<close>

record trace_Config =
  tg_Enabled :: bool
  tg_ServiceName :: string
  tg_ServiceVer :: string
  tg_Environment :: string
  tg_Endpoint :: string
  tg_SampleRate :: real
  tg_Headers :: "(string, string) gomap"

datatype trace_option = WithEndpoint string | WithHeaders "(string, string) gomap" | WithInsecure

datatype sampler = AlwaysSample | NeverSample | TraceIDRatioBased real

text \<open>
  OpenTelemetry: merging the default resource with attributes, an exporter for options, a provider, and the
  error of its shutdown. Its global state is the provider, \<open>None\<close> for the one that drops everything, and the names
  of the propagators.
\<close>

record ('r, 'e, 't) otel =
  ot_Merge :: "(string \<times> string) list \<Rightarrow> string + 'r"
  ot_NewExporter :: "trace_option list \<Rightarrow> string + 'e"
  ot_NewTracerProvider :: "'e \<Rightarrow> 'r \<Rightarrow> sampler \<Rightarrow> 't"
  ot_Shutdown :: "'t \<Rightarrow> string option"

record 't otel_state =
  os_provider :: "'t option"
  os_propagators :: "string list"

definition trace_options :: "trace_Config \<Rightarrow> trace_option list" where
  "trace_options cfg =
     (let opts = [WithEndpoint (tg_Endpoint cfg)];
          opts = (if tg_Headers cfg \<noteq> [] then opts @ [WithHeaders (tg_Headers cfg)] else opts)
      in opts @ [WithInsecure])"

definition trace_sampler :: "real \<Rightarrow> sampler" where
  "trace_sampler rate =
     (if rate \<ge> 1 then AlwaysSample else if rate \<le> 0 then NeverSample else TraceIDRatioBased rate)"

text \<open>The result: the error, or the provider to shut down, if there is one.\<close>

definition NewProvider ::
    "('r, 'e, 't) otel \<Rightarrow> trace_Config \<Rightarrow> 't otel_state \<Rightarrow> 't otel_state \<times> (string + 't option)" where
  "NewProvider ot cfg g =
     (if \<not> tg_Enabled cfg then (g\<lparr>os_provider := None\<rparr>, Inr None)
      else case ot_Merge ot [(''service.name'', tg_ServiceName cfg), (''service.version'', tg_ServiceVer cfg),
                             (''deployment.environment'', tg_Environment cfg)] of
        Inl err \<Rightarrow> (g, Inl err)
      | Inr res \<Rightarrow>
          (case ot_NewExporter ot (trace_options cfg) of
             Inl err \<Rightarrow> (g, Inl err)
           | Inr exporter \<Rightarrow>
               let tp = ot_NewTracerProvider ot exporter res (trace_sampler (tg_SampleRate cfg));
                   g = g\<lparr>os_provider := Some tp\<rparr>;
                   g = g\<lparr>os_propagators := [''tracecontext'', ''baggage'']\<rparr>
               in (g, Inr (Some tp))))"

definition trace_Shutdown :: "('r, 'e, 't) otel \<Rightarrow> 't option \<Rightarrow> string option" where
  "trace_Shutdown ot p = (case p of Some tp \<Rightarrow> ot_Shutdown ot tp | None \<Rightarrow> None)"

text \<open>
  Tracing fails without a trace. A provider that cannot be built leaves the global state as it was; one that is
  built is the global one, exports to the configured endpoint without encryption, and samples a share of
  the requests strictly between none and all or one of these two; switched off, it drops everything and
  shutting it down does nothing.
\<close>

theorem tracing_setup:
  "case NewProvider ot cfg g of (g', r) \<Rightarrow>
     (case r of
        Inl err \<Rightarrow> tg_Enabled cfg \<and> g' = g
      | Inr None \<Rightarrow> \<not> tg_Enabled cfg \<and> os_provider g' = None \<and> os_propagators g' = os_propagators g \<and> trace_Shutdown ot None = None
      | Inr (Some tp) \<Rightarrow> tg_Enabled cfg \<and> os_provider g' = Some tp \<and> os_propagators g' = [''tracecontext'', ''baggage'']
          \<and> trace_Shutdown ot (Some tp) = ot_Shutdown ot tp
          \<and> (\<exists>e res s. tp = ot_NewTracerProvider ot e res s \<and> ot_NewExporter ot (trace_options cfg) = Inr e
              \<and> hd (trace_options cfg) = WithEndpoint (tg_Endpoint cfg) \<and> last (trace_options cfg) = WithInsecure
              \<and> (case s of AlwaysSample \<Rightarrow> tg_SampleRate cfg \<ge> 1 | NeverSample \<Rightarrow> tg_SampleRate cfg \<le> 0
                 | TraceIDRatioBased p \<Rightarrow> p = tg_SampleRate cfg \<and> 0 < p \<and> p < 1)))"
proof -
  have s: "case trace_sampler p of AlwaysSample \<Rightarrow> p \<ge> 1 | NeverSample \<Rightarrow> p \<le> 0 | TraceIDRatioBased q \<Rightarrow> q = p \<and> 0 < q \<and> q < 1"
    for p by (simp add: trace_sampler_def)
  have o: "hd (trace_options cfg) = WithEndpoint (tg_Endpoint cfg)" "last (trace_options cfg) = WithInsecure"
    by (simp_all add: trace_options_def Let_def)
  show ?thesis
    using s [of "tg_SampleRate cfg"] o
    by (auto simp: NewProvider_def trace_Shutdown_def Let_def split: sum.splits)
qed

section \<open>Logging\<close>

text \<open>zap: its production configuration, and building a logger from a configuration.\<close>

record log_Config =
  lo_EncodeTime :: string
  lo_DisableStacktrace :: bool
  lo_TimeKey :: string
  lo_LevelKey :: string
  lo_MessageKey :: string

record 'z zap =
  za_NewProductionConfig :: log_Config
  za_Build :: "log_Config \<Rightarrow> string + 'z"

definition NewLogger :: "'z zap \<Rightarrow> string + 'z" where
  "NewLogger z =
     (let cfg = za_NewProductionConfig z;
          cfg = cfg\<lparr>lo_EncodeTime := ''RFC3339''\<rparr>;
          cfg = cfg\<lparr>lo_DisableStacktrace := True\<rparr>;
          cfg = cfg\<lparr>lo_TimeKey := ''ts'', lo_LevelKey := ''level'', lo_MessageKey := ''msg''\<rparr>
      in za_Build z cfg)"

section \<open>Commands that print\<close>

text \<open>
  The commands of \<^verbatim>\<open>meshctl\<close> beside \<open>genkeys\<close>. \<open>None\<close> is the refusal of a command that takes exactly one argument; the
  result is the lines printed.
\<close>

definition exact_args :: "(string \<Rightarrow> string list) \<Rightarrow> string list \<Rightarrow> string list option" where
  "exact_args run args = (case args of [a] \<Rightarrow> Some (run a) | _ \<Rightarrow> None)"

definition statusCmd :: "string list" where
  "statusCmd = [''Status: OK'', ''Registry entries: 0'', ''Gossip peers: 0'']"

definition drainCmd :: "string list \<Rightarrow> string list option" where
  "drainCmd = exact_args (\<lambda>nodeID. [''Draining node: '' @ nodeID, ''Node marked for drain - traffic will stop routing to it''])"

definition allowlistAddCmd :: "string list \<Rightarrow> string list option" where
  "allowlistAddCmd = exact_args (\<lambda>nodeID. [''Adding node to allowlist: '' @ nodeID])"

definition allowlistRemoveCmd :: "string list \<Rightarrow> string list option" where
  "allowlistRemoveCmd = exact_args (\<lambda>nodeID. [''Removing node from allowlist: '' @ nodeID])"

definition allowlistListCmd :: "string list" where
  "allowlistListCmd = [''Allowlisted nodes:'', ''  - node-1'', ''  - node-2'']"

end
