(* ===== verification/Spec2Isabelle.thy ===== *)
theory Spec2Isabelle
  imports Circuit_Breaker Health_Prober Auth_Tokens Client_Subnet Websocket_Relay Mesh_Pki Mesh_Daemons
    Mesh_Observability
begin

text \<open>
  A verification of the mesh load balancer: edge proxies that spread HTTP and websocket requests over
  the backends of blockchain networks, agents beside the backends that announce and measure them, name
  servers that answer with the addresses of the edges, and the gossip network over which all of them
  keep a replicated registry.

  \<^bold>\<open>The parts and how they interact.\<close> An agent (\<^verbatim>\<open>pkg/agent\<close>) signs a record of its backend and samples of its
  metrics and publishes them through the gossip service (\<^verbatim>\<open>pkg/gossip\<close>) as signed envelopes. Every node
  validates what it hears and applies it to its registry (\<^verbatim>\<open>pkg/registry\<close>), which is built from
  last-writer-wins maps and version vectors (\<^verbatim>\<open>pkg/crdt\<close>); anti-entropy merges whole registries. The edge proxy
  (\<^verbatim>\<open>pkg/proxy\<close>) reads the chain off a request, builds candidates from the registry, chooses with
  \<^verbatim>\<open>pkg/selector\<close>, forwards with one retry, caches replies (\<^verbatim>\<open>pkg/cache\<close>) and limits clients. It advertises itself
  (\<^verbatim>\<open>cmd/meshproxy\<close>); the name server (\<^verbatim>\<open>pkg/dnsplugin\<close>, with \<^verbatim>\<open>pkg/geo\<close>) turns adverts into answers.
  \<^verbatim>\<open>pkg/circuitbreaker\<close>, \<^verbatim>\<open>pkg/health\<close>, \<^verbatim>\<open>pkg/auth\<close>, \<^verbatim>\<open>pkg/ecs\<close>, \<^verbatim>\<open>pkg/tls\<close> and \<^verbatim>\<open>pkg/pki\<close> are libraries beside them that the
  programs do not call yet, apart from the signing server of \<^verbatim>\<open>cmd/meshpki\<close>.

  \<^bold>\<open>The theories.\<close>
  \<^item> \<open>Mesh_Prelude\<close>: machine types, Go maps as association lists, time, the loop that deletes while ranging, and
    the locales \<open>invariant_system\<close> and \<open>monotone_system\<close> for runs of a component. \<open>Go_Strings\<close>, \<open>Go_Base64\<close>, \<open>Go_Sort\<close>,
    \<open>Net_IP\<close>: the parts of Go's library that the source uses.
  \<^item> \<open>Lww_Map\<close>, \<open>Version_Vector\<close> (\<^verbatim>\<open>crdt/lwwmap.go\<close>): every method; replicas converge (locale \<open>join_replica\<close>), clocks
    never go back, \<open>Compare\<close> decides the pointwise order; equal clocks never agree.
  \<^item> \<open>Registry_Store\<close> (\<^verbatim>\<open>registry/*.go\<close>): records, canonical encodings and the store as a record of its maps; what it
    holds is signed, vectors cover it, announcements commute; deltas bypass the signature check.
  \<^item> \<open>Gossip_Service\<close>, \<open>Gossip_Start\<close> (\<^verbatim>\<open>gossip/service.go\<close>): envelopes, validators, consumption, publication,
    anti-entropy; start and shutdown with what is open and running as state.
  \<^item> \<open>Selector\<close>, \<open>Sip_Hash\<close> (\<^verbatim>\<open>selector/selector.go\<close>): filter, scores, softmax, random and sticky choice (locales
    \<open>index_choice\<close>, \<open>proportional_choice\<close>), and the hash against its specification.
  \<^item> \<open>Response_Cache\<close> (\<^verbatim>\<open>cache/cache.go\<close>), \<open>Rate_Limiter\<close>, \<open>Proxy_Helpers\<close>, \<open>Edge_Proxy\<close>, \<open>Websocket_Relay\<close>
    (\<^verbatim>\<open>proxy/*.go\<close>): the path of a request from \<open>ServeHTTP\<close> to the reply. Only fit backends are contacted, every request
    is answered, the cache keeps its budget, hits repeat the reply; relays keep the order of messages.
  \<^item> \<open>Geo_Score\<close>, \<open>Geo_Provider\<close> (\<^verbatim>\<open>geo/*.go\<close>), \<open>Zone_View\<close>, \<open>Dns_Handler\<close> (\<^verbatim>\<open>dnsplugin/*.go\<close>): distance and scores, database
    handles, the zone of the registry, and the handler over any zone (locale \<open>zone_contract\<close>, interpreted on the registry
    zone): answers are exactly what live nodes advertise, and every query is answered.
  \<^item> \<open>Agent_Collector\<close>, \<open>Mesh_Agent\<close> (\<^verbatim>\<open>agent/*.go\<close>): probes and their bounds; the agent's messages are authentic and
    delivered; challenges are answered with valid proofs. \<open>Agent_Lifecycle\<close>: the running agent as goroutines of an error
    group that interleave with the HTTP listener and the caller; by an invariant over its runs it is supervised
    until all have returned, and start and close with what stays open in the process.
  \<^item> \<open>Circuit_Breaker\<close>, \<open>Health_Prober\<close>, \<open>Auth_Tokens\<close>, \<open>Client_Subnet\<close>, \<open>Mesh_Pki\<close> (\<^verbatim>\<open>circuitbreaker\<close>, \<^verbatim>\<open>health\<close>, \<^verbatim>\<open>auth\<close>, \<^verbatim>\<open>ecs\<close>,
    \<^verbatim>\<open>pki\<close>, \<^verbatim>\<open>tls\<close>, \<^verbatim>\<open>cmd/meshpki\<close>): a state machine over interleaved calls with its invariant by rule induction,
    refinements of a history and of a set, tokens, subnets, certificates.
  \<^item> \<open>Mesh_Config\<close> (\<^verbatim>\<open>config/config.go\<close>), \<open>Mesh_Commands\<close>, \<open>Mesh_Tools\<close> (\<^verbatim>\<open>cmd/*\<close>): defaults and checks, how a configuration
    becomes running components, the edge advertiser, key tools, and the pusher of \<^verbatim>\<open>metrics/metrics.go\<close>.
    \<open>Mesh_Daemons\<close>: the four daemons from their command line to their exit status, with the reloads of the geo
    databases, the event that ends them and the order of the deferred calls; they end with nothing left open.
    \<open>Mesh_Observability\<close> (\<^verbatim>\<open>metrics\<close>, \<^verbatim>\<open>tracing\<close>, \<^verbatim>\<open>logging\<close>, \<^verbatim>\<open>cmd/meshctl\<close>): collectors and their registration, the set-up of
    tracing and of the logger, and the commands that print.
  \<^item> This theory: the ways through several components, from the probe of an agent to the choice of an edge
    and from the advert of an edge to the answer of a name server.

  \<^bold>\<open>Conventions.\<close> A struct is a record with prefixed fields, an error result a sum with the message on the left, a
  nil pointer \<open>None\<close>, a Go map an association list in its iteration order, an integer a word or, where it cannot
  overflow, an \<open>int\<close>; \<^verbatim>\<open>float64\<close> and \<^verbatim>\<open>float32\<close> are real numbers. Instants and durations are nanoseconds. A
  method that holds its lock throughout is one atomic step; loops driven by tickers and goroutines are
  runs over events. Loops are structural recursions; the eviction loop of the cache may fail to end and is a
  \<open>partial_function\<close> with \<open>None\<close> for not returning, and that it returns is part of the theorems about the cache and
  the proxy. The retry loops have the bound 2 of the code.

  \<^bold>\<open>Arguments and their laws.\<close> Code outside the repository is an argument: the LRU container (\<open>lru_laws\<close>), CBOR
  (\<open>codec_laws\<close>), keys and signatures (\<open>key_laws\<close>, \<open>key_pair_laws\<close>, \<open>node_key_laws\<close>, \<open>key_codec_laws\<close>), \<^verbatim>\<open>sort.Slice\<close> (\<open>sort_laws\<close>),
  EDNS (\<open>edns_laws\<close>), the printing of instants (\<open>rfc3339_laws\<close>), X.509 (\<open>parse_law\<close>, \<open>verify_law\<close>), the websocket package
  (\<open>hijack_law\<close>), error groups (\<open>errgroup_laws\<close>), the registry of Prometheus (\<open>registry_laws\<close>), OpenTelemetry, zap, token buckets, HTTP transport, DNS printing, geo databases, libp2p and badger. Each law is shown to be
  satisfiable by a concrete instance in the witness of a theorem that assumes it.

  \<^bold>\<open>Not modelled.\<close> The construction of the libp2p host beyond its success or failure and the transport options of the
  HTTP client, which are constants handed to a library; sockets, of which only whether a server listens is
  kept; flag parsing and the dispatch of subcommands; log messages other than those that report an error; \<^verbatim>\<open>Tracer\<close>
  and \<^verbatim>\<open>StartSpan\<close> of \<^verbatim>\<open>pkg/tracing\<close>, each one call of OpenTelemetry; rounding and special values of floating-point
  numbers; contexts other than the cancellation that the zone polls and the end of a running agent and of the
  daemons; interleavings inside a method that holds its lock throughout.
\<close>

section \<open>From the agent to the edge\<close>

text \<open>The store of an edge after it has heard the two messages of an agent, straight from it.\<close>

definition heard ::
    "'pk agent_env \<Rightarrow> peerID \<Rightarrow> (string \<times> bytes) list \<Rightarrow> (time \<times> Store) \<Rightarrow> Store" where
  "heard env own msgs = (\<lambda>(now, t). foldl (\<lambda>t (topic, data). consume (ae_gossip env) (ae_reg env) now t topic own data) t msgs)"

lemma metrics_of_fields [simp]:
  "mx_ID (metrics_of i now r) = i" "mx_Height (metrics_of i now r) = pr_Height r"
  "mx_CatchingUp (metrics_of i now r) = pr_CatchingUp r" "mx_Health (metrics_of i now r) = pr_Health r"
  by (simp_all add: metrics_of_def)

lemma sample_at_fields [simp]:
  "mx_ID (sample_at env ts now a) = bm_ID (ag_meta a)"
  "mx_Height (sample_at env ts now a) = pr_Height (fst (snd (Collect (ae_probe env) ts (ag_collector a))))"
  "mx_CatchingUp (sample_at env ts now a) = pr_CatchingUp (fst (snd (Collect (ae_probe env) ts (ag_collector a))))"
  "mx_Health (sample_at env ts now a) = pr_Health (fst (snd (Collect (ae_probe env) ts (ag_collector a))))"
  by (simp_all add: sample_at_def Let_def)

lemma heard_metrics:
  assumes "codec_laws (ae_gossip env)" and "key_laws (ae_gossip env) own"
    and "collectAndPublish env ts now a = (a', Inr data)"
  shows "consume (ae_gossip env) renv now' t TopicBackendsMetrics own data = ApplyBackendMetrics now' t (sample_at env ts now a)"
  by (rule collectAndPublish_Inr [OF assms(3)]) (rule publish_metrics_delivered(2) [OF assms(1,2)])

lemma LatestMetrics_apply:
  assumes "go_wf (st_metrics t)"
  shows "map_of (LatestMetrics (ApplyBackendMetrics now t x)) (mx_ID x) = Some x"
proof -
  have "go_wf (st_metrics (ApplyBackendMetrics now t x))" using assms by (simp add: ApplyBackendMetrics_def)
  from LatestMetrics_map [OF this] show ?thesis by (simp add: ApplyBackendMetrics_def)
qed

lemma LatestMetrics_other:
  assumes "go_wf (st_metrics t)" and "i \<noteq> mx_ID x"
  shows "map_of (LatestMetrics (ApplyBackendMetrics now t x)) i = map_of (LatestMetrics t) i"
proof -
  have "go_wf (st_metrics (ApplyBackendMetrics now t x))" using assms(1) by (simp add: ApplyBackendMetrics_def)
  from LatestMetrics_map [OF this] LatestMetrics_map [OF assms(1)] show ?thesis
    using assms(2) by (simp add: ApplyBackendMetrics_def)
qed

lemma Apply_meta_new:
  assumes "authentic_meta env m" and "map_of (st_meta t) (bm_ID m) = None"
  shows "map_of (st_meta (fst (ApplyBackendMeta env t m))) (bm_ID m) = Some (meta_entry m)"
  using assms(2) by (simp add: Apply_meta_authentic [OF assms(1)] lww_Merge_def)

text \<open>
  A mesh of one agent whose node cannot be reached: codecs for its record and its sample and for the
  two envelopes that carry them.
\<close>

definition demo_sample :: "string \<Rightarrow> BackendMetrics" where
  "demo_sample i = (demo_metrics i 0)\<lparr>mx_Health := ''down'', mx_Sig := [of_nat (length i)]\<rparr>"

definition demo_sample_envelope :: envelope where
  "demo_sample_envelope = \<lparr>ev_Topic = TopicBackendsMetrics, ev_Clock = 0, ev_Time = 0, ev_Payload = [6],
     ev_PubKey = [1], ev_Signature = [6]\<rparr>"

definition demo_mesh_gossip :: "string \<Rightarrow> bytes gossip_env" where
  "demo_mesh_gossip i = demo_gossip
     \<lparr>marshal_env := (\<lambda>e. if e = demo_envelope then Inr [9] else if e = demo_sample_envelope then Inr [4] else Inl ''unsupported''),
      unmarshal_env := (\<lambda>b. if b = [9] then Inr demo_envelope else if b = [4] then Inr demo_sample_envelope else Inl ''bad envelope''),
      marshal_metrics := (\<lambda>x. if x = demo_sample i then Inr [6] else Inl ''unsupported''),
      unmarshal_metrics := (\<lambda>b. if b = [6] then Inr (demo_sample i) else Inl ''bad metrics'')\<rparr>"

definition demo_mesh :: "string \<Rightarrow> bytes agent_env" where
  "demo_mesh i = demo_agent_env\<lparr>ae_gossip := demo_mesh_gossip i, ae_probe := demo_probe\<lparr>pe_Do := (\<lambda>_. Inl ''refused'')\<rparr>,
     ae_NewService := Inr [TopicBackendsMeta, TopicBackendsMetrics]\<rparr>"

definition demo_mesh_agent :: "string \<Rightarrow> Agent" where
  "demo_mesh_agent i = demo_agent\<lparr>ag_topics := [TopicBackendsMeta, TopicBackendsMetrics], ag_meta := demo_meta i 1 [2]\<rparr>"

abbreviation demo_times :: probe_times where
  "demo_times \<equiv> \<lparr>pt_start = 0, pt_arrived = 0, pt_scrape = 0\<rparr>"

lemma demo_mesh_laws:
  "key_pair_laws (demo_mesh i)" "codec_laws (ae_gossip (demo_mesh i))" "key_laws (ae_gossip (demo_mesh i)) ''peerA''"
  by (auto simp: demo_mesh_def demo_agent_env_def key_pair_laws_def demo_env_def PublicKeySize_def codec_laws_def
      key_laws_def demo_mesh_gossip_def demo_gossip_def split: if_splits)

lemma demo_mesh_New: "agent_New (demo_mesh ''b1'') 0 demo_agent_cfg = Inr (demo_mesh_agent ''b1'')"
  using demo_agent_New by (simp add: agent_New_def demo_mesh_def demo_agent_env_def demo_mesh_agent_def demo_agent_cfg_def
      demo_agent_def PrivateKeySize_def NewCollector_def demo_collector_def CanonicalBackendMeta_def demo_env_def
      demo_meta_def second_def wrap_i64_def Let_def)

lemma demo_mesh_down:
  "fetchStatus (ae_probe (demo_mesh i)) 0 0 (ag_collector a) = Inl ''refused''"
  by (simp add: fetchStatus_def doGet_def demo_mesh_def)

lemma demo_mesh_sample:
  "\<exists>a'. collectAndPublish (demo_mesh i) demo_times 0 ((demo_mesh_agent i)\<lparr>ag_store := t\<rparr>) = (a', Inr [4])"
proof -
  let ?x = "metrics_of i 0 \<lparr>pr_Height = 0, pr_CatchingUp = False, pr_CPU = 0, pr_P95ms = 0, pr_RPS = 0,
                    pr_FailRate = 0, pr_RTTms = 0, pr_Health = ''down''\<rparr>"
  have "?x\<lparr>mx_Sig := [of_nat (length i)]\<rparr> = demo_sample i"
    by (simp add: metrics_of_def demo_sample_def demo_metrics_def Unix_def)
  moreover have "ae_reg (demo_mesh i) = demo_env" "ae_Sign (demo_mesh i) = (\<lambda>k m. m)"
    by (simp_all add: demo_mesh_def demo_agent_env_def)
  moreover have "CanonicalBackendMetrics demo_env ?x = Inr [of_nat (length i)]"
    by (simp add: CanonicalBackendMetrics_def demo_env_def metrics_of_def)
  moreover have "marshal_metrics (ae_gossip (demo_mesh i)) (demo_sample i) = Inr [6]" "mx_AtUnix (demo_sample i) = 0"
    by (simp_all add: demo_mesh_def demo_mesh_gossip_def) (simp add: demo_sample_def demo_metrics_def)
  moreover have "encodeEnvelope (ae_gossip (demo_mesh i)) 0 TopicBackendsMetrics [6] 0 = Inr [4]"
    by (simp add: demo_mesh_def demo_mesh_gossip_def demo_gossip_def encodeEnvelope_def canonicalEnvelope_def
        demo_envelope_def demo_sample_envelope_def Unix_def)
  ultimately show ?thesis
    by (simp add: collectAndPublish_def Collect_def demo_mesh_down PublishBackendMetrics_def Publish_def Let_def
        demo_mesh_agent_def demo_meta_def)
qed

lemma demo_mesh_meta:
  "publishMeta (demo_mesh ''b1'') 0 (demo_mesh_agent ''b1'') =
     ((demo_mesh_agent ''b1'')\<lparr>ag_store := fst (ApplyBackendMeta demo_env (NewStore (6 * second)) (demo_meta ''b1'' 1 [2]))\<rparr>, Inr [9])"
proof -
  let ?g = "demo_mesh_gossip ''b1''"
  have "marshal_meta ?g (demo_meta ''b1'' 1 [2]) = Inr [7]" by (simp add: demo_mesh_gossip_def demo_gossip_def)
  moreover have "encodeEnvelope ?g 0 TopicBackendsMeta [7] 1 = Inr [9]"
    by (simp add: demo_mesh_gossip_def demo_gossip_def encodeEnvelope_def canonicalEnvelope_def demo_envelope_def Unix_def)
  moreover have "bm_Clock (demo_meta ''b1'' 1 [2]) = 1" by (simp add: demo_meta_def)
  ultimately have "PublishBackendMeta ?g demo_env 0 [TopicBackendsMeta, TopicBackendsMetrics] (NewStore (6 * second))
      (demo_meta ''b1'' 1 [2]) = (fst (ApplyBackendMeta demo_env (NewStore (6 * second)) (demo_meta ''b1'' 1 [2])), Inr [9])"
    by (simp add: PublishBackendMeta_def Publish_def)
  moreover have "ag_topics (demo_mesh_agent ''b1'') = [TopicBackendsMeta, TopicBackendsMetrics]"
    "ag_store (demo_mesh_agent ''b1'') = NewStore (6 * second)" "ag_meta (demo_mesh_agent ''b1'') = demo_meta ''b1'' 1 [2]"
    "ae_gossip (demo_mesh ''b1'') = ?g" "ae_reg (demo_mesh ''b1'') = demo_env"
    by (simp_all add: demo_mesh_agent_def demo_agent_def demo_mesh_def demo_agent_env_def)
  ultimately show ?thesis
    using publishMeta_inv(1) [OF agent_New_inv [OF demo_mesh_laws(1) demo_mesh_New], of 0] by simp
qed



text \<open>
  C4. A backend that cannot be reached is taken out of service. When the status of a node cannot be
  read, the sample its agent publishes keeps every edge that hears it from choosing the backend, for
  every request and whatever the draws, until another sample arrives.
\<close>

theorem unreachable_backend_avoided:
  assumes "codec_laws (ae_gossip env)" and "key_laws (ae_gossip env) own"
    and "collectAndPublish env ts now a = (a', Inr d)"
    and "fetchStatus (ae_probe env) (pt_start ts) (pt_arrived ts) (ag_collector a) = Inl err"
    and "store_wf t" and "px_store p = heard env own [(TopicBackendsMetrics, d)] (now', t)"
    and "pickCandidate draws p ctx e (fst (buildCandidates p chain)) tried = Inr c"
  shows "bm_ID (ca_Meta c) \<noteq> bm_ID (ag_meta a)"
proof
  assume same: "bm_ID (ca_Meta c) = bm_ID (ag_meta a)"
  let ?x = "sample_at env ts now a"
  have px: "px_store p = ApplyBackendMetrics now' t ?x"
    by (simp add: assms(6) heard_def heard_metrics [OF assms(1-3)])
  have down: "mx_Health ?x = ''down''" using assms(4) by (simp add: Collect_def Let_def)
  obtain c0 where c0: "c0 \<in> set (fst (buildCandidates p chain))" "eligible ctx e (px_selectorCfg p) c0"
    "ca_Meta c0 = ca_Meta c" "ca_Metrics c0 = ca_Metrics c"
    using pickCandidate_Inr [OF assms(7)] by blast
  have "store_wf (px_store p)" using assms(5) by (simp add: px store_wf_metrics)
  from buildCandidates_served [OF this c0(1)] have "map_of (LatestMetrics (px_store p)) (bm_ID (ag_meta a)) = Some (ca_Metrics c0)"
    by (simp add: served_def c0(3) same)
  moreover have "map_of (LatestMetrics (px_store p)) (bm_ID (ag_meta a)) = Some ?x"
    using LatestMetrics_apply [of t now' ?x] assms(5) by (simp add: px store_wf_def)
  ultimately have "mx_Health (ca_Metrics c0) = ''down''" using down by simp
  with c0(2) show False by (simp add: eligible_def ToLower_def lower_char_def)
qed

theorem unreachable_backend_avoided_witness:
  "\<exists>c. pickCandidate (None, None, 0) (demo_proxy\<lparr>px_store := heard (demo_mesh ''b9'') ''peerA''
       [(TopicBackendsMetrics, [4])] (0, demo_store)\<rparr>) demo_rctx \<lparr>BestHeight = 10\<rparr>
     (fst (buildCandidates (demo_proxy\<lparr>px_store := heard (demo_mesh ''b9'') ''peerA''
       [(TopicBackendsMetrics, [4])] (0, demo_store)\<rparr>) ''c1'')) [] = Inr c
   \<and> bm_ID (ca_Meta c) \<noteq> ''b9''"
proof -
  obtain a' where run: "collectAndPublish (demo_mesh ''b9'') demo_times 0 ((demo_mesh_agent ''b9'')\<lparr>ag_store := NewStore 0\<rparr>) = (a', Inr [4])"
    using demo_mesh_sample by blast
  let ?t = "heard (demo_mesh ''b9'') ''peerA'' [(TopicBackendsMetrics, [4])] (0, demo_store)"
  let ?p = "demo_proxy\<lparr>px_store := ?t\<rparr>"
  have t: "?t = ApplyBackendMetrics 0 demo_store (sample_at (demo_mesh ''b9'') demo_times 0 ((demo_mesh_agent ''b9'')\<lparr>ag_store := NewStore 0\<rparr>))"
    by (simp add: heard_def heard_metrics [OF demo_mesh_laws(2,3) run])
  have "map_of (LatestMetrics ?t) ''b1'' = map_of (LatestMetrics demo_store) ''b1''"
    unfolding t using demo_store_wf
    by (intro LatestMetrics_other) (simp_all add: store_wf_def demo_mesh_agent_def demo_meta_def)
  then have "fst (buildCandidates ?p ''c1'') = [demo_backend]"
    by (simp add: buildCandidates_def BackendSnapshot_def lww_Snapshot_def demo_store_metrics geoPenalty_def
        demo_backend_def demo_cand_def Let_def)
      (simp add: t ApplyBackendMetrics_def demo_store_meta demo_meta_def demo_metrics_def demo_proxy_def geoPenalty_def Let_def)
  moreover obtain c where "pickCandidate (None, None, 0) ?p demo_rctx \<lparr>BestHeight = 10\<rparr> [demo_backend] [] = Inr c"
    using pickCandidate_single [of demo_rctx "\<lparr>BestHeight = 10\<rparr>" ?p demo_backend "(None, None, 0)"] demo_backend_eligible
    by (auto simp: demo_proxy_def)
  ultimately have pick: "pickCandidate (None, None, 0) ?p demo_rctx \<lparr>BestHeight = 10\<rparr> (fst (buildCandidates ?p ''c1'')) [] = Inr c" by simp
  have "bm_ID (ag_meta ((demo_mesh_agent ''b9'')\<lparr>ag_store := NewStore 0\<rparr>)) = ''b9''"
    by (simp add: demo_mesh_agent_def demo_meta_def)
  with unreachable_backend_avoided [OF demo_mesh_laws(2,3) run _ demo_store_wf _ pick, of "''refused''" 0]
  show ?thesis using pick by (auto simp: demo_mesh_down)
qed

section \<open>From the edge to the name server\<close>



end
